(* ===== verification/Prelude.thy ===== *)
theory Prelude
  imports Complex_Main "HOL-Library.AList" "HOL-Library.List_Lexorder" "HOL-Library.Multiset" "HOL-Library.Sublist"
begin

text \<open>
  Shared vocabulary of the development: Python's strings, dictionaries, slices and sorts as the
  components use them, JSON values, and the generic lemmas the component proofs share.

  \<^item> A Python \<open>str\<close> is a list of Unicode code points (\<open>pystr\<close>), so \<open>len\<close>, slicing and
    concatenation are those of lists; \<open>py ''abc''\<close> is a literal.
  \<^item> A Python \<open>dict\<close> is an association list in insertion order: \<open>d[k] = v\<close> is
    \<open>AList.update\<close> (it overwrites in place or appends), \<open>del d[k]\<close> is \<open>AList.delete\<close>,
    \<open>d.get(k)\<close> is \<open>map_of d k\<close>.
  \<^item> \<open>sorted(.., reverse=True)\<close> is stable: \<open>sort_desc\<close>.
  \<^item> Python integers are \<open>int\<close>; floats (times, scores, budgets in seconds) are exact reals:
    rounding is not modelled.
\<close>

named_theorems dict_simps \<open>lookups after updates and deletions of a dictionary\<close>
named_theorems str_simps \<open>evaluation of string helpers\<close>

section \<open>Strings\<close>

type_synonym pystr = "nat list"

definition py :: "string \<Rightarrow> pystr" where
  "py s = map of_char s"

lemma py_eq_iff [simp]: "py s = py t \<longleftrightarrow> s = t"
  by (simp add: py_def inj_map_eq_map inj_of_char)

lemma py_Nil [simp]: "py [] = []"
  by (simp add: py_def)

lemma py_eq_Nil_iff [simp]: "py s = [] \<longleftrightarrow> s = []" "[] = py s \<longleftrightarrow> s = []"
  by (auto simp: py_def)

lemma length_py [simp]: "length (py s) = length s"
  by (simp add: py_def)

text \<open>The newline character.\<close>

abbreviation nl :: pystr where
  "nl \<equiv> [10]"

text \<open>\<open>sep.join(parts)\<close>.\<close>

fun join :: "pystr \<Rightarrow> pystr list \<Rightarrow> pystr" where
  "join sep [] = []"
| "join sep [x] = x"
| "join sep (x # y # ys) = x @ sep @ join sep (y # ys)"

lemma join_Cons: "join sep (x # xs) = (if xs = [] then x else x @ sep @ join sep xs)"
  by (cases xs) auto

lemma join_sublist: "x \<in> set xs \<Longrightarrow> sublist x (join sep xs)"
proof (induction xs)
  case (Cons y ys)
  have "sublist x (p @ z)" if "sublist x z" for p z
    using that unfolding sublist_def by (metis append.assoc)
  from this [of "join sep ys" "y @ sep"] Cons show ?case
    by (auto simp: join_Cons)
qed simp

lemma join_eq_Nil_iff: "join sep xs = [] \<longleftrightarrow> (\<forall>x \<in> set xs. x = []) \<and> (length xs \<le> 1 \<or> sep = [])"
  by (induction sep xs rule: join.induct) auto

lemma append_sep_eq_iff:
  "x \<notin> set a \<Longrightarrow> x \<notin> set b \<Longrightarrow> a @ x # p = b @ x # q \<longleftrightarrow> a = b \<and> p = q"
proof (induction a arbitrary: b)
  case Nil
  then show ?case by (cases b) auto
next
  case (Cons y a)
  then show ?case by (cases b) auto
qed

text \<open>\<open>str.isspace\<close> of one code point, and \<open>strip\<close>.\<close>

definition is_space :: "nat \<Rightarrow> bool" where
  "is_space c \<longleftrightarrow> (9 \<le> c \<and> c \<le> 13) \<or> (28 \<le> c \<and> c \<le> 32) \<or> c = 133 \<or> c = 160 \<or> c = 5760
     \<or> (8192 \<le> c \<and> c \<le> 8202) \<or> c = 8232 \<or> c = 8233 \<or> c = 8239 \<or> c = 8287 \<or> c = 12288"

definition rstrip :: "pystr \<Rightarrow> pystr" where
  "rstrip s = rev (dropWhile is_space (rev s))"

definition strip :: "pystr \<Rightarrow> pystr" where
  "strip s = rstrip (dropWhile is_space s)"

lemma strip_Nil [simp]: "strip [] = []"
  by (simp add: strip_def rstrip_def)

text \<open>\<open>str(n)\<close> of an integer.\<close>

fun nat_digits :: "nat \<Rightarrow> pystr" where
  "nat_digits n = (if n < 10 then [48 + n] else nat_digits (n div 10) @ [48 + n mod 10])"

declare nat_digits.simps [simp del]

definition py_int :: "int \<Rightarrow> pystr" where
  "py_int i = (if i < 0 then py ''-'' @ nat_digits (nat (- i)) else nat_digits (nat i))"

text \<open>The decimal digits read back, hence the printing of naturals is injective.\<close>

definition digits_value :: "pystr \<Rightarrow> nat" where
  "digits_value ds = foldl (\<lambda>a d. a * 10 + (d - 48)) 0 ds"

lemma digits_value_nat_digits [simp]: "digits_value (nat_digits n) = n"
proof (induction n rule: nat_digits.induct)
  case (1 n)
  then show ?case
    by (subst nat_digits.simps) (auto simp: digits_value_def)
qed

lemma set_nat_digits: "set (nat_digits n) \<subseteq> {48..57}"
proof (induction n rule: nat_digits.induct)
  case (1 n)
  then show ?case
    by (subst nat_digits.simps) (auto simp: less_Suc_eq_le)
qed

lemma nat_digits_inject [simp]: "nat_digits m = nat_digits n \<longleftrightarrow> m = n"
  by (metis digits_value_nat_digits)

text \<open>
  \<open>repr(s)\<close> of a string: quotes, backslashes and control characters of the ASCII range are
  escaped as Python does; code points from 128 on are printed as they are.
\<close>

definition hex_digit :: "nat \<Rightarrow> nat" where
  "hex_digit n = (if n < 10 then 48 + n else 87 + n)"

definition repr_char :: "nat \<Rightarrow> nat \<Rightarrow> pystr" where
  "repr_char q c =
     (if c = q \<or> c = 92 then [92, c]
      else if c = 9 then py [CHR 0x5C, CHR ''t'']
      else if c = 10 then py [CHR 0x5C, CHR ''n'']
      else if c = 13 then py [CHR 0x5C, CHR ''r'']
      else if c < 32 \<or> c = 127 then [92, 120, hex_digit (c div 16), hex_digit (c mod 16)]
      else [c])"

definition py_repr :: "pystr \<Rightarrow> pystr" where
  "py_repr s = (let q = (if 39 \<in> set s \<and> 34 \<notin> set s then 34 else 39)
     in [q] @ concat (map (repr_char q) s) @ [q])"

section \<open>Slices\<close>

text \<open>\<open>xs[i:j]\<close>: negative bounds count from the end, both are clipped to the list.\<close>

definition clip_index :: "nat \<Rightarrow> int \<Rightarrow> nat" where
  "clip_index n i = nat (if i < 0 then max 0 (int n + i) else min i (int n))"

definition slice :: "'a list \<Rightarrow> int \<Rightarrow> int \<Rightarrow> 'a list" where
  "slice xs i j = (let a = clip_index (length xs) i; b = clip_index (length xs) j
     in take (b - a) (drop a xs))"

lemma slice_nonneg:
  "0 \<le> i \<Longrightarrow> i \<le> j \<Longrightarrow> slice xs i j = take (nat (j - i)) (drop (nat i) xs)"
  by (auto simp: slice_def clip_index_def Let_def min_def nat_diff_distrib)

lemma slice_0 [simp]: "0 \<le> j \<Longrightarrow> slice xs 0 j = take (nat j) xs"
  by (simp add: slice_nonneg)

lemma length_slice_le: "0 \<le> i \<Longrightarrow> i \<le> j \<Longrightarrow> length (slice xs i j) \<le> nat (j - i)"
  by (simp add: slice_nonneg)

lemma set_slice: "set (slice xs i j) \<subseteq> set xs"
  by (auto simp: slice_def Let_def dest!: in_set_takeD in_set_dropD)

section \<open>Dictionaries\<close>

abbreviation dict_ok :: "('k \<times> 'v) list \<Rightarrow> bool" where
  "dict_ok d \<equiv> distinct (map fst d)"

abbreviation dict_set :: "'k \<Rightarrow> 'v \<Rightarrow> ('k \<times> 'v) list \<Rightarrow> ('k \<times> 'v) list" where
  "dict_set \<equiv> AList.update"

abbreviation dict_del :: "'k \<Rightarrow> ('k \<times> 'v) list \<Rightarrow> ('k \<times> 'v) list" where
  "dict_del \<equiv> AList.delete"

text \<open>\<open>d.update(e)\<close>: the items of \<open>e\<close> are stored one after the other.\<close>

fun dict_update :: "('k \<times> 'v) list \<Rightarrow> ('k \<times> 'v) list \<Rightarrow> ('k \<times> 'v) list" where
  "dict_update d [] = d"
| "dict_update d ((k, v) # e) = dict_update (dict_set k v d) e"

lemma dict_get_set [dict_simps]: "map_of (dict_set k v d) k' = (if k' = k then Some v else map_of d k')"
  by (simp add: update_conv')

lemma dict_get_del [dict_simps]: "map_of (dict_del k d) k' = (if k' = k then None else map_of d k')"
  by (simp add: delete_conv')

lemma dict_ok_set [simp]: "dict_ok d \<Longrightarrow> dict_ok (dict_set k v d)"
  by (rule distinct_update)

lemma dict_ok_del [simp]: "dict_ok d \<Longrightarrow> dict_ok (dict_del k d)"
  by (simp add: delete_keys distinct_removeAll)

lemma dict_ok_update [simp]: "dict_ok d \<Longrightarrow> dict_ok (dict_update d e)"
  by (induction d e rule: dict_update.induct) auto

lemma dict_get_update:
  "dict_ok e \<Longrightarrow> map_of (dict_update d e) k = (case map_of e k of None \<Rightarrow> map_of d k | Some v \<Rightarrow> Some v)"
  by (induction d e rule: dict_update.induct)
    (auto simp: dict_simps split: option.splits dest: map_of_SomeD weak_map_of_SomeI intro: rev_image_eqI)

lemma find_snoc: "find P (xs @ [x]) = (case find P xs of None \<Rightarrow> if P x then Some x else None | Some y \<Rightarrow> Some y)"
  by (induction xs) auto

lemma map_of_in_set: "dict_ok d \<Longrightarrow> map_of d k = Some v \<longleftrightarrow> (k, v) \<in> set d"
  by (rule map_of_eq_Some_iff)

lemma dict_mem_iff: "k \<in> fst ` set d \<longleftrightarrow> map_of d k \<noteq> None"
  by (simp add: map_of_eq_None_iff)

lemma ball_dict_set: "\<forall>(i, p) \<in> set s. P i p \<Longrightarrow> P k v \<Longrightarrow> \<forall>(i, p) \<in> set (dict_set k v s). P i p"
  by (induction s) auto

section \<open>Sorting\<close>

definition sort_desc :: "('a \<Rightarrow> real) \<Rightarrow> 'a list \<Rightarrow> 'a list" where
  "sort_desc f xs = sort_key (\<lambda>x. - f x) xs"

lemma set_sort_desc [simp]: "set (sort_desc f xs) = set xs"
  by (simp add: sort_desc_def)

lemma length_sort_desc [simp]: "length (sort_desc f xs) = length xs"
  by (simp add: sort_desc_def)

lemma mset_sort_desc [simp]: "mset (sort_desc f xs) = mset xs"
  by (simp add: sort_desc_def)

lemma sorted_sort_desc: "sorted_wrt (\<lambda>x y. f y \<le> f x) (sort_desc f xs)"
proof -
  have "sorted (map (\<lambda>x. - f x) (sort_desc f xs))"
    by (simp add: sort_desc_def)
  then show ?thesis
    by (simp add: sorted_map)
qed

lemma sort_desc_stable: "filter (\<lambda>x. f x = c) (sort_desc f xs) = filter (\<lambda>x. f x = c) xs"
proof -
  have "(\<lambda>x. f x = c) = (\<lambda>x. - f x = - c)"
    by auto
  then show ?thesis
    using sort_key_stable [of "\<lambda>x. - f x" "- c" xs] by (simp add: sort_desc_def)
qed

lemma sorted_wrt_take: "sorted_wrt P xs \<Longrightarrow> sorted_wrt P (take n xs)"
  by (metis append_take_drop_id sorted_wrt_append)

text \<open>What a prefix of a sorted list leaves out is no better than what it keeps.\<close>

lemma take_sorted_best:
  assumes "sorted_wrt (\<lambda>x y. f y \<le> f x) xs" and "x \<in> set xs"
  shows "x \<in> set (take n xs) \<or> length (take n xs) = n \<and> (\<forall>y \<in> set (take n xs). f x \<le> f y)"
proof (cases "x \<in> set (take n xs)")
  case False
  with assms(2) have "x \<in> set (drop n xs)"
    by (metis UnE append_take_drop_id set_append)
  moreover from this have "length (take n xs) = n"
    by (cases "n < length xs") auto
  ultimately show ?thesis
    using assms(1) sorted_wrt_append [of "\<lambda>x y. f y \<le> f x" "take n xs" "drop n xs"] by auto
qed simp

section \<open>JSON values\<close>

text \<open>The values of an untyped dictionary: tool arguments, payloads, profile facts.\<close>

datatype json =
    JNull
  | JBool bool
  | JInt int
  | JFloat real
  | JStr pystr
  | JList "json list"
  | JObj "(pystr \<times> json) list"

type_synonym payload = "(pystr \<times> json) list"

text \<open>\<open>repr(v)\<close> and \<open>str(v)\<close> of such a value; the text of a float is the argument \<open>fl\<close>.\<close>

fun json_repr :: "(real \<Rightarrow> pystr) \<Rightarrow> json \<Rightarrow> pystr" where
  "json_repr fl JNull = py ''None''"
| "json_repr fl (JBool b) = (if b then py ''True'' else py ''False'')"
| "json_repr fl (JInt i) = py_int i"
| "json_repr fl (JFloat r) = fl r"
| "json_repr fl (JStr s) = py_repr s"
| "json_repr fl (JList xs) = py ''['' @ join (py '', '') (map (json_repr fl) xs) @ py '']''"
| "json_repr fl (JObj kvs) =
     py ''{'' @ join (py '', '') (map (\<lambda>(k, v). py_repr k @ py '': '' @ json_repr fl v) kvs) @ py ''}''"

definition json_str :: "(real \<Rightarrow> pystr) \<Rightarrow> json \<Rightarrow> pystr" where
  "json_str fl v = (case v of JStr s \<Rightarrow> s | _ \<Rightarrow> json_repr fl v)"

lemma json_str_JStr [simp]: "json_str fl (JStr s) = s"
  by (simp add: json_str_def)

text \<open>\<open>str(args.get(k, ""))\<close>.\<close>

definition arg_str :: "(real \<Rightarrow> pystr) \<Rightarrow> payload \<Rightarrow> pystr \<Rightarrow> pystr" where
  "arg_str fl args k = (case map_of args k of None \<Rightarrow> [] | Some v \<Rightarrow> json_str fl v)"

end
