(* ===== verification/Tokens.thy ===== *)
theory Tokens
  imports Prelude
begin

text \<open>
  \<open>tokens.py\<close>: the char/4 estimate shared by the budgeter and the working-memory rollover. Both
  take the estimator as an argument (\<open>type_synonym estimator\<close>), as the code's constructors do.
\<close>

type_synonym estimator = "pystr \<Rightarrow> int"

definition estimate_tokens :: estimator where
  "estimate_tokens text = max 0 (int (length text) div 4)"

lemma estimate_tokens_nonneg [simp]: "0 \<le> estimate_tokens s"
  by (simp add: estimate_tokens_def)

lemma estimate_tokens_Nil [simp]: "estimate_tokens [] = 0"
  by (simp add: estimate_tokens_def)

lemma estimate_tokens_mono: "length s \<le> length t \<Longrightarrow> estimate_tokens s \<le> estimate_tokens t"
  by (simp add: estimate_tokens_def zdiv_mono1)

text \<open>
  What the components need of an estimator: it is never negative and the empty text is free. The
  default estimate satisfies it.
\<close>

locale token_estimator =
  fixes est :: estimator
  assumes est_nonneg [simp]: "0 \<le> est s"
    and est_Nil [simp]: "est [] = 0"

interpretation default_estimator: token_estimator estimate_tokens
  by unfold_locales simp_all

end
