(* ===== verification/Errors.thy ===== *)
theory Errors
  imports Prelude
begin

text \<open>
  The exceptions of \<open>errors.py\<close> and the others the modelled code raises or catches, as values.
  A fallible operation returns \<open>exn + 'a\<close>: \<open>Inl\<close> is the exception it raises. The three
  constructors at the end are \<open>BaseException\<close>s that \<open>except Exception\<close> does not catch.
  \<open>BackendError\<close> stands for any other \<open>Exception\<close>, for instance the error of a database driver.
\<close>

datatype exn =
    UnauthorizedError pystr
  | ContextOverflowError int int
  | BudgetExceededError pystr
  | StoreWriteError pystr
  | LLMError bool pystr
  | TimeoutError
  | KeyError pystr
  | ValueError pystr
  | TypeError pystr
  | RuntimeError pystr
  | BackendError pystr
  | CancelledError
  | KeyboardInterrupt
  | SystemExit

type_synonym 'a res = "exn + 'a"

text \<open>\<open>isinstance(exc, HarnessKitError)\<close>.\<close>

definition is_harness_kit_error :: "exn \<Rightarrow> bool" where
  "is_harness_kit_error e \<longleftrightarrow> (case e of UnauthorizedError _ \<Rightarrow> True | ContextOverflowError _ _ \<Rightarrow> True
     | BudgetExceededError _ \<Rightarrow> True | StoreWriteError _ \<Rightarrow> True | _ \<Rightarrow> False)"

text \<open>Control flow: what \<open>except Exception\<close> lets through.\<close>

definition is_control_flow :: "exn \<Rightarrow> bool" where
  "is_control_flow e \<longleftrightarrow> e = CancelledError \<or> e = KeyboardInterrupt \<or> e = SystemExit"

text \<open>\<open>str(e)\<close> and \<open>type(e).__name__\<close>.\<close>

definition exn_str :: "exn \<Rightarrow> pystr" where
  "exn_str e = (case e of
       UnauthorizedError m \<Rightarrow> m
     | ContextOverflowError t b \<Rightarrow>
         py ''tier-0 context ('' @ py_int t @ py '' tokens) exceeds budget ('' @ py_int b @ py '')''
     | BudgetExceededError m \<Rightarrow> m
     | StoreWriteError op \<Rightarrow> py ''store write failed after retries: '' @ op
     | LLMError _ m \<Rightarrow> m
     | KeyError m \<Rightarrow> py_repr m
     | ValueError m \<Rightarrow> m
     | TypeError m \<Rightarrow> m
     | RuntimeError m \<Rightarrow> m
     | BackendError m \<Rightarrow> m
     | _ \<Rightarrow> [])"

definition exn_name :: "exn \<Rightarrow> pystr" where
  "exn_name e = (case e of
       UnauthorizedError _ \<Rightarrow> py ''UnauthorizedError''
     | ContextOverflowError _ _ \<Rightarrow> py ''ContextOverflowError''
     | BudgetExceededError _ \<Rightarrow> py ''BudgetExceededError''
     | StoreWriteError _ \<Rightarrow> py ''StoreWriteError''
     | LLMError _ _ \<Rightarrow> py ''LLMError''
     | TimeoutError \<Rightarrow> py ''TimeoutError''
     | KeyError _ \<Rightarrow> py ''KeyError''
     | ValueError _ \<Rightarrow> py ''ValueError''
     | TypeError _ \<Rightarrow> py ''TypeError''
     | RuntimeError _ \<Rightarrow> py ''RuntimeError''
     | BackendError _ \<Rightarrow> py ''BackendError''
     | CancelledError \<Rightarrow> py ''CancelledError''
     | KeyboardInterrupt \<Rightarrow> py ''KeyboardInterrupt''
     | SystemExit \<Rightarrow> py ''SystemExit'')"

lemma harness_kit_error_not_control_flow: "is_harness_kit_error e \<Longrightarrow> \<not> is_control_flow e"
  by (auto simp: is_harness_kit_error_def is_control_flow_def)

text \<open>Sequencing of fallible computations, and a loop of them that stops at the first error.\<close>

definition bind_res :: "'a res \<Rightarrow> ('a \<Rightarrow> 'b res) \<Rightarrow> 'b res" where
  "bind_res r k = (case r of Inl e \<Rightarrow> Inl e | Inr x \<Rightarrow> k x)"

lemma bind_res_simps [simp]: "bind_res (Inr x) k = k x" "bind_res (Inl e) k = Inl e"
  by (simp_all add: bind_res_def)

fun map_res :: "('a \<Rightarrow> 'b res) \<Rightarrow> 'a list \<Rightarrow> 'b list res" where
  "map_res f [] = Inr []"
| "map_res f (x # xs) = bind_res (f x) (\<lambda>y. bind_res (map_res f xs) (\<lambda>ys. Inr (y # ys)))"

lemma map_res_map: "(\<And>x. f (g x) = Inr x) \<Longrightarrow> map_res f (map g xs) = Inr xs"
  by (induction xs) auto

lemma map_res_cong [fundef_cong]:
  "xs = ys \<Longrightarrow> (\<And>x. x \<in> set ys \<Longrightarrow> f x = g x) \<Longrightarrow> map_res f xs = map_res g ys"
  by (induction xs arbitrary: ys) auto

lemma bind_res_cong [fundef_cong]: "r = r' \<Longrightarrow> (\<And>x. r' = Inr x \<Longrightarrow> k x = k' x) \<Longrightarrow> bind_res r k = bind_res r' k'"
  by (cases r') auto

lemma map_res_Inr: "map_res f xs = Inr ys \<longleftrightarrow> length xs = length ys \<and> (\<forall>i < length xs. f (xs ! i) = Inr (ys ! i))"
proof (induction xs arbitrary: ys)
  case (Cons x xs)
  show ?case
  proof (cases ys)
    case Nil
    then show ?thesis by (auto simp: bind_res_def split: sum.splits)
  next
    case (Cons y ys')
    have "map_res f (x # xs) = Inr ys \<longleftrightarrow> f x = Inr y \<and> map_res f xs = Inr ys'"
      by (auto simp: bind_res_def Cons split: sum.splits)
    then show ?thesis
      by (auto simp: Cons.IH \<open>ys = y # ys'\<close> nth_Cons less_Suc_eq_0_disj split: nat.splits)
  qed
qed auto

end
