(* ===== verification/Store_Types.thy ===== *)
theory Store_Types
  imports Errors
begin

text \<open>
  The records of \<open>stores/types.py\<close>. \<open>ToolCall\<close> is llm_kit's record; the code reads and rebuilds it
  through the three fields below. Fields that default to \<open>time.time()\<close> take the clock value as an
  argument of the \<open>new_..\<close> functions.
\<close>

record tool_call =
  tc_id :: pystr
  tc_name :: pystr
  tc_arguments :: payload

record turn =
  turn_role :: pystr
  turn_text :: pystr
  turn_tool_calls :: "tool_call list"
  turn_tool_call_id :: "pystr option"
  turn_ts :: real

definition new_turn :: "pystr \<Rightarrow> pystr \<Rightarrow> real \<Rightarrow> turn" where
  "new_turn role txt now = \<lparr>turn_role = role, turn_text = txt, turn_tool_calls = [],
     turn_tool_call_id = None, turn_ts = now\<rparr>"

record session_state =
  st_user_id :: pystr
  working_buffer :: "turn list"
  rolling_summary :: pystr
  model_name :: "pystr option"
  scratch :: payload
  updated_at :: real
  finalized_at :: "real option"
  created_at :: real

definition new_session :: "pystr \<Rightarrow> real \<Rightarrow> session_state" where
  "new_session user_id now = \<lparr>st_user_id = user_id, working_buffer = [], rolling_summary = [],
     model_name = None, scratch = [], updated_at = now, finalized_at = None, created_at = now\<rparr>"

record conversation_meta =
  cm_conversation_id :: pystr
  cm_user_id :: pystr
  cm_created_at :: real
  cm_updated_at :: real
  cm_finalized_at :: "real option"
  cm_turn_count :: int
  cm_summary_preview :: pystr
  cm_model_name :: "pystr option"

record user_profile =
  pr_user_id :: pystr
  facts :: payload
  pr_updated_at :: real

definition new_profile :: "pystr \<Rightarrow> real \<Rightarrow> user_profile" where
  "new_profile user_id now = \<lparr>pr_user_id = user_id, facts = [], pr_updated_at = now\<rparr>"

record memory_point =
  mp_id :: pystr
  mp_vector :: "real list"
  mp_payload :: payload

record memory_hit =
  hit_point :: memory_point
  hit_score :: real

text \<open>\<open>payload.get("text", "")\<close>, read as a string; the code stores only strings there.\<close>

definition payload_text :: "payload \<Rightarrow> pystr" where
  "payload_text p = (case map_of p (py ''text'') of Some (JStr s) \<Rightarrow> s | _ \<Rightarrow> [])"

text \<open>The owner test \<open>payload.get("user_id") == user_id\<close>.\<close>

definition owned_by :: "pystr \<Rightarrow> memory_point \<Rightarrow> bool" where
  "owned_by user_id p \<longleftrightarrow> map_of (mp_payload p) (py ''user_id'') = Some (JStr user_id)"

lemma owned_by_unique: "owned_by u p \<Longrightarrow> owned_by v p \<Longrightarrow> u = v"
  by (simp add: owned_by_def)

end
