(* ===== verification/Config.thy ===== *)
theory Config
  imports Errors
begin

text \<open>
  The configuration tree of \<open>config/schema.py\<close>: one record per dataclass, its defaults, and the two
  \<open>__post_init__\<close> validations. \<open>AppConfig\<close> is llm_kit's and stays a type variable. The long default
  prompts are not copied: the definitions that build a default take the prompt as an argument.
\<close>

section \<open>Agent, context and retry\<close>

record agent_config =
  ac_max_iterations :: int
  ac_per_tool_timeout_s :: real
  ac_per_turn_budget_s :: "real option"
  ac_max_cached_models :: int
  ac_system_prompt :: pystr
  ac_factual_block_header :: pystr
  ac_episodic_block_header :: pystr
  ac_summary_block_header :: pystr
  ac_skills_block_header :: pystr

definition default_agent_config :: agent_config where
  "default_agent_config = \<lparr>ac_max_iterations = 6, ac_per_tool_timeout_s = 30, ac_per_turn_budget_s = None,
     ac_max_cached_models = 1000, ac_system_prompt = py ''You are a helpful assistant.'',
     ac_factual_block_header = py ''What you know about this user:'',
     ac_episodic_block_header = py ''Relevant memories from past conversations:'',
     ac_summary_block_header = py ''Summary of earlier in this conversation:'',
     ac_skills_block_header = py ''Available skills (use read_skill to load instructions):''\<rparr>"

record context_config =
  max_input_tokens :: int
  output_reserve_tokens :: int
  safety_margin :: int

definition default_context_config :: context_config where
  "default_context_config = \<lparr>max_input_tokens = 128000, output_reserve_tokens = 4096, safety_margin = 1024\<rparr>"

record store_retry_config =
  sr_max_retries :: int
  sr_backoff_base_seconds :: real
  sr_backoff_max_seconds :: real
  sr_jitter_seconds :: real

definition default_store_retry_config :: store_retry_config where
  "default_store_retry_config = \<lparr>sr_max_retries = 3, sr_backoff_base_seconds = 2 / 10,
     sr_backoff_max_seconds = 5, sr_jitter_seconds = 1 / 10\<rparr>"

section \<open>Memory\<close>

record working_memory_config =
  wc_buffer_turns :: int
  wc_buffer_token_budget :: int
  wc_rollover_system_prompt :: pystr
  wc_idle_finalize_s :: int
  wc_ttl_s :: int
  wc_sweep_interval_s :: int

definition default_working_config :: "pystr \<Rightarrow> working_memory_config" where
  "default_working_config prompt = \<lparr>wc_buffer_turns = 12, wc_buffer_token_budget = 2048,
     wc_rollover_system_prompt = prompt, wc_idle_finalize_s = 900, wc_ttl_s = 3600, wc_sweep_interval_s = 60\<rparr>"

text \<open>\<open>WorkingMemoryConfig.__post_init__\<close>.\<close>

definition working_config_post_init :: "working_memory_config \<Rightarrow> unit res" where
  "working_config_post_init c =
     (if wc_idle_finalize_s c \<ge> wc_ttl_s c
      then Inl (ValueError (py ''working memory: idle_finalize_s must be < ttl_s so a conversation '' @
             py ''is finalized before it is evicted (got idle_finalize_s='' @ py_int (wc_idle_finalize_s c) @
             py '', ttl_s='' @ py_int (wc_ttl_s c) @ py '')''))
      else Inr ())"

record episodic_memory_config =
  ec_enabled :: bool
  ec_top_k :: int
  ec_min_score :: real
  ec_query_augment_turns :: int
  ec_query_rewrite :: bool
  ec_query_rewrite_system_prompt :: pystr
  ec_decay_rate :: real
  ec_flagged_moments_enabled :: bool
  ec_max_flagged_moments :: int
  ec_flagged_moments_system_prompt :: pystr

definition default_episodic_config :: "pystr \<Rightarrow> pystr \<Rightarrow> episodic_memory_config" where
  "default_episodic_config rewrite_prompt moments_prompt = \<lparr>ec_enabled = True, ec_top_k = 3,
     ec_min_score = 3 / 10, ec_query_augment_turns = 2, ec_query_rewrite = False,
     ec_query_rewrite_system_prompt = rewrite_prompt, ec_decay_rate = 5 / 100,
     ec_flagged_moments_enabled = False, ec_max_flagged_moments = 2,
     ec_flagged_moments_system_prompt = moments_prompt\<rparr>"

record factual_memory_config =
  fc_extraction_enabled :: bool
  fc_extraction_system_prompt :: pystr

definition default_factual_config :: "pystr \<Rightarrow> factual_memory_config" where
  "default_factual_config prompt = \<lparr>fc_extraction_enabled = True, fc_extraction_system_prompt = prompt\<rparr>"

record memory_config =
  mc_working :: working_memory_config
  mc_episodic :: episodic_memory_config
  mc_factual :: factual_memory_config
  mc_store_retry :: store_retry_config

section \<open>Stores\<close>

datatype store_backend = MEMORY | REDIS | SQLITE | QDRANT

record qdrant_config =
  qc_mode :: pystr
  qc_path :: pystr
  qc_url :: pystr
  qc_collection :: pystr
  qc_vector_size :: int

definition default_qdrant_config :: qdrant_config where
  "default_qdrant_config = \<lparr>qc_mode = py ''host'', qc_path = py ''qdrant_data'',
     qc_url = py ''http://localhost:6333'', qc_collection = py ''episodic_memory'', qc_vector_size = 1536\<rparr>"

record stores_config =
  sc_session_backend :: store_backend
  sc_profile_backend :: store_backend
  sc_vector_backend :: store_backend
  sc_permission_backend :: store_backend
  sc_redis_url :: pystr
  sc_sqlite_url :: pystr
  sc_qdrant :: qdrant_config

definition default_stores_config :: stores_config where
  "default_stores_config = \<lparr>sc_session_backend = MEMORY, sc_profile_backend = MEMORY,
     sc_vector_backend = MEMORY, sc_permission_backend = MEMORY,
     sc_redis_url = py ''redis://localhost:6379/0'', sc_sqlite_url = py ''sqlite+aiosqlite:///harness_kit.db'',
     sc_qdrant = default_qdrant_config\<rparr>"

section \<open>Tools, MCP, skills and jobs\<close>

datatype mcp_transport = STDIO | HTTP | SSE

record mcp_server_config =
  ms_name :: pystr
  ms_transport :: mcp_transport
  ms_command :: "pystr option"
  ms_url :: "pystr option"
  ms_args :: "pystr list"
  ms_auto_allow :: bool

record mcp_config =
  mcp_servers :: "mcp_server_config list"
  mcp_startup_timeout_s :: real

text \<open>\<open>McpConfig.__post_init__\<close>: server names must be unique.\<close>

definition mcp_config_post_init :: "mcp_config \<Rightarrow> unit res" where
  "mcp_config_post_init c =
     (let names = map ms_name (mcp_servers c)
      in if length names \<noteq> card (set names)
         then let dupes = sort (remdups (filter (\<lambda>n. count_list names n > 1) names))
              in Inl (ValueError (py ''mcp: server names must be unique (tool namespacing depends on it); '' @
                   py ''duplicates: '' @ join (py '', '') dupes))
         else Inr ())"

record tool_policy =
  tp_timeout_s :: "real option"
  tp_rate_limit_per_minute :: "int option"
  tp_requires_approval :: bool
  tp_approval_timeout_s :: real

definition default_tool_policy :: tool_policy where
  "default_tool_policy = \<lparr>tp_timeout_s = None, tp_rate_limit_per_minute = None,
     tp_requires_approval = False, tp_approval_timeout_s = 30\<rparr>"

record tools_config =
  tc_default_allowed :: "pystr list"
  tc_definitions :: "(pystr \<times> tool_policy) list"
  tc_max_rate_limit_buckets :: int

record deduplication_config =
  dc_similarity_threshold :: real
  dc_max_points_per_user :: int
  dc_worker_concurrency :: int

definition default_deduplication_config :: deduplication_config where
  "default_deduplication_config = \<lparr>dc_similarity_threshold = 92 / 100, dc_max_points_per_user = 10000,
     dc_worker_concurrency = 8\<rparr>"

record resummarization_config =
  rc_min_age_days :: real
  rc_max_points_per_user :: int
  rc_worker_concurrency :: int

definition default_resummarization_config :: resummarization_config where
  "default_resummarization_config = \<lparr>rc_min_age_days = 90, rc_max_points_per_user = 500, rc_worker_concurrency = 8\<rparr>"

record metrics_config =
  mt_enabled :: bool

record telemetry_config =
  tl_enabled :: bool
  tl_service_name :: pystr
  tl_sample_rate :: real
  tl_environment :: pystr
  tl_release :: pystr

record 'app harness_kit_config =
  hk_agent :: agent_config
  hk_memory :: memory_config
  hk_context :: context_config
  hk_stores :: stores_config
  hk_mcp :: mcp_config
  hk_tools :: tools_config
  hk_skills_paths :: "pystr list"
  hk_deduplication :: deduplication_config
  hk_resummarization :: resummarization_config
  hk_telemetry :: telemetry_config
  hk_metrics :: metrics_config
  hk_llm_kit :: 'app

section \<open>What the validations accept\<close>

lemma working_config_post_init_ok: "working_config_post_init c = Inr () \<longleftrightarrow> wc_idle_finalize_s c < wc_ttl_s c"
  by (auto simp: working_config_post_init_def)

lemma mcp_config_post_init_ok: "mcp_config_post_init c = Inr () \<longleftrightarrow> distinct (map ms_name (mcp_servers c))"
proof -
  have "length xs = card (set xs) \<longleftrightarrow> distinct xs" for xs :: "pystr list"
    using card_distinct [of xs] distinct_card [of xs] by auto
  then show ?thesis
    by (simp only: mcp_config_post_init_def Let_def not_not if_split sum.distinct) simp
qed

text \<open>The rejected names in the message are exactly those that occur twice.\<close>

lemma mcp_duplicates:
  "n \<in> set (sort (remdups (filter (\<lambda>n. count_list names n > 1) names))) \<longleftrightarrow> count_list names n > 1"
  unfolding set_sort set_remdups set_filter mem_Collect_eq
  by (metis count_notin less_zeroE)

end
