(* ===== verification/Budgeter.thy ===== *)
theory Budgeter
  imports Tokens Store_Types Config
begin

text \<open>
  \<open>agent/budgeter.py\<close>: the tiered allocation of the context sources under the input-token budget.
  The estimator is an argument of the constructor, hence of the definitions.
\<close>

record budget_inputs =
  in_system_fixed :: pystr
  in_current_message :: pystr
  in_tool_text :: pystr
  in_factual_block :: pystr
  in_buffer :: "turn list"
  in_summary :: pystr
  in_episodic :: "memory_hit list"

record budget_result =
  out_factual_block :: pystr
  out_buffer :: "turn list"
  out_summary :: pystr
  out_episodic :: "memory_hit list"
  used_tokens :: int
  budget_tokens :: int

definition budget :: "context_config \<Rightarrow> int" where
  "budget cfg = max_input_tokens cfg - output_reserve_tokens cfg - safety_margin cfg"

text \<open>A block of tier 1 or 3: kept whole if it fits, else dropped.\<close>

definition keep_whole :: "estimator \<Rightarrow> pystr \<Rightarrow> int \<Rightarrow> pystr \<times> int" where
  "keep_whole est block remaining =
     (let cost = est block in if cost \<le> remaining then (block, remaining - cost) else ([], remaining))"

text \<open>The loops of tiers 2 and 4: take items while they fit, stop at the first that does not.\<close>

fun fit_loop :: "('a \<Rightarrow> int) \<Rightarrow> int \<Rightarrow> 'a list \<Rightarrow> 'a list \<times> int" where
  "fit_loop cost remaining [] = ([], remaining)"
| "fit_loop cost remaining (x # xs) =
     (if cost x \<le> remaining
      then let (kept, remaining) = fit_loop cost (remaining - cost x) xs in (x # kept, remaining)
      else ([], remaining))"

definition tier0 :: "estimator \<Rightarrow> budget_inputs \<Rightarrow> int" where
  "tier0 est inputs = est (in_system_fixed inputs) + est (in_current_message inputs) + est (in_tool_text inputs)"

definition hit_cost :: "estimator \<Rightarrow> memory_hit \<Rightarrow> int" where
  "hit_cost est hit = est (payload_text (mp_payload (hit_point hit)))"

definition turn_cost :: "estimator \<Rightarrow> turn \<Rightarrow> int" where
  "turn_cost est turn = est (turn_text turn)"

definition allocate :: "estimator \<Rightarrow> context_config \<Rightarrow> budget_inputs \<Rightarrow> budget_result res" where
  "allocate est cfg inputs =
     (if tier0 est inputs > budget cfg then Inl (ContextOverflowError (tier0 est inputs) (budget cfg))
      else let remaining = budget cfg - tier0 est inputs;
               (factual, remaining) = keep_whole est (in_factual_block inputs) remaining;
               (summary, remaining) = keep_whole est (in_summary inputs) remaining;
               (newest_first, remaining) = fit_loop (turn_cost est) remaining (rev (in_buffer inputs));
               (episodic, remaining) = fit_loop (hit_cost est) remaining (sort_desc hit_score (in_episodic inputs))
           in Inr \<lparr>out_factual_block = factual, out_buffer = rev newest_first, out_summary = summary,
                   out_episodic = episodic, used_tokens = budget cfg - remaining, budget_tokens = budget cfg\<rparr>)"

section \<open>The greedy loop\<close>

lemma fit_loop_prefix: "\<exists>n. fst (fit_loop cost r xs) = take n xs"
proof (induction cost r xs rule: fit_loop.induct)
  case (2 cost r x xs)
  then show ?case
    by (cases "cost x \<le> r") (auto simp: Let_def split_def intro: exI [of _ 0] exI [of _ "Suc _"])
qed simp

lemma fit_loop_cost: "sum_list (map cost (fst (fit_loop cost r xs))) + snd (fit_loop cost r xs) = r"
  by (induction cost r xs rule: fit_loop.induct) (auto simp: Let_def split_def)

lemma fit_loop_nonneg: "0 \<le> r \<Longrightarrow> 0 \<le> snd (fit_loop cost r xs)"
  by (induction cost r xs rule: fit_loop.induct) (auto simp: Let_def split_def)

lemma fit_loop_all: "fst (fit_loop cost r xs) = xs \<or>
    (\<exists>ys y zs. xs = ys @ y # zs \<and> fst (fit_loop cost r xs) = ys \<and> snd (fit_loop cost r xs) < cost y)"
proof (induction cost r xs rule: fit_loop.induct)
  case (2 cost r x xs)
  then show ?case
    by (cases "cost x \<le> r") (auto simp: Let_def split_def intro: exI [of _ "x # _"])
qed simp

text \<open>With nonnegative costs the loop keeps everything exactly when everything fits.\<close>

lemma fit_loop_fits:
  "(\<And>x. 0 \<le> cost x) \<Longrightarrow> sum_list (map cost xs) \<le> r \<Longrightarrow> fit_loop cost r xs = (xs, r - sum_list (map cost xs))"
proof (induction cost r xs rule: fit_loop.induct)
  case (2 cost r x xs)
  have "0 \<le> sum_list (map cost xs)"
    using 2(2) by (intro sum_list_nonneg) auto
  with 2 show ?case
    by (simp add: Let_def split_def)
qed simp

lemma keep_whole_nonneg: "0 \<le> r \<Longrightarrow> 0 \<le> snd (keep_whole est b r)"
  by (auto simp: keep_whole_def Let_def)

lemma keep_whole_dropped: "fst (keep_whole est b r) \<in> {b, []}"
  by (auto simp: keep_whole_def Let_def)

section \<open>What survives\<close>

text \<open>The estimated size of everything an allocation keeps.\<close>

definition result_cost :: "estimator \<Rightarrow> budget_inputs \<Rightarrow> budget_result \<Rightarrow> int" where
  "result_cost est inputs r = tier0 est inputs + est (out_factual_block r) + est (out_summary r)
     + sum_list (map (turn_cost est) (out_buffer r)) + sum_list (map (hit_cost est) (out_episodic r))"

lemma sum_list_rev_map: "sum_list (map f (rev xs)) = (sum_list (map f xs) :: int)"
  by (metis rev_map sum_list_rev)

context token_estimator
begin

lemma turn_cost_nonneg [simp]: "0 \<le> turn_cost est t"
  by (simp add: turn_cost_def)

lemma hit_cost_nonneg [simp]: "0 \<le> hit_cost est h"
  by (simp add: hit_cost_def)

lemma keep_whole_cost: "est (fst (keep_whole est b r)) + snd (keep_whole est b r) = r"
  by (auto simp: keep_whole_def Let_def)

lemma allocate_used:
  assumes "allocate est cfg i = Inr r"
  shows "used_tokens r = result_cost est i r \<and> used_tokens r \<le> budget cfg \<and> budget_tokens r = budget cfg"
proof -
  define f where "f = keep_whole est (in_factual_block i) (budget cfg - tier0 est i)"
  define s where "s = keep_whole est (in_summary i) (snd f)"
  define b where "b = fit_loop (turn_cost est) (snd s) (rev (in_buffer i))"
  define e where "e = fit_loop (hit_cost est) (snd b) (sort_desc hit_score (in_episodic i))"
  have r: "r = \<lparr>out_factual_block = fst f, out_buffer = rev (fst b), out_summary = fst s,
      out_episodic = fst e, used_tokens = budget cfg - snd e, budget_tokens = budget cfg\<rparr>"
    and t0: "0 \<le> budget cfg - tier0 est i"
    using assms by (auto simp: allocate_def Let_def split_def f_def s_def b_def e_def split: if_splits)
  have "0 \<le> snd e"
    using t0 by (simp add: f_def s_def b_def e_def keep_whole_nonneg fit_loop_nonneg)
  moreover have "est (fst f) + snd f = budget cfg - tier0 est i"
    by (simp add: f_def keep_whole_cost)
  moreover have "est (fst s) + snd s = snd f"
    by (simp add: s_def keep_whole_cost)
  moreover have "sum_list (map (turn_cost est) (fst b)) + snd b = snd s"
    by (simp add: b_def fit_loop_cost)
  moreover have "sum_list (map (hit_cost est) (fst e)) + snd e = snd b"
    by (simp add: e_def fit_loop_cost)
  ultimately show ?thesis
    by (simp add: r result_cost_def sum_list_rev_map)
qed

text \<open>
  The buffer that survives is the longest suffix that fits: either nothing was evicted, or the newest
  evicted turn would not have fitted in the room the older tiers and the kept turns left.
\<close>

lemma allocate_buffer:
  assumes "allocate est cfg i = Inr r"
  shows "\<exists>evicted. in_buffer i = evicted @ out_buffer r \<and>
    (evicted \<noteq> [] \<longrightarrow> tier0 est i + est (out_factual_block r) + est (out_summary r)
        + sum_list (map (turn_cost est) (out_buffer r)) + turn_cost est (last evicted) > budget cfg)"
proof -
  define f where "f = keep_whole est (in_factual_block i) (budget cfg - tier0 est i)"
  define s where "s = keep_whole est (in_summary i) (snd f)"
  define b where "b = fit_loop (turn_cost est) (snd s) (rev (in_buffer i))"
  have r: "out_buffer r = rev (fst b)" "out_factual_block r = fst f" "out_summary r = fst s"
    using assms by (auto simp: allocate_def Let_def split_def f_def s_def b_def split: if_splits)
  have cost: "sum_list (map (turn_cost est) (fst b)) + snd b = snd s"
    by (simp add: b_def fit_loop_cost)
  have room: "est (fst f) + snd f = budget cfg - tier0 est i" "est (fst s) + snd s = snd f"
    by (simp_all add: f_def s_def keep_whole_cost)
  consider "fst b = rev (in_buffer i)"
    | ys y zs where "rev (in_buffer i) = ys @ y # zs" "fst b = ys" "snd b < turn_cost est y"
    using fit_loop_all [of "turn_cost est" "snd s" "rev (in_buffer i)"] unfolding b_def by blast
  then show ?thesis
  proof cases
    case 1
    then show ?thesis by (simp add: r)
  next
    case 2
    from 2(1) have "in_buffer i = (rev zs @ [y]) @ rev ys"
      by (metis append.assoc append_Cons append_Nil rev.simps(2) rev_append rev_rev_ident)
    with 2 cost room show ?thesis
      by (intro exI [of _ "rev zs @ [y]"]) (simp add: r sum_list_rev_map)
  qed
qed

text \<open>If everything fits, nothing is dropped.\<close>

lemma allocate_all_fits:
  assumes "tier0 est i + est (in_factual_block i) + est (in_summary i)
      + sum_list (map (turn_cost est) (in_buffer i)) + sum_list (map (hit_cost est) (in_episodic i)) \<le> budget cfg"
  shows "\<exists>r. allocate est cfg i = Inr r \<and> out_factual_block r = in_factual_block i \<and> out_summary r = in_summary i
    \<and> out_buffer r = in_buffer i \<and> out_episodic r = sort_desc hit_score (in_episodic i)"
proof -
  have nn: "0 \<le> sum_list (map (turn_cost est) (in_buffer i))" "0 \<le> sum_list (map (hit_cost est) (in_episodic i))"
    by (auto intro!: sum_list_nonneg)
  have srt: "sum_list (map (hit_cost est) (sort_desc hit_score (in_episodic i))) = sum_list (map (hit_cost est) (in_episodic i))"
    by (metis mset_map mset_sort_desc sum_mset_sum_list)
  have fit: "tier0 est i \<le> budget cfg" "est (in_factual_block i) \<le> budget cfg - tier0 est i"
    "est (in_summary i) \<le> budget cfg - tier0 est i - est (in_factual_block i)"
    using assms nn est_nonneg [of "in_factual_block i"] est_nonneg [of "in_summary i"] by linarith+
  have "fit_loop (turn_cost est) (budget cfg - tier0 est i - est (in_factual_block i) - est (in_summary i)) (rev (in_buffer i))
      = (rev (in_buffer i), budget cfg - tier0 est i - est (in_factual_block i) - est (in_summary i)
           - sum_list (map (turn_cost est) (in_buffer i)))"
    using assms nn by (subst fit_loop_fits) (simp_all add: sum_list_rev_map)
  moreover have "fit_loop (hit_cost est) (budget cfg - tier0 est i - est (in_factual_block i) - est (in_summary i)
           - sum_list (map (turn_cost est) (in_buffer i))) (sort_desc hit_score (in_episodic i))
      = (sort_desc hit_score (in_episodic i), budget cfg - tier0 est i - est (in_factual_block i) - est (in_summary i)
           - sum_list (map (turn_cost est) (in_buffer i)) - sum_list (map (hit_cost est) (in_episodic i)))"
    using assms nn by (subst fit_loop_fits) (simp_all add: srt)
  ultimately show ?thesis
    using fit by (simp add: allocate_def keep_whole_def Let_def)
qed

end

lemma allocate_overflow_iff:
  "allocate est cfg i = Inl e \<longleftrightarrow> budget cfg < tier0 est i \<and> e = ContextOverflowError (tier0 est i) (budget cfg)"
  by (auto simp: allocate_def Let_def split_def)

lemma allocate_episodic_best:
  "allocate est cfg i = Inr r \<Longrightarrow> \<exists>n. out_episodic r = take n (sort_desc hit_score (in_episodic i))"
  using fit_loop_prefix by (fastforce simp: allocate_def Let_def split_def split: if_splits)

end
