(* ===== verification/Effects.thy ===== *)
theory Effects
  imports Errors
begin

text \<open>
  Sequential effects: an asynchronous operation is a function from the state of the world to the state
  it leaves and its result, a value or the exception it raised. Awaiting is sequencing. Other tasks may
  run while an operation waits for an external service; the functions that stand for such services take
  and return the whole world, so what those tasks did is part of what the service call returns.
\<close>

named_theorems io_simps \<open>unfolding of sequential effects\<close>

type_synonym ('w, 'a) io = "'w \<Rightarrow> 'w \<times> 'a res"

definition ret :: "'a \<Rightarrow> ('w, 'a) io" where
  "ret x w = (w, Inr x)"

definition throw :: "exn \<Rightarrow> ('w, 'a) io" where
  "throw e w = (w, Inl e)"

definition seq :: "('w, 'a) io \<Rightarrow> ('a \<Rightarrow> ('w, 'b) io) \<Rightarrow> ('w, 'b) io" where
  "seq m k w = (case m w of (w', Inl e) \<Rightarrow> (w', Inl e) | (w', Inr x) \<Rightarrow> k x w')"

text \<open>\<open>try: m; except Exception as e: h(e)\<close>.\<close>

definition except_exception :: "('w, 'a) io \<Rightarrow> (exn \<Rightarrow> ('w, 'a) io) \<Rightarrow> ('w, 'a) io" where
  "except_exception m h w =
     (case m w of
        (w', Inl e) \<Rightarrow> if is_control_flow e then (w', Inl e) else h e w'
      | (w', Inr x) \<Rightarrow> (w', Inr x))"

text \<open>\<open>with contextlib.suppress(Exception): m\<close>.\<close>

definition suppress_exception :: "('w, unit) io \<Rightarrow> ('w, unit) io" where
  "suppress_exception m = except_exception m (\<lambda>_. ret ())"

text \<open>\<open>try: m; finally: h\<close>; what \<open>h\<close> raises replaces what \<open>m\<close> raised.\<close>

definition ensuring :: "('w, 'a) io \<Rightarrow> ('w, unit) io \<Rightarrow> ('w, 'a) io" where
  "ensuring m h w =
     (case m w of (w1, r) \<Rightarrow>
        (case h w1 of (w2, Inl e) \<Rightarrow> (w2, Inl e) | (w2, Inr _) \<Rightarrow> (w2, r)))"

text \<open>\<open>for x in xs: body(x)\<close>.\<close>

fun for_each :: "'a list \<Rightarrow> ('a \<Rightarrow> ('w, unit) io) \<Rightarrow> ('w, unit) io" where
  "for_each [] body w = (w, Inr ())"
| "for_each (x # xs) body w = seq (body x) (\<lambda>_. for_each xs body) w"

lemma ret_apply [io_simps]: "ret x w = (w, Inr x)"
  by (simp add: ret_def)

lemma throw_apply [io_simps]: "throw e w = (w, Inl e)"
  by (simp add: throw_def)

lemma seq_Inr [io_simps]: "m w = (w', Inr x) \<Longrightarrow> seq m k w = k x w'"
  by (simp add: seq_def)

lemma seq_Inl [io_simps]: "m w = (w', Inl e) \<Longrightarrow> seq m k w = (w', Inl e)"
  by (simp add: seq_def)

lemma seq_ret [simp]: "seq (ret x) k = k x"
  by (rule ext) (simp add: seq_def ret_def)

lemma seq_throw [simp]: "seq (throw e) k = throw e"
  by (rule ext) (simp add: seq_def throw_def)

lemma seq_assoc: "seq (seq m k) h = seq m (\<lambda>x. seq (k x) h)"
  by (rule ext) (auto simp: seq_def split: prod.splits sum.splits)

lemma seq_cases:
  assumes "seq m k w = (w2, r)"
  obtains (raised) e where "m w = (w2, Inl e)" "r = Inl e"
  | (continued) x w1 where "m w = (w1, Inr x)" "k x w1 = (w2, r)"
  using assms by (auto simp: seq_def split: prod.splits sum.splits)

lemma except_exception_handles:
  "m w = (w', Inl e) \<Longrightarrow> \<not> is_control_flow e \<Longrightarrow> except_exception m h w = h e w'"
  by (simp add: except_exception_def)

lemma ensuring_state: "m w = (w1, r) \<Longrightarrow> fst (ensuring m h w) = fst (h w1)"
  by (auto simp: ensuring_def split: prod.splits sum.splits)

lemma ensuring_result: "m w = (w1, r) \<Longrightarrow> h w1 = (w2, Inr ()) \<Longrightarrow> ensuring m h w = (w2, r)"
  by (simp add: ensuring_def)

text \<open>A loop over operations that never raise reaches its end.\<close>

lemma for_each_inv:
  assumes "\<And>x w. x \<in> set xs \<Longrightarrow> I w \<Longrightarrow> I (fst (body x w)) \<and> snd (body x w) = Inr ()" and "I w"
  shows "I (fst (for_each xs body w)) \<and> snd (for_each xs body w) = Inr ()"
  using assms
proof (induction xs arbitrary: w)
  case (Cons x xs)
  from Cons.prems(1) [of x w] Cons.prems(2) obtain w' where "body x w = (w', Inr ())" and "I w'"
    by (cases "body x w") auto
  with Cons.IH [of w'] Cons.prems(1) show ?case
    by (simp add: seq_def)
qed simp

end
