(* ===== verification/LLM_Types.thy ===== *)
theory LLM_Types
  imports Store_Types
begin

text \<open>
  The llm_kit values that pass through the code. A message is recorded as the factory call that builds
  it (\<open>Message.system\<close>, \<open>.user\<close>, \<open>.assistant\<close>, \<open>.assistant_tool_calls\<close>, \<open>.tool_result\<close>); a response
  and a stream event have the attributes the code reads. An empty response text stands for \<open>None\<close> too,
  the code tests its truth only. Tool definitions are compared and passed on, never inspected beyond
  name and description.
\<close>

datatype message =
    MSystem pystr
  | MUser pystr
  | MAssistant pystr
  | MAssistantToolCalls "tool_call list" "pystr option"
  | MToolResult pystr pystr

record tool_definition =
  td_name :: pystr
  td_description :: pystr
  td_parameters :: payload

record token_usage =
  prompt_tokens :: int
  completion_tokens :: int
  total_tokens :: int

definition no_usage :: token_usage where
  "no_usage = \<lparr>prompt_tokens = 0, completion_tokens = 0, total_tokens = 0\<rparr>"

record llm_response =
  rs_text :: pystr
  rs_tool_calls :: "tool_call list"
  rs_usage :: token_usage

text \<open>The events of \<open>invoke_stream\<close>; the loop ignores those it does not know.\<close>

datatype stream_event =
    TextChunk pystr
  | StreamEnd llm_response
  | OtherStreamEvent

text \<open>\<open>text or None\<close>.\<close>

definition or_none :: "pystr \<Rightarrow> pystr option" where
  "or_none s = (if s = [] then None else Some s)"

end
