(* ===== verification/Session_Store.thy ===== *)
theory Session_Store
  imports Store_Types
begin

text \<open>
  \<open>stores/memory_session.py\<close>: the working state of the conversations, owned by a user, with an idle
  TTL. \<open>now\<close> is \<open>time.time()\<close>. \<open>load\<close> may evict, so it returns the store too. The stored
  \<open>SessionState\<close> is a shared mutable object: \<open>save\<close> stamps it and stores it, and the callers that
  mutate a loaded state before saving it are modelled where they do so.
\<close>

section \<open>Operations\<close>

record session_store =
  sessions :: "(pystr \<times> session_state) list"
  ttl_s :: "int option"

definition ss_init :: "int option \<Rightarrow> session_store" where
  "ss_init ttl = \<lparr>sessions = [], ttl_s = ttl\<rparr>"

definition PREVIEW_LEN :: int where
  "PREVIEW_LEN = 200"

text \<open>\<open>self._ttl_s is not None and now - state.updated_at > self._ttl_s\<close>.\<close>

definition ss_expired :: "session_store \<Rightarrow> session_state \<Rightarrow> real \<Rightarrow> bool" where
  "ss_expired s state now = (case ttl_s s of None \<Rightarrow> False | Some t \<Rightarrow> now - updated_at state > of_int t)"

definition unauthorized :: "pystr \<Rightarrow> pystr \<Rightarrow> exn" where
  "unauthorized conversation_id user_id = UnauthorizedError
     (py ''conversation '' @ py_repr conversation_id @ py '' is not owned by user '' @ py_repr user_id)"

definition ss_load :: "session_store \<Rightarrow> pystr \<Rightarrow> pystr \<Rightarrow> real \<Rightarrow> session_state option res \<times> session_store" where
  "ss_load s conversation_id user_id now =
     (case map_of (sessions s) conversation_id of
        None \<Rightarrow> (Inr None, s)
      | Some state \<Rightarrow>
          if ss_expired s state now
          then (Inr None, s\<lparr>sessions := dict_del conversation_id (sessions s)\<rparr>)
          else if st_user_id state \<noteq> user_id then (Inl (unauthorized conversation_id user_id), s)
          else (Inr (Some state), s))"

definition ss_save :: "session_store \<Rightarrow> pystr \<Rightarrow> session_state \<Rightarrow> real \<Rightarrow> session_store" where
  "ss_save s conversation_id state now =
     s\<lparr>sessions := dict_set conversation_id (state\<lparr>updated_at := now, finalized_at := None\<rparr>) (sessions s)\<rparr>"

definition ss_append_turn :: "session_store \<Rightarrow> pystr \<Rightarrow> turn \<Rightarrow> real \<Rightarrow> unit res \<times> session_store" where
  "ss_append_turn s conversation_id turn now =
     (case map_of (sessions s) conversation_id of
        None \<Rightarrow> (Inl (KeyError (py ''no session '' @ py_repr conversation_id @ py ''; call save() first'')), s)
      | Some state \<Rightarrow> (Inr (), s\<lparr>sessions := dict_set conversation_id
          (state\<lparr>working_buffer := working_buffer state @ [turn], updated_at := now, finalized_at := None\<rparr>)
          (sessions s)\<rparr>))"

definition ss_due_for_finalize :: "session_store \<Rightarrow> real \<Rightarrow> real \<Rightarrow> (pystr \<times> pystr) list" where
  "ss_due_for_finalize s idle_s now =
     map (\<lambda>(conversation_id, state). (conversation_id, st_user_id state))
       (filter (\<lambda>(_, state). finalized_at state = None \<and> now - updated_at state \<ge> idle_s) (sessions s))"

definition ss_mark_finalized :: "session_store \<Rightarrow> pystr \<Rightarrow> real \<Rightarrow> session_store" where
  "ss_mark_finalized s conversation_id now =
     (case map_of (sessions s) conversation_id of
        None \<Rightarrow> s
      | Some state \<Rightarrow> s\<lparr>sessions := dict_set conversation_id (state\<lparr>finalized_at := Some now\<rparr>) (sessions s)\<rparr>)"

definition session_meta :: "pystr \<Rightarrow> session_state \<Rightarrow> conversation_meta" where
  "session_meta conversation_id state =
     \<lparr>cm_conversation_id = conversation_id, cm_user_id = st_user_id state, cm_created_at = created_at state,
      cm_updated_at = updated_at state, cm_finalized_at = finalized_at state,
      cm_turn_count = int (length (working_buffer state)),
      cm_summary_preview = slice (rolling_summary state) 0 PREVIEW_LEN, cm_model_name = model_name state\<rparr>"

definition ss_list :: "session_store \<Rightarrow> pystr \<Rightarrow> real \<Rightarrow> conversation_meta list" where
  "ss_list s user_id now =
     sort_desc cm_updated_at
       (map (\<lambda>(conversation_id, state). session_meta conversation_id state)
         (filter (\<lambda>(_, state). st_user_id state = user_id \<and> \<not> ss_expired s state now) (sessions s)))"

section \<open>Invariant and views\<close>

definition ss_ok :: "session_store \<Rightarrow> bool" where
  "ss_ok s \<longleftrightarrow> dict_ok (sessions s) \<and> (case ttl_s s of None \<Rightarrow> True | Some t \<Rightarrow> 0 \<le> t)"

lemma ss_ok_init: "ss_ok (ss_init ttl) \<longleftrightarrow> (case ttl of None \<Rightarrow> True | Some t \<Rightarrow> 0 \<le> t)"
  by (simp add: ss_ok_def ss_init_def)

lemma ss_ok_ttl: "ss_ok s \<Longrightarrow> ttl_s s = Some t \<Longrightarrow> 0 \<le> t"
  by (simp add: ss_ok_def)

lemma ss_mem: "ss_ok s \<Longrightarrow> (c, st) \<in> set (sessions s) \<longleftrightarrow> map_of (sessions s) c = Some st"
  by (simp add: ss_ok_def)

text \<open>The live session under an id: stored and not past its TTL.\<close>

definition ss_live :: "session_store \<Rightarrow> real \<Rightarrow> pystr \<Rightarrow> session_state option" where
  "ss_live s now cid = (case map_of (sessions s) cid of
     None \<Rightarrow> None | Some st \<Rightarrow> if ss_expired s st now then None else Some st)"

lemma ss_expired_now: "ss_ok s \<Longrightarrow> updated_at st = now \<Longrightarrow> \<not> ss_expired s st now"
  by (auto simp: ss_ok_def ss_expired_def split: option.splits)

lemma ss_expired_mono: "ss_expired s st now \<Longrightarrow> now \<le> now' \<Longrightarrow> ss_expired s st now'"
  by (auto simp: ss_expired_def split: option.splits)

lemma ss_expired_cong: "ttl_s s' = ttl_s s \<Longrightarrow> updated_at st' = updated_at st \<Longrightarrow> ss_expired s' st' now = ss_expired s st now"
  by (simp add: ss_expired_def split: option.splits)

lemma ss_load_ttl [simp]: "ttl_s (snd (ss_load s c u now)) = ttl_s s"
  by (simp add: ss_load_def split: option.splits)

lemma ss_append_ttl [simp]: "ttl_s (snd (ss_append_turn s c t now)) = ttl_s s"
  by (simp add: ss_append_turn_def split: option.splits)

lemma ss_mark_ttl [simp]: "ttl_s (ss_mark_finalized s c now) = ttl_s s"
  by (simp add: ss_mark_finalized_def split: option.splits)

lemma ss_save_ttl [simp]: "ttl_s (ss_save s c st now) = ttl_s s"
  by (simp add: ss_save_def)

lemma ss_ok_ops [simp]:
  "ss_ok s \<Longrightarrow> ss_ok (snd (ss_load s c u now))" "ss_ok s \<Longrightarrow> ss_ok (ss_save s c st now)"
  "ss_ok s \<Longrightarrow> ss_ok (snd (ss_append_turn s c t now))" "ss_ok s \<Longrightarrow> ss_ok (ss_mark_finalized s c now)"
  unfolding ss_ok_def ss_load_ttl ss_save_ttl ss_append_ttl ss_mark_ttl
  by (auto simp: ss_load_def ss_save_def ss_append_turn_def ss_mark_finalized_def split: option.splits)

lemma ss_load_result:
  "fst (ss_load s c u now) = (case ss_live s now c of
      None \<Rightarrow> Inr None
    | Some st \<Rightarrow> if st_user_id st = u then Inr (Some st) else Inl (unauthorized c u))"
  by (auto simp: ss_load_def ss_live_def split: option.splits)

lemma ss_load_live:
  "now \<le> now' \<Longrightarrow> ss_live (snd (ss_load s c u now)) now' c' = ss_live s now' c'"
  by (auto simp: ss_load_def ss_live_def dict_simps ss_expired_def split: option.splits if_splits)

lemma ss_save_live:
  "ss_ok s \<Longrightarrow> ss_live (ss_save s c st now) now c' =
     (if c' = c then Some (st\<lparr>updated_at := now, finalized_at := None\<rparr>) else ss_live s now c')"
  by (auto simp: ss_save_def ss_live_def dict_simps ss_expired_def split: option.splits dest: ss_ok_ttl)

lemma ss_append_live:
  "ss_ok s \<Longrightarrow> ss_live s now c = Some st \<Longrightarrow>
     fst (ss_append_turn s c t now) = Inr () \<and>
     ss_live (snd (ss_append_turn s c t now)) now c' =
       (if c' = c then Some (st\<lparr>working_buffer := working_buffer st @ [t], updated_at := now, finalized_at := None\<rparr>)
        else ss_live s now c')"
  by (auto simp: ss_append_turn_def ss_live_def dict_simps ss_expired_def split: option.splits if_splits
      dest: ss_ok_ttl)

lemma ss_mark_live:
  "ss_live (ss_mark_finalized s c t) now c' =
     (if c' = c then map_option (\<lambda>st. st\<lparr>finalized_at := Some t\<rparr>) (ss_live s now c) else ss_live s now c')"
  by (auto simp: ss_mark_finalized_def ss_live_def dict_simps ss_expired_def split: option.splits if_splits)

lemma ss_due_iff:
  "ss_ok s \<Longrightarrow> ss_live s now c = Some st \<Longrightarrow>
     (c, u) \<in> set (ss_due_for_finalize s idle now) \<longleftrightarrow>
       st_user_id st = u \<and> finalized_at st = None \<and> now - updated_at st \<ge> idle"
  by (auto simp: ss_due_for_finalize_def ss_live_def image_iff ss_mem split: option.splits if_splits)

lemma ss_list_set:
  "ss_ok s \<Longrightarrow> set (ss_list s u now) = {session_meta c st |c st. ss_live s now c = Some st \<and> st_user_id st = u}"
  by (force simp: ss_list_def ss_live_def image_iff ss_mem split: option.splits if_splits)

section \<open>The contract of a session store\<close>

text \<open>
  \<open>stores/base.py\<close>, \<open>SessionStore\<close>: what every adapter promises to the memory layer. \<open>live s now c\<close>
  is the session a reader would find at time \<open>now\<close>.
\<close>

locale session_store_spec =
  fixes live :: "'s \<Rightarrow> real \<Rightarrow> pystr \<Rightarrow> session_state option"
    and load :: "'s \<Rightarrow> pystr \<Rightarrow> pystr \<Rightarrow> real \<Rightarrow> session_state option res \<times> 's"
    and save :: "'s \<Rightarrow> pystr \<Rightarrow> session_state \<Rightarrow> real \<Rightarrow> 's"
    and append :: "'s \<Rightarrow> pystr \<Rightarrow> turn \<Rightarrow> real \<Rightarrow> unit res \<times> 's"
    and mark :: "'s \<Rightarrow> pystr \<Rightarrow> real \<Rightarrow> 's"
    and due :: "'s \<Rightarrow> real \<Rightarrow> real \<Rightarrow> (pystr \<times> pystr) list"
    and lst :: "'s \<Rightarrow> pystr \<Rightarrow> real \<Rightarrow> conversation_meta list"
    and ok :: "'s \<Rightarrow> bool"
  assumes load_result: "ok s \<Longrightarrow> fst (load s c u now) = (case live s now c of None \<Rightarrow> Inr None
        | Some st \<Rightarrow> if st_user_id st = u then Inr (Some st) else Inl (unauthorized c u))"
    and load_live: "ok s \<Longrightarrow> now \<le> now' \<Longrightarrow> live (snd (load s c u now)) now' c' = live s now' c'"
    and save_live: "ok s \<Longrightarrow> live (save s c st now) now c' =
        (if c' = c then Some (st\<lparr>updated_at := now, finalized_at := None\<rparr>) else live s now c')"
    and append_live: "ok s \<Longrightarrow> live s now c = Some st \<Longrightarrow> fst (append s c t now) = Inr () \<and>
        live (snd (append s c t now)) now c' =
          (if c' = c then Some (st\<lparr>working_buffer := working_buffer st @ [t], updated_at := now, finalized_at := None\<rparr>)
           else live s now c')"
    and mark_live: "ok s \<Longrightarrow> live (mark s c now) now c' =
        (if c' = c then map_option (\<lambda>st. st\<lparr>finalized_at := Some now\<rparr>) (live s now c) else live s now c')"
    and due_iff: "ok s \<Longrightarrow> live s now c = Some st \<Longrightarrow>
        (c, u) \<in> set (due s idle now) \<longleftrightarrow> st_user_id st = u \<and> finalized_at st = None \<and> now - updated_at st \<ge> idle"
    and lst_set: "ok s \<Longrightarrow> set (lst s u now) = {session_meta c st |c st. live s now c = Some st \<and> st_user_id st = u}"
    and ok_ops: "ok s \<Longrightarrow> ok (snd (load s c u now))" "ok s \<Longrightarrow> ok (save s c st now)"
        "ok s \<Longrightarrow> ok (snd (append s c t now))" "ok s \<Longrightarrow> ok (mark s c t0)"
begin

text \<open>A session found by a user is that user's own, and it is listed for that user only.\<close>

lemma load_owned: "ok s \<Longrightarrow> fst (load s c u now) = Inr (Some st) \<Longrightarrow> st_user_id st = u"
  by (auto simp: load_result split: option.splits if_splits)

lemma load_foreign:
  "ok s \<Longrightarrow> live s now c = Some st \<Longrightarrow> st_user_id st \<noteq> u \<Longrightarrow> fst (load s c u now) = Inl (unauthorized c u)"
  by (simp add: load_result)

lemma lst_owned: "ok s \<Longrightarrow> m \<in> set (lst s u now) \<Longrightarrow> cm_user_id m = u"
  by (auto simp: lst_set session_meta_def)

text \<open>A finalized conversation leaves the sweeper's queue, and activity puts it back when idle.\<close>

lemma mark_not_due:
  assumes "ok s" and "live s now c = Some st"
  shows "(c, u) \<notin> set (due (mark s c now) idle now)"
proof -
  have "live (mark s c now) now c = Some (st\<lparr>finalized_at := Some now\<rparr>)"
    using assms by (simp add: mark_live)
  from due_iff [OF ok_ops(4) [OF assms(1)] this] show ?thesis by simp
qed

lemma append_due_again:
  assumes "ok s" and "live s now c = Some st" and "live (snd (append s c t now)) now' c = live (snd (append s c t now)) now c"
    and "idle \<le> now' - now"
  shows "(c, st_user_id st) \<in> set (due (snd (append s c t now)) idle now')"
proof -
  let ?st = "st\<lparr>working_buffer := working_buffer st @ [t], updated_at := now, finalized_at := None\<rparr>"
  have "live (snd (append s c t now)) now' c = Some ?st"
    using assms append_live [OF assms(1,2), of t c] by simp
  from due_iff [OF ok_ops(3) [OF assms(1)] this] show ?thesis
    using assms(4) by simp
qed

end

interpretation mem_sessions: session_store_spec ss_live ss_load ss_save ss_append_turn ss_mark_finalized
  ss_due_for_finalize ss_list ss_ok
  by unfold_locales
    (simp_all add: ss_load_result ss_load_live ss_save_live ss_append_live ss_mark_live ss_due_iff ss_list_set)

text \<open>The listing is sorted newest first.\<close>

lemma ss_list_sorted: "sorted_wrt (\<lambda>m n. cm_updated_at n \<le> cm_updated_at m) (ss_list s u now)"
  by (simp add: ss_list_def sorted_sort_desc)

text \<open>
  Finalization is a cycle: a conversation marked as finalized is not due until a turn is appended to it; then it
  becomes due again once it has been idle for long enough.
\<close>

lemma finalize_cycle:
  assumes "ss_ok s" and "ss_live s now c = Some st" and "now \<le> now'"
    and "ss_live (snd (ss_append_turn (ss_mark_finalized s c now) c t now)) now' c \<noteq> None" and "idle \<le> now' - now"
  shows "(c, u) \<notin> set (ss_due_for_finalize (ss_mark_finalized s c now) idle0 now)
    \<and> (c, st_user_id st) \<in> set (ss_due_for_finalize (snd (ss_append_turn (ss_mark_finalized s c now) c t now)) idle now')"
proof -
  let ?s = "ss_mark_finalized s c now"
  have ok: "ss_ok ?s" and live: "ss_live ?s now c = Some (st\<lparr>finalized_at := Some now\<rparr>)"
    using assms(1,2) mem_sessions.ok_ops(4) mem_sessions.mark_live [OF assms(1)] by simp_all
  have "ss_live (snd (ss_append_turn ?s c t now)) now' c = ss_live (snd (ss_append_turn ?s c t now)) now c"
    using assms(3,4) ss_expired_mono by (auto simp: ss_live_def split: option.splits if_splits)
  from mem_sessions.append_due_again [OF ok live this assms(5)] mem_sessions.mark_not_due [OF assms(1,2)] show ?thesis
    by simp
qed

end
