(* ===== verification/Profile_Store.thy ===== *)
theory Profile_Store
  imports Store_Types
begin

text \<open>
  Factual memory's store: the in-memory adapter (\<open>stores/memory_profile.py\<close>), the SQLite adapter
  (\<open>stores/sqlite_profile.py\<close>), the contract both meet and the simulation between them. \<open>now\<close> is
  \<open>time.time()\<close>. The \<open>keys\<close> of \<open>forget_facts\<close> are a Python set: the list is its iteration order.
\<close>

section \<open>In-memory adapter\<close>

type_synonym profile_store = "pystr \<rightharpoonup> user_profile"

definition pr_get :: "profile_store \<Rightarrow> pystr \<Rightarrow> real \<Rightarrow> user_profile \<times> profile_store" where
  "pr_get s user_id now =
     (case s user_id of
        None \<Rightarrow> let profile = new_profile user_id now in (profile, s(user_id \<mapsto> profile))
      | Some profile \<Rightarrow> (profile, s))"

definition pr_upsert_facts :: "profile_store \<Rightarrow> pystr \<Rightarrow> payload \<Rightarrow> real \<Rightarrow> profile_store" where
  "pr_upsert_facts s user_id new_facts now =
     (let (profile, s) = pr_get s user_id now
      in s(user_id \<mapsto> profile\<lparr>facts := dict_update (facts profile) new_facts, pr_updated_at := now\<rparr>))"

text \<open>The loop of \<open>forget_facts\<close>: \<open>pop(key, None)\<close> of each key, and whether a value other than
  \<open>None\<close> was removed.\<close>

fun pop_facts :: "payload \<Rightarrow> bool \<Rightarrow> pystr list \<Rightarrow> payload \<times> bool" where
  "pop_facts fs removed [] = (fs, removed)"
| "pop_facts fs removed (key # keys) =
     (case map_of fs key of
        None \<Rightarrow> pop_facts fs removed keys
      | Some v \<Rightarrow> pop_facts (dict_del key fs) (removed \<or> v \<noteq> JNull) keys)"

definition pr_forget_facts :: "profile_store \<Rightarrow> pystr \<Rightarrow> pystr list \<Rightarrow> real \<Rightarrow> profile_store" where
  "pr_forget_facts s user_id keys now =
     (let (profile, s) = pr_get s user_id now;
          (fs, removed) = pop_facts (facts profile) False keys
      in s(user_id \<mapsto> profile\<lparr>facts := fs,
             pr_updated_at := (if removed then now else pr_updated_at profile)\<rparr>))"

section \<open>SQLite adapter\<close>

text \<open>The table \<open>profiles(user_id PRIMARY KEY, facts_json, updated_at)\<close>.\<close>

type_synonym sql_profile_store = "pystr \<rightharpoonup> payload \<times> real"

definition sq_get :: "sql_profile_store \<Rightarrow> pystr \<Rightarrow> real \<Rightarrow> user_profile \<times> sql_profile_store" where
  "sq_get s user_id now =
     (case s user_id of
        None \<Rightarrow> (\<lparr>pr_user_id = user_id, facts = [], pr_updated_at = now\<rparr>, s(user_id \<mapsto> ([], now)))
      | Some (fs, upd) \<Rightarrow> (\<lparr>pr_user_id = user_id, facts = fs, pr_updated_at = upd\<rparr>, s))"

definition sq_upsert_facts :: "sql_profile_store \<Rightarrow> pystr \<Rightarrow> payload \<Rightarrow> real \<Rightarrow> sql_profile_store" where
  "sq_upsert_facts s user_id new_facts now =
     (case s user_id of
        None \<Rightarrow> s(user_id \<mapsto> (new_facts, now))
      | Some (existing, _) \<Rightarrow> s(user_id \<mapsto> (dict_update existing new_facts, now)))"

fun del_facts :: "payload \<Rightarrow> bool \<Rightarrow> pystr list \<Rightarrow> payload \<times> bool" where
  "del_facts fs changed [] = (fs, changed)"
| "del_facts fs changed (k # keys) =
     (if map_of fs k \<noteq> None then del_facts (dict_del k fs) True keys else del_facts fs changed keys)"

definition sq_forget_facts :: "sql_profile_store \<Rightarrow> pystr \<Rightarrow> pystr list \<Rightarrow> real \<Rightarrow> sql_profile_store" where
  "sq_forget_facts s user_id keys now =
     (case s user_id of
        None \<Rightarrow> s
      | Some (existing, upd) \<Rightarrow>
          let (fs, changed) = del_facts existing False keys
          in if changed then s(user_id \<mapsto> (fs, now)) else s)"

section \<open>The contract\<close>

text \<open>\<open>view s u\<close> is the profile of a user as a list of facts; an unknown user has none.\<close>

locale profile_store =
  fixes view :: "'s \<Rightarrow> pystr \<Rightarrow> payload"
    and get :: "'s \<Rightarrow> pystr \<Rightarrow> real \<Rightarrow> user_profile \<times> 's"
    and upsert :: "'s \<Rightarrow> pystr \<Rightarrow> payload \<Rightarrow> real \<Rightarrow> 's"
    and forget :: "'s \<Rightarrow> pystr \<Rightarrow> pystr list \<Rightarrow> real \<Rightarrow> 's"
  assumes get_facts: "facts (fst (get s u now)) = view s u"
    and get_frame: "view (snd (get s u now)) v = view s v"
    and upsert_view: "dict_ok e \<Longrightarrow> view (upsert s u e now) v = (if v = u then dict_update (view s u) e else view s v)"
    and forget_view: "view (forget s u ks now) v = (if v = u then fst (pop_facts (view s u) False ks) else view s v)"

lemma fst_pop_facts: "fst (pop_facts fs r ks) = filter (\<lambda>(k, v). k \<notin> set ks) fs"
proof (induction fs r ks rule: pop_facts.induct)
  case (1 fs removed)
  then show ?case by simp
next
  case (2 fs removed key keys)
  have del: "filter (\<lambda>(k, v). k \<notin> set keys) (dict_del key fs) = filter (\<lambda>(k, v). k \<notin> set (key # keys)) fs"
    by (auto simp: AList.delete_eq filter_filter intro!: filter_cong)
  show ?case
  proof (cases "map_of fs key")
    case None
    then have "\<forall>p \<in> set fs. fst p \<noteq> key"
      by (auto simp: map_of_eq_None_iff)
    then have "filter (\<lambda>(k, v). k \<notin> set (key # keys)) fs = filter (\<lambda>(k, v). k \<notin> set keys) fs"
      by (intro filter_cong) auto
    with None 2(1) show ?thesis by simp
  next
    case (Some v)
    with 2(2) del show ?thesis by simp
  qed
qed

lemma fst_del_facts: "fst (del_facts fs r ks) = fst (pop_facts fs r' ks)"
  by (induction fs r ks arbitrary: r' rule: del_facts.induct) (auto split: option.splits)

context profile_store
begin

lemma view_forget_get: "map_of (view (forget s u ks now) u) k = (if k \<in> set ks then None else map_of (view s u) k)"
proof -
  have "map_of (filter (\<lambda>(k, v). k \<notin> set ks) fs) k = (if k \<in> set ks then None else map_of fs k)" for fs :: payload
    by (induction fs) auto
  then show ?thesis
    by (simp add: forget_view fst_pop_facts)
qed

lemma view_upsert_get:
  "dict_ok e \<Longrightarrow> map_of (view (upsert s u e now) u) k =
     (case map_of e k of None \<Rightarrow> map_of (view s u) k | Some v \<Rightarrow> Some v)"
  by (simp add: upsert_view dict_get_update)

text \<open>The profile a user reads does not depend on the other users' writes.\<close>

lemma get_isolated:
  "v \<noteq> u \<Longrightarrow> dict_ok e \<Longrightarrow> facts (fst (get (upsert s v e now) u now')) = facts (fst (get s u now'))"
  "v \<noteq> u \<Longrightarrow> facts (fst (get (forget s v ks now) u now')) = facts (fst (get s u now'))"
  "v \<noteq> u \<Longrightarrow> facts (fst (get (snd (get s v now)) u now')) = facts (fst (get s u now'))"
  by (simp_all add: get_facts get_frame upsert_view forget_view)

end

definition pr_view :: "profile_store \<Rightarrow> pystr \<Rightarrow> payload" where
  "pr_view s u = (case s u of None \<Rightarrow> [] | Some p \<Rightarrow> facts p)"

definition sq_view :: "sql_profile_store \<Rightarrow> pystr \<Rightarrow> payload" where
  "sq_view s u = (case s u of None \<Rightarrow> [] | Some (fs, _) \<Rightarrow> fs)"

interpretation mem_profiles: profile_store pr_view pr_get pr_upsert_facts pr_forget_facts
  by unfold_locales
    (auto simp: pr_view_def pr_get_def pr_upsert_facts_def pr_forget_facts_def new_profile_def Let_def
      split: option.splits prod.splits)

text \<open>\<open>merged = dict(facts)\<close> of a new row: storing the items one by one into \<open>{}\<close> gives the same.\<close>

lemma dict_update_append: "dict_ok e \<Longrightarrow> fst ` set d \<inter> fst ` set e = {} \<Longrightarrow> dict_update d e = d @ e"
proof (induction d e rule: dict_update.induct)
  case (2 d k v e)
  from "2.prems" have "map_of d k = None"
    by (auto simp: map_of_eq_None_iff)
  then have "dict_set k v d = d @ [(k, v)]"
    by (induction d) (auto split: if_splits)
  moreover have "fst ` set (dict_set k v d) \<inter> fst ` set e = {}"
    using "2.prems" by (auto simp: dom_update)
  ultimately show ?case
    using "2.IH" "2.prems"(1) by simp
qed simp

lemma dict_update_Nil: "dict_ok e \<Longrightarrow> dict_update [] e = e"
  by (simp add: dict_update_append)

lemma del_facts_unchanged: "\<not> snd (del_facts fs r ks) \<Longrightarrow> fst (del_facts fs r ks) = fs \<and> \<not> r"
  by (induction fs r ks rule: del_facts.induct) (auto split: if_splits)

lemma sq_forget_view: "sq_view (sq_forget_facts s u ks now) v =
    (if v = u then fst (pop_facts (sq_view s u) False ks) else sq_view s v)"
proof (cases "s u")
  case None
  then show ?thesis
    by (auto simp: sq_view_def sq_forget_facts_def fst_pop_facts)
next
  case (Some p)
  obtain fs upd where p: "p = (fs, upd)" by fastforce
  show ?thesis
    using del_facts_unchanged [of fs False ks] fst_del_facts [of fs False ks False]
    by (auto simp: sq_view_def sq_forget_facts_def Some p split: prod.splits option.splits)
qed

interpretation sql_profiles: profile_store sq_view sq_get sq_upsert_facts sq_forget_facts
  by unfold_locales
    (auto simp: sq_forget_view, auto simp: sq_view_def sq_get_def sq_upsert_facts_def dict_update_Nil
      split: option.splits prod.splits)

text \<open>The simulation: both adapters show every user the same facts, in the same order.\<close>

definition sq_refines :: "sql_profile_store \<Rightarrow> profile_store \<Rightarrow> bool" where
  "sq_refines c a \<longleftrightarrow> (\<forall>u. sq_view c u = pr_view a u)"

lemma sq_refines_step:
  assumes "sq_refines c a"
  shows "facts (fst (sq_get c u now)) = facts (fst (pr_get a u now'))"
    and "sq_refines (snd (sq_get c u now)) (snd (pr_get a u now'))"
    and "dict_ok e \<Longrightarrow> sq_refines (sq_upsert_facts c u e now) (pr_upsert_facts a u e now')"
    and "sq_refines (sq_forget_facts c u ks now) (pr_forget_facts a u ks now')"
  using assms
  by (simp_all add: sq_refines_def sql_profiles.get_facts mem_profiles.get_facts sql_profiles.get_frame
      mem_profiles.get_frame sql_profiles.upsert_view mem_profiles.upsert_view sql_profiles.forget_view
      mem_profiles.forget_view)

section \<open>Runs\<close>

datatype profile_op =
    ReadProfile pystr
  | UpsertFacts pystr payload
  | ForgetFacts pystr "pystr list"

fun op_user :: "profile_op \<Rightarrow> pystr" where
  "op_user (ReadProfile u) = u"
| "op_user (UpsertFacts u e) = u"
| "op_user (ForgetFacts u ks) = u"

fun facts_ok :: "profile_op \<Rightarrow> bool" where
  "facts_ok (UpsertFacts u e) \<longleftrightarrow> dict_ok e"
| "facts_ok _ \<longleftrightarrow> True"

fun pr_apply :: "profile_store \<Rightarrow> profile_op \<times> real \<Rightarrow> profile_store" where
  "pr_apply s (ReadProfile u, now) = snd (pr_get s u now)"
| "pr_apply s (UpsertFacts u e, now) = pr_upsert_facts s u e now"
| "pr_apply s (ForgetFacts u ks, now) = pr_forget_facts s u ks now"

fun sq_apply :: "sql_profile_store \<Rightarrow> profile_op \<times> real \<Rightarrow> sql_profile_store" where
  "sq_apply s (ReadProfile u, now) = snd (sq_get s u now)"
| "sq_apply s (UpsertFacts u e, now) = sq_upsert_facts s u e now"
| "sq_apply s (ForgetFacts u ks, now) = sq_forget_facts s u ks now"

lemma pr_apply_view:
  "facts_ok x \<Longrightarrow> pr_view (pr_apply s (x, now)) u = (if op_user x = u then
     (case x of ReadProfile _ \<Rightarrow> pr_view s u | UpsertFacts _ e \<Rightarrow> dict_update (pr_view s u) e
      | ForgetFacts _ ks \<Rightarrow> fst (pop_facts (pr_view s u) False ks)) else pr_view s u)"
  by (cases x) (simp_all add: mem_profiles.get_frame mem_profiles.upsert_view mem_profiles.forget_view)

text \<open>A user's facts depend on that user's operations only.\<close>

lemma pr_run_own:
  assumes "\<forall>(x, now) \<in> set ops. facts_ok x" and "pr_view s u = pr_view s' u"
  shows "pr_view (foldl pr_apply s ops) u = pr_view (foldl pr_apply s' (filter (\<lambda>(x, _). op_user x = u) ops)) u"
  using assms
proof (induction ops arbitrary: s s')
  case (Cons op ops)
  obtain x now where op: "op = (x, now)" by fastforce
  have ok: "facts_ok x" and rest: "\<forall>(x, now) \<in> set ops. facts_ok x"
    using Cons.prems(1) by (simp_all add: op)
  show ?case
  proof (cases "op_user x = u")
    case True
    then have "pr_view (pr_apply s op) u = pr_view (pr_apply s' op) u"
      using Cons.prems(2) by (simp add: op pr_apply_view [OF ok] split: profile_op.split)
    from Cons.IH [OF rest this] True show ?thesis by (simp add: op)
  next
    case False
    then have "pr_view (pr_apply s op) u = pr_view s' u"
      using Cons.prems(2) by (simp add: op pr_apply_view [OF ok])
    from Cons.IH [OF rest this] False show ?thesis by (simp add: op)
  qed
qed simp

lemma sq_refines_run:
  assumes "\<forall>(x, now) \<in> set ops. facts_ok x" and "sq_refines c a"
  shows "sq_refines (foldl sq_apply c ops) (foldl pr_apply a ops)"
  using assms
proof (induction ops arbitrary: c a)
  case (Cons op ops)
  obtain x now where op: "op = (x, now)" by fastforce
  have ok: "facts_ok x" and rest: "\<forall>(x, now) \<in> set ops. facts_ok x"
    using Cons.prems(1) by (simp_all add: op)
  have "sq_refines (sq_apply c op) (pr_apply a op)"
    using sq_refines_step [OF Cons.prems(2)] ok by (cases x) (simp_all add: op)
  from Cons.IH [OF rest this] show ?case by simp
qed simp

end
