(* ===== verification/Vector_Store.thy ===== *)
theory Vector_Store
  imports Store_Types
begin

text \<open>
  \<open>stores/memory_vectors.py\<close>, the brute-force cosine store, and the pagination loop of
  \<open>jobs/_base.py\<close> over its \<open>list_points\<close>. numpy's norm and dot product (of float32 copies) are the
  parameters \<open>np_norm\<close> and \<open>np_dot\<close>. The cursor, the decimal text of an index, is that index.
\<close>

record numpy =
  np_norm :: "real list \<Rightarrow> real"
  np_dot :: "real list \<Rightarrow> real list \<Rightarrow> real"

text \<open>\<open>_points\<close>: the dictionary from point ids to points.\<close>

type_synonym vector_store = "(pystr \<times> memory_point) list"

fun vs_add :: "vector_store \<Rightarrow> memory_point list \<Rightarrow> vector_store" where
  "vs_add s [] = s"
| "vs_add s (point # points) = vs_add (dict_set (mp_id point) point s) points"

text \<open>The scoring loop: zero vectors are skipped, scores under the threshold are dropped.\<close>

fun score_hits :: "numpy \<Rightarrow> real list \<Rightarrow> real \<Rightarrow> real \<Rightarrow> memory_point list \<Rightarrow> memory_hit list" where
  "score_hits np query query_norm min_score [] = []"
| "score_hits np query query_norm min_score (point # points) =
     (let vec_norm = np_norm np (mp_vector point)
      in if vec_norm = 0 then score_hits np query query_norm min_score points
         else let score = np_dot np query (mp_vector point) / (query_norm * vec_norm)
              in if score \<ge> min_score
                 then \<lparr>hit_point = point, hit_score = score\<rparr> # score_hits np query query_norm min_score points
                 else score_hits np query query_norm min_score points)"

definition vs_search :: "numpy \<Rightarrow> vector_store \<Rightarrow> pystr \<Rightarrow> real list \<Rightarrow> int \<Rightarrow> real \<Rightarrow> memory_hit list" where
  "vs_search np s user_id query_vector k min_score =
     (let candidates = filter (owned_by user_id) (map snd s)
      in if candidates = [] \<or> k \<le> 0 then []
         else let query_norm = np_norm np query_vector
              in if query_norm = 0 then []
                 else slice (sort_desc hit_score (score_hits np query_vector query_norm min_score candidates)) 0 k)"

fun vs_delete :: "vector_store \<Rightarrow> pystr list \<Rightarrow> pystr \<Rightarrow> vector_store" where
  "vs_delete s [] user_id = s"
| "vs_delete s (pid # pids) user_id =
     (case map_of s pid of
        None \<Rightarrow> vs_delete s pids user_id
      | Some p \<Rightarrow> if owned_by user_id p then vs_delete (dict_del pid s) pids user_id
                  else vs_delete s pids user_id)"

text \<open>\<open>payload.get("ts", 0.0)\<close>; the code stores only numbers there.\<close>

definition point_ts :: "real \<Rightarrow> memory_point \<Rightarrow> real" where
  "point_ts dflt p = (case map_of (mp_payload p) (py ''ts'') of
      Some (JFloat t) \<Rightarrow> t | Some (JInt i) \<Rightarrow> of_int i | _ \<Rightarrow> dflt)"

definition of_kind :: "pystr option \<Rightarrow> memory_point \<Rightarrow> bool" where
  "of_kind kind p \<longleftrightarrow> (case kind of None \<Rightarrow> True | Some k \<Rightarrow> map_of (mp_payload p) (py ''kind'') = Some (JStr k))"

definition list_candidates :: "vector_store \<Rightarrow> pystr \<Rightarrow> pystr option \<Rightarrow> memory_point list" where
  "list_candidates s user_id kind =
     sort_key (point_ts 0) (filter (\<lambda>p. owned_by user_id p \<and> of_kind kind p) (map snd s))"

definition vs_list_points :: "vector_store \<Rightarrow> pystr \<Rightarrow> pystr option \<Rightarrow> int \<Rightarrow> int option
    \<Rightarrow> memory_point list \<times> int option" where
  "vs_list_points s user_id kind limit cursor =
     (let candidates = list_candidates s user_id kind;
          offset = (case cursor of None \<Rightarrow> 0 | Some c \<Rightarrow> c);
          page = slice candidates offset (offset + limit);
          next_cursor = (if int (length page) = limit then Some (offset + limit) else None)
      in (page, next_cursor))"

section \<open>Lookup laws\<close>

definition vs_ok :: "vector_store \<Rightarrow> bool" where
  "vs_ok s \<longleftrightarrow> dict_ok s \<and> (\<forall>(i, p) \<in> set s. mp_id p = i)"

lemma vs_ok_set: "vs_ok s \<Longrightarrow> mp_id p = i \<Longrightarrow> vs_ok (dict_set i p s)"
  unfolding vs_ok_def by (intro conjI dict_ok_set ball_dict_set) simp_all

lemma vs_ok_del: "vs_ok s \<Longrightarrow> vs_ok (dict_del i s)"
  by (auto simp: vs_ok_def AList.delete_eq distinct_map inj_on_def)

lemma vs_ok_add [simp]: "vs_ok s \<Longrightarrow> vs_ok (vs_add s ps)"
  by (induction s ps rule: vs_add.induct) (auto simp: vs_ok_set)

lemma vs_ok_delete [simp]: "vs_ok s \<Longrightarrow> vs_ok (vs_delete s ids u)"
  by (induction s ids u rule: vs_delete.induct) (auto simp: vs_ok_del split: option.splits)

lemma vs_delete_get:
  "map_of (vs_delete s ids u) i = (case map_of s i of
      None \<Rightarrow> None | Some p \<Rightarrow> if i \<in> set ids \<and> owned_by u p then None else Some p)"
  by (induction s ids u rule: vs_delete.induct) (auto simp: dict_simps split: option.splits if_splits)

lemma vs_add_get:
  "map_of (vs_add s ps) i = (case find (\<lambda>p. mp_id p = i) (rev ps) of None \<Rightarrow> map_of s i | Some p \<Rightarrow> Some p)"
proof (induction s ps rule: vs_add.induct)
  case (2 s point points)
  then show ?case
    by (simp add: find_snoc dict_simps split: option.split)
qed simp

lemma score_hits_eq:
  "score_hits np q qn ms ps = filter (\<lambda>h. ms \<le> hit_score h)
     (map (\<lambda>p. \<lparr>hit_point = p, hit_score = np_dot np q (mp_vector p) / (qn * np_norm np (mp_vector p))\<rparr>)
       (filter (\<lambda>p. np_norm np (mp_vector p) \<noteq> 0) ps))"
  by (induction ps) (simp_all add: Let_def)

lemma score_hits_sound:
  "h \<in> set (score_hits np q qn ms ps) \<Longrightarrow> hit_point h \<in> set ps \<and> ms \<le> hit_score h \<and>
     hit_score h = np_dot np q (mp_vector (hit_point h)) / (qn * np_norm np (mp_vector (hit_point h)))"
  by (auto simp: score_hits_eq)

lemma score_hits_complete:
  "p \<in> set ps \<Longrightarrow> np_norm np (mp_vector p) \<noteq> 0 \<Longrightarrow>
     ms \<le> np_dot np q (mp_vector p) / (qn * np_norm np (mp_vector p)) \<Longrightarrow>
     \<lparr>hit_point = p, hit_score = np_dot np q (mp_vector p) / (qn * np_norm np (mp_vector p))\<rparr>
       \<in> set (score_hits np q qn ms ps)"
  by (auto simp: score_hits_eq)

lemma vs_search_eq:
  "0 < k \<Longrightarrow> np_norm np q \<noteq> 0 \<Longrightarrow> vs_search np s u q k ms =
     take (nat k) (sort_desc hit_score (score_hits np q (np_norm np q) ms (filter (owned_by u) (map snd s))))"
  by (auto simp: vs_search_def Let_def sort_desc_def)

lemma set_vs_search_subset:
  "set (vs_search np s u q k ms) \<subseteq> set (score_hits np q (np_norm np q) ms (filter (owned_by u) (map snd s)))"
  by (cases "0 < k \<and> np_norm np q \<noteq> 0") (auto simp: vs_search_eq vs_search_def Let_def dest: in_set_takeD)

lemma vs_search_sound:
  assumes "h \<in> set (vs_search np s u q k ms)"
  shows "owned_by u (hit_point h) \<and> hit_point h \<in> snd ` set s \<and> ms \<le> hit_score h"
proof -
  have "h \<in> set (score_hits np q (np_norm np q) ms (filter (owned_by u) (map snd s)))"
    using assms set_vs_search_subset by blast
  from score_hits_sound [OF this] show ?thesis by auto
qed

section \<open>The contract\<close>

text \<open>\<open>stores/base.py\<close>, \<open>VectorStore\<close>: search, deletion and enumeration see one user's points only.\<close>

locale vector_store_spec =
  fixes points :: "'s \<Rightarrow> memory_point set"
    and search :: "'s \<Rightarrow> pystr \<Rightarrow> real list \<Rightarrow> int \<Rightarrow> real \<Rightarrow> memory_hit list"
    and delete :: "'s \<Rightarrow> pystr list \<Rightarrow> pystr \<Rightarrow> 's"
    and list_page :: "'s \<Rightarrow> pystr \<Rightarrow> pystr option \<Rightarrow> int \<Rightarrow> 'cursor option \<Rightarrow> memory_point list \<times> 'cursor option"
    and ok :: "'s \<Rightarrow> bool"
  assumes search_owned: "ok s \<Longrightarrow> h \<in> set (search s u q k ms) \<Longrightarrow> owned_by u (hit_point h) \<and> hit_point h \<in> points s"
    and search_min: "ok s \<Longrightarrow> h \<in> set (search s u q k ms) \<Longrightarrow> ms \<le> hit_score h"
    and search_bound: "ok s \<Longrightarrow> int (length (search s u q k ms)) \<le> max 0 k"
    and search_sorted: "ok s \<Longrightarrow> sorted_wrt (\<lambda>a b. hit_score b \<le> hit_score a) (search s u q k ms)"
    and delete_points: "ok s \<Longrightarrow> points (delete s ids u) = {p \<in> points s. \<not> (mp_id p \<in> set ids \<and> owned_by u p)}"
    and list_owned: "ok s \<Longrightarrow> p \<in> set (fst (list_page s u kind lm c)) \<Longrightarrow> owned_by u p \<and> of_kind kind p \<and> p \<in> points s"
    and ok_delete: "ok s \<Longrightarrow> ok (delete s ids u)"
begin

text \<open>A deletion by one user never removes, nor hides from search, another user's points.\<close>

lemma delete_keeps_others: "ok s \<Longrightarrow> v \<noteq> u \<Longrightarrow> owned_by v p \<Longrightarrow> p \<in> points s \<Longrightarrow> p \<in> points (delete s ids u)"
  by (auto simp: delete_points dest: owned_by_unique)

lemma deleted_not_found:
  "ok s \<Longrightarrow> mp_id (hit_point h) \<in> set ids \<Longrightarrow> h \<notin> set (search (delete s ids u) u q k ms)"
  using search_owned [OF ok_delete, of s h ids u u q k ms] by (auto simp: delete_points)

end

interpretation mem_vectors: vector_store_spec "\<lambda>s. snd ` set s" "vs_search np" vs_delete vs_list_points vs_ok
proof (unfold_locales, goal_cases)
  case (1 s h u q k ms)
  then show ?case using vs_search_sound by blast
next
  case (2 s h u q k ms)
  then show ?case using vs_search_sound by blast
next
  case (3 s u q k ms)
  show ?case
    by (cases "0 < k \<and> np_norm np q \<noteq> 0") (auto simp: vs_search_eq vs_search_def Let_def)
next
  case (4 s u q k ms)
  show ?case
    by (cases "0 < k \<and> np_norm np q \<noteq> 0")
      (auto simp: vs_search_eq intro!: sorted_wrt_take sorted_sort_desc, auto simp: vs_search_def Let_def)
next
  case (5 s ids u)
  have "snd ` set t = {p. map_of t (mp_id p) = Some p}" if "vs_ok t" for t
    using that by (force simp: vs_ok_def map_of_eq_Some_iff)
  from this [OF 5] this [OF vs_ok_delete [OF 5, of ids u]] show ?case
    by (auto simp: vs_delete_get split: option.splits if_splits)
next
  case (6 s p u kind lm c)
  then show ?case
    by (auto simp: vs_list_points_def slice_def list_candidates_def Let_def dest!: in_set_takeD in_set_dropD)
next
  case (7 s ids u)
  then show ?case by simp
qed

section \<open>Pagination\<close>

text \<open>
  \<open>load_all_user_points\<close>: the loop \<open>while True\<close> over pages, until a page has no next cursor. It may
  run forever, so its result is an option.
\<close>

partial_function (option) load_pages :: "('c option \<Rightarrow> 'p list \<times> 'c option) \<Rightarrow> 'c option \<Rightarrow> 'p list \<Rightarrow> 'p list option" where
  "load_pages list_page cursor all_points =
     (case list_page cursor of (page, next_cursor) \<Rightarrow>
        (case next_cursor of
           None \<Rightarrow> Some (all_points @ page)
         | Some c \<Rightarrow> load_pages list_page (Some c) (all_points @ page)))"

definition load_all_user_points :: "vector_store \<Rightarrow> pystr \<Rightarrow> pystr option \<Rightarrow> int \<Rightarrow> memory_point list option" where
  "load_all_user_points s user_id kind page_size = load_pages (vs_list_points s user_id kind page_size) None []"

lemma list_page_cases:
  assumes "0 < n" and "0 \<le> off"
  shows "vs_list_points s u kind n (Some off) =
    (take (nat n) (drop (nat off) (list_candidates s u kind)),
     if nat off + nat n \<le> length (list_candidates s u kind) then Some (off + n) else None)"
  using assms by (auto simp: vs_list_points_def Let_def slice_nonneg min_def)

lemma load_pages_from:
  assumes "0 < n" and "0 \<le> off" and "off \<le> int (length (list_candidates s u kind))"
  shows "load_pages (vs_list_points s u kind n) (Some off) acc = Some (acc @ drop (nat off) (list_candidates s u kind))"
  using assms(2,3)
proof (induction "length (list_candidates s u kind) - nat off" arbitrary: off acc rule: less_induct)
  case less
  let ?l = "list_candidates s u kind"
  show ?case
  proof (cases "nat off + nat n \<le> length ?l")
    case True
    have "load_pages (vs_list_points s u kind n) (Some (off + n)) (acc @ take (nat n) (drop (nat off) ?l))
        = Some ((acc @ take (nat n) (drop (nat off) ?l)) @ drop (nat (off + n)) ?l)"
      using True less.prems assms(1) by (intro less.hyps) auto
    moreover have "take (nat n) (drop (nat off) ?l) @ drop (nat (off + n)) ?l = drop (nat off) ?l"
      using less.prems assms(1) append_take_drop_id [of "nat n" "drop (nat off) ?l"]
      by (simp add: nat_add_distrib add.commute)
    ultimately show ?thesis
      using True less.prems assms(1) by (subst load_pages.simps) (simp add: list_page_cases)
  next
    case False
    then have "take (nat n) (drop (nat off) ?l) = drop (nat off) ?l" by simp
    with False less.prems assms(1) show ?thesis
      by (subst load_pages.simps) (simp add: list_page_cases)
  qed
qed

lemma load_all_first: "vs_list_points s u kind n None = vs_list_points s u kind n (Some 0)"
  by (simp add: vs_list_points_def)

lemma load_pages_first: "load_pages (vs_list_points s u kind n) None acc = load_pages (vs_list_points s u kind n) (Some 0) acc"
  by (subst (1 2) load_pages.simps) (simp add: load_all_first)

text \<open>With no room on a page, every page is full and the loop never ends.\<close>

lemma load_pages_zero: "load_pages (vs_list_points s u kind 0) cursor acc \<noteq> Some r"
proof
  assume ret: "load_pages (vs_list_points s u kind 0) cursor acc = Some r"
  have "vs_list_points s u kind 0 c = ([], Some (case c of None \<Rightarrow> 0 | Some i \<Rightarrow> i))" for c
    by (simp add: vs_list_points_def slice_def Let_def)
  then show False
    using load_pages.raw_induct [where P = "\<lambda>lp c acc r. lp \<noteq> vs_list_points s u kind 0", OF _ ret]
    by (force split: prod.splits option.splits)
qed

text \<open>Reading page by page yields each matching point exactly once, for every page size but those below 1.\<close>

lemma pagination_complete:
  assumes "0 < n"
  shows "load_all_user_points s u kind n = Some (list_candidates s u kind)
    \<and> mset (list_candidates s u kind) = mset (filter (\<lambda>p. owned_by u p \<and> of_kind kind p) (map snd s))
    \<and> sorted (map (point_ts 0) (list_candidates s u kind))
    \<and> load_all_user_points s u kind 0 = None"
proof -
  have "load_all_user_points s u kind 0 = None"
    using load_pages_zero [of s u kind None "[]"] by (cases "load_all_user_points s u kind 0") (auto simp: load_all_user_points_def)
  moreover have "load_all_user_points s u kind n = Some (list_candidates s u kind)"
    using load_pages_from [OF assms, of 0 s u kind "[]"] by (simp add: load_all_user_points_def load_pages_first)
  ultimately show ?thesis
    by (simp add: list_candidates_def)
qed

end
