(* ===== verification/Permission_Store.thy ===== *)
theory Permission_Store
  imports Store_Types
begin

text \<open>
  The per-user tool allowlist: the Protocol's contract (\<open>stores/base.py\<close>, \<open>PermissionStore\<close>) as a
  locale, the in-memory adapter and the SQLite adapter, and the simulation between the two.
\<close>

section \<open>In-memory adapter\<close>

record perm_store =
  pm_default :: "pystr set"
  pm_grants :: "pystr \<rightharpoonup> pystr set"
  pm_revokes :: "pystr \<rightharpoonup> pystr set"

definition pm_init :: "pystr list \<Rightarrow> perm_store" where
  "pm_init default_allowed = \<lparr>pm_default = set default_allowed, pm_grants = Map.empty, pm_revokes = Map.empty\<rparr>"

text \<open>\<open>d.get(user_id, set())\<close>.\<close>

definition get_set :: "(pystr \<rightharpoonup> pystr set) \<Rightarrow> pystr \<Rightarrow> pystr set" where
  "get_set m u = (case m u of None \<Rightarrow> {} | Some s \<Rightarrow> s)"

definition pm_allowed_tools :: "perm_store \<Rightarrow> pystr \<Rightarrow> pystr set" where
  "pm_allowed_tools s user_id = (pm_default s \<union> get_set (pm_grants s) user_id) - get_set (pm_revokes s) user_id"

definition pm_grant :: "perm_store \<Rightarrow> pystr \<Rightarrow> pystr set \<Rightarrow> perm_store" where
  "pm_grant s user_id tools =
     s\<lparr>pm_grants := (pm_grants s)(user_id \<mapsto> get_set (pm_grants s) user_id \<union> tools),
       pm_revokes := (case pm_revokes s user_id of
          None \<Rightarrow> pm_revokes s
        | Some r \<Rightarrow> (pm_revokes s)(user_id \<mapsto> r - tools))\<rparr>"

definition pm_revoke :: "perm_store \<Rightarrow> pystr \<Rightarrow> pystr set \<Rightarrow> perm_store" where
  "pm_revoke s user_id tools =
     s\<lparr>pm_revokes := (pm_revokes s)(user_id \<mapsto> get_set (pm_revokes s) user_id \<union> tools),
       pm_grants := (case pm_grants s user_id of
          None \<Rightarrow> pm_grants s
        | Some g \<Rightarrow> (pm_grants s)(user_id \<mapsto> g - tools))\<rparr>"

definition pm_extend_default_allowed :: "perm_store \<Rightarrow> pystr set \<Rightarrow> perm_store" where
  "pm_extend_default_allowed s names = s\<lparr>pm_default := pm_default s \<union> names\<rparr>"

lemma get_set_grant [simp]:
  "get_set (pm_grants (pm_grant s u T)) v = (if v = u then get_set (pm_grants s) u \<union> T else get_set (pm_grants s) v)"
  "get_set (pm_revokes (pm_grant s u T)) v = (if v = u then get_set (pm_revokes s) u - T else get_set (pm_revokes s) v)"
  "pm_default (pm_grant s u T) = pm_default s"
  by (auto simp: pm_grant_def get_set_def split: option.splits)

lemma get_set_revoke [simp]:
  "get_set (pm_revokes (pm_revoke s u T)) v = (if v = u then get_set (pm_revokes s) u \<union> T else get_set (pm_revokes s) v)"
  "get_set (pm_grants (pm_revoke s u T)) v = (if v = u then get_set (pm_grants s) u - T else get_set (pm_grants s) v)"
  "pm_default (pm_revoke s u T) = pm_default s"
  by (auto simp: pm_revoke_def get_set_def split: option.splits)

section \<open>SQLite adapter\<close>

text \<open>
  The table \<open>permissions(user_id PRIMARY KEY, granted_json, revoked_json)\<close> is a map from the key to
  the two sets (a set written with \<open>json.dumps(list(s))\<close> and read with \<open>set(json.loads(..))\<close> is the
  same set). Every operation runs \<open>_ensure_init\<close> first, which seeds the default row once.
\<close>

record sql_perm_store =
  sp_table :: "pystr \<rightharpoonup> pystr set \<times> pystr set"
  sp_default_allowed :: "pystr set"
  sp_initialized :: bool

definition DEFAULT_SENTINEL :: pystr where
  "DEFAULT_SENTINEL = py ''__default__''"

definition sp_init :: "(pystr \<rightharpoonup> pystr set \<times> pystr set) \<Rightarrow> pystr list \<Rightarrow> sql_perm_store" where
  "sp_init table default_allowed =
     \<lparr>sp_table = table, sp_default_allowed = set default_allowed, sp_initialized = False\<rparr>"

definition sp_ensure_init :: "sql_perm_store \<Rightarrow> sql_perm_store" where
  "sp_ensure_init s =
     (if sp_initialized s then s
      else s\<lparr>sp_table := (case sp_table s DEFAULT_SENTINEL of
                None \<Rightarrow> (sp_table s)(DEFAULT_SENTINEL \<mapsto> (sp_default_allowed s, {}))
              | Some _ \<Rightarrow> sp_table s),
             sp_initialized := True\<rparr>)"

definition sp_get_default :: "sql_perm_store \<Rightarrow> pystr set" where
  "sp_get_default s = (case sp_table s DEFAULT_SENTINEL of
      None \<Rightarrow> sp_default_allowed s | Some (granted, _) \<Rightarrow> granted)"

definition sp_get_user_grants_revokes :: "sql_perm_store \<Rightarrow> pystr \<Rightarrow> (pystr set \<times> pystr set) option" where
  "sp_get_user_grants_revokes s user_id = sp_table s user_id"

text \<open>\<open>_upsert\<close>: insert when there is no row, update otherwise; both write the two columns.\<close>

definition sp_upsert :: "sql_perm_store \<Rightarrow> pystr \<Rightarrow> pystr set \<Rightarrow> pystr set \<Rightarrow> sql_perm_store" where
  "sp_upsert s user_id granted revoked =
     (case sp_get_user_grants_revokes s user_id of
        None \<Rightarrow> s\<lparr>sp_table := (sp_table s)(user_id \<mapsto> (granted, revoked))\<rparr>
      | Some _ \<Rightarrow> s\<lparr>sp_table := (sp_table s)(user_id \<mapsto> (granted, revoked))\<rparr>)"

definition sp_allowed_tools :: "sql_perm_store \<Rightarrow> pystr \<Rightarrow> pystr set \<times> sql_perm_store" where
  "sp_allowed_tools s user_id =
     (let s = sp_ensure_init s; default = sp_get_default s
      in (case sp_get_user_grants_revokes s user_id of
            None \<Rightarrow> default
          | Some (granted, revoked) \<Rightarrow> (default \<union> granted) - revoked, s))"

definition sp_grant :: "sql_perm_store \<Rightarrow> pystr \<Rightarrow> pystr set \<Rightarrow> sql_perm_store" where
  "sp_grant s user_id tools =
     (let s = sp_ensure_init s;
          (granted, revoked) = (case sp_get_user_grants_revokes s user_id of None \<Rightarrow> ({}, {}) | Some d \<Rightarrow> d)
      in sp_upsert s user_id (granted \<union> tools) (revoked - tools))"

definition sp_revoke :: "sql_perm_store \<Rightarrow> pystr \<Rightarrow> pystr set \<Rightarrow> sql_perm_store" where
  "sp_revoke s user_id tools =
     (let s = sp_ensure_init s;
          (granted, revoked) = (case sp_get_user_grants_revokes s user_id of None \<Rightarrow> ({}, {}) | Some d \<Rightarrow> d)
      in sp_upsert s user_id (granted - tools) (revoked \<union> tools))"

text \<open>An SQL \<open>UPDATE .. WHERE user_id = '__default__'\<close> changes nothing when the row is absent.\<close>

definition sp_extend_default_allowed :: "sql_perm_store \<Rightarrow> pystr set \<Rightarrow> sql_perm_store" where
  "sp_extend_default_allowed s names =
     (let s = sp_ensure_init s; current = sp_get_default s \<union> names
      in s\<lparr>sp_table := (case sp_table s DEFAULT_SENTINEL of
              None \<Rightarrow> sp_table s
            | Some (_, revoked) \<Rightarrow> (sp_table s)(DEFAULT_SENTINEL \<mapsto> (current, revoked)))\<rparr>)"

section \<open>The contract\<close>

text \<open>
  \<open>allowed\<close> is what a user may call, \<open>revoked\<close> what that user explicitly lost; \<open>valid\<close> are the user
  ids the adapter supports. A revoke beats a later extension of the default, a grant beats an
  earlier revoke, and no operation on one user touches another.
\<close>

locale permission_store =
  fixes allowed :: "'s \<Rightarrow> pystr \<Rightarrow> pystr set"
    and revoked :: "'s \<Rightarrow> pystr \<Rightarrow> pystr set"
    and grant :: "'s \<Rightarrow> pystr \<Rightarrow> pystr set \<Rightarrow> 's"
    and revoke :: "'s \<Rightarrow> pystr \<Rightarrow> pystr set \<Rightarrow> 's"
    and extend :: "'s \<Rightarrow> pystr set \<Rightarrow> 's"
    and valid :: "pystr \<Rightarrow> bool"
    and inv :: "'s \<Rightarrow> bool"
  assumes allowed_grant: "inv s \<Longrightarrow> valid u \<Longrightarrow> allowed (grant s u T) u = allowed s u \<union> T"
    and allowed_revoke: "inv s \<Longrightarrow> valid u \<Longrightarrow> allowed (revoke s u T) u = allowed s u - T"
    and allowed_extend: "inv s \<Longrightarrow> valid u \<Longrightarrow> allowed (extend s N) u = allowed s u \<union> (N - revoked s u)"
    and allowed_frame: "inv s \<Longrightarrow> valid u \<Longrightarrow> valid v \<Longrightarrow> v \<noteq> u \<Longrightarrow> allowed (grant s u T) v = allowed s v"
      "inv s \<Longrightarrow> valid u \<Longrightarrow> valid v \<Longrightarrow> v \<noteq> u \<Longrightarrow> allowed (revoke s u T) v = allowed s v"
    and revoked_grant: "inv s \<Longrightarrow> valid u \<Longrightarrow> valid v \<Longrightarrow>
        revoked (grant s u T) v = (if v = u then revoked s u - T else revoked s v)"
    and revoked_revoke: "inv s \<Longrightarrow> valid u \<Longrightarrow> valid v \<Longrightarrow>
        revoked (revoke s u T) v = (if v = u then revoked s u \<union> T else revoked s v)"
    and revoked_extend: "inv s \<Longrightarrow> valid u \<Longrightarrow> revoked (extend s N) u = revoked s u"
    and revoked_not_allowed: "inv s \<Longrightarrow> valid u \<Longrightarrow> revoked s u \<inter> allowed s u = {}"
    and inv_ops: "inv s \<Longrightarrow> valid u \<Longrightarrow> inv (grant s u T)" "inv s \<Longrightarrow> valid u \<Longrightarrow> inv (revoke s u T)"
      "inv s \<Longrightarrow> inv (extend s N)"

datatype perm_op =
    Grant pystr "pystr set"
  | Revoke pystr "pystr set"
  | Extend "pystr set"

text \<open>An operation that gives user \<open>u\<close> the tool \<open>t\<close> back.\<close>

fun regrants :: "pystr \<Rightarrow> pystr \<Rightarrow> perm_op \<Rightarrow> bool" where
  "regrants u t (Grant v T) \<longleftrightarrow> v = u \<and> t \<in> T"
| "regrants u t _ \<longleftrightarrow> False"

text \<open>An operation on another user's row.\<close>

fun on_other :: "pystr \<Rightarrow> perm_op \<Rightarrow> bool" where
  "on_other u (Grant v T) \<longleftrightarrow> v \<noteq> u"
| "on_other u (Revoke v T) \<longleftrightarrow> v \<noteq> u"
| "on_other u (Extend N) \<longleftrightarrow> False"

fun op_valid :: "(pystr \<Rightarrow> bool) \<Rightarrow> perm_op \<Rightarrow> bool" where
  "op_valid valid (Grant v T) \<longleftrightarrow> valid v"
| "op_valid valid (Revoke v T) \<longleftrightarrow> valid v"
| "op_valid valid (Extend N) \<longleftrightarrow> True"

context permission_store
begin

fun apply_op :: "'s \<Rightarrow> perm_op \<Rightarrow> 's" where
  "apply_op s (Grant u T) = grant s u T"
| "apply_op s (Revoke u T) = revoke s u T"
| "apply_op s (Extend N) = extend s N"

definition apply_ops :: "'s \<Rightarrow> perm_op list \<Rightarrow> 's" where
  "apply_ops s ops = foldl apply_op s ops"

lemma apply_op_inv: "inv s \<Longrightarrow> op_valid valid x \<Longrightarrow> inv (apply_op s x)"
  by (cases x) (auto simp: inv_ops)

lemma apply_ops_inv: "inv s \<Longrightarrow> \<forall>x \<in> set ops. op_valid valid x \<Longrightarrow> inv (apply_ops s ops)"
  by (induction ops arbitrary: s) (auto simp: apply_ops_def apply_op_inv)

lemma revoked_sticky_step:
  "inv s \<Longrightarrow> valid u \<Longrightarrow> op_valid valid x \<Longrightarrow> t \<in> revoked s u \<Longrightarrow> \<not> regrants u t x \<Longrightarrow> t \<in> revoked (apply_op s x) u"
  by (cases x) (auto simp: revoked_grant revoked_revoke revoked_extend)

lemma revoked_sticky:
  assumes "inv s" and "valid u" and "\<forall>x \<in> set ops. op_valid valid x \<and> \<not> regrants u t x" and "t \<in> revoked s u"
  shows "t \<in> revoked (apply_ops s ops) u"
  using assms(1,3,4)
proof (induction ops arbitrary: s)
  case (Cons x ops)
  then have "t \<in> revoked (apply_op s x) u" and "inv (apply_op s x)"
    using assms(2) by (auto intro: revoked_sticky_step apply_op_inv)
  with Cons.IH [of "apply_op s x"] Cons.prems(2) show ?case
    by (simp add: apply_ops_def)
qed (simp add: apply_ops_def)

text \<open>
  After a revoke, no sequence of operations that does not grant the tool back to that user makes it
  callable, whatever the defaults become.
\<close>

lemma revoke_wins:
  assumes "inv s" and "valid u" and "\<forall>x \<in> set ops. op_valid valid x \<and> \<not> regrants u t x" and "t \<in> T"
  shows "t \<notin> allowed (apply_ops (revoke s u T) ops) u"
proof -
  have "t \<in> revoked (revoke s u T) u" and inv: "inv (revoke s u T)"
    using assms(1,2,4) by (simp_all add: revoked_revoke inv_ops)
  from revoked_sticky [OF inv assms(2,3) this(1)] have "t \<in> revoked (apply_ops (revoke s u T) ops) u" .
  moreover have "inv (apply_ops (revoke s u T) ops)"
    using assms(3) by (intro apply_ops_inv inv) auto
  ultimately show ?thesis
    using revoked_not_allowed assms(2) by blast
qed

text \<open>A user's rights do not depend on what is granted to or revoked from the others.\<close>

lemma other_users_frame:
  assumes "inv s" and "valid u" and "\<forall>x \<in> set ops. op_valid valid x \<and> on_other u x"
  shows "allowed (apply_ops s ops) u = allowed s u"
  using assms(1,3)
proof (induction ops arbitrary: s)
  case (Cons x ops)
  from Cons.prems have x: "op_valid valid x" "on_other u x"
    by simp_all
  then have "allowed (apply_op s x) u = allowed s u"
    using Cons.prems(1) assms(2) by (cases x) (simp_all add: allowed_frame)
  moreover have "inv (apply_op s x)"
    using Cons.prems(1) x(1) by (rule apply_op_inv)
  ultimately show ?case
    using Cons.IH [of "apply_op s x"] Cons.prems(2)
    by (simp add: apply_ops_def)
qed (simp add: apply_ops_def)

end

interpretation mem_perms: permission_store pm_allowed_tools "\<lambda>s. get_set (pm_revokes s)"
  pm_grant pm_revoke pm_extend_default_allowed "\<lambda>_. True" "\<lambda>_. True"
  by unfold_locales (auto simp: pm_allowed_tools_def pm_extend_default_allowed_def)

text \<open>The SQLite adapter, for every user id but the sentinel of its default row.\<close>

definition sp_revoked :: "sql_perm_store \<Rightarrow> pystr \<Rightarrow> pystr set" where
  "sp_revoked s u = (case sp_table s u of None \<Rightarrow> {} | Some (_, r) \<Rightarrow> r)"

definition sp_granted :: "sql_perm_store \<Rightarrow> pystr \<Rightarrow> pystr set" where
  "sp_granted s u = (case sp_table s u of None \<Rightarrow> {} | Some (g, _) \<Rightarrow> g)"

lemma sp_ensure_init_simps [simp]:
  "sp_initialized (sp_ensure_init s)" "sp_ensure_init (sp_ensure_init s) = sp_ensure_init s"
  "sp_get_default (sp_ensure_init s) = sp_get_default s"
  "u \<noteq> DEFAULT_SENTINEL \<Longrightarrow> sp_table (sp_ensure_init s) u = sp_table s u"
  by (auto simp: sp_ensure_init_def sp_get_default_def split: option.splits)

lemma sp_default_present:
  "sp_table (sp_ensure_init s) DEFAULT_SENTINEL = None \<longleftrightarrow> sp_initialized s \<and> sp_table s DEFAULT_SENTINEL = None"
  by (auto simp: sp_ensure_init_def split: option.splits)

lemma sp_allowed_eq:
  "u \<noteq> DEFAULT_SENTINEL \<Longrightarrow> fst (sp_allowed_tools s u) = (sp_get_default s \<union> sp_granted s u) - sp_revoked s u"
  by (auto simp: sp_allowed_tools_def sp_get_user_grants_revokes_def sp_granted_def sp_revoked_def Let_def
      split: option.splits)

lemma sp_upsert_table: "sp_table (sp_upsert s u g r) = (sp_table s)(u \<mapsto> (g, r))"
  by (simp add: sp_upsert_def split: option.splits)

lemma sp_grant_table:
  "u \<noteq> DEFAULT_SENTINEL \<Longrightarrow> sp_table (sp_grant s u T) =
     (sp_table (sp_ensure_init s))(u \<mapsto> (sp_granted s u \<union> T, sp_revoked s u - T))"
  by (auto simp: sp_grant_def sp_get_user_grants_revokes_def sp_upsert_table sp_granted_def sp_revoked_def Let_def
      split: option.splits)

lemma sp_revoke_table:
  "u \<noteq> DEFAULT_SENTINEL \<Longrightarrow> sp_table (sp_revoke s u T) =
     (sp_table (sp_ensure_init s))(u \<mapsto> (sp_granted s u - T, sp_revoked s u \<union> T))"
  by (auto simp: sp_revoke_def sp_get_user_grants_revokes_def sp_upsert_table sp_granted_def sp_revoked_def Let_def
      split: option.splits)

lemma sp_default_allowed_frame [simp]:
  "sp_default_allowed (sp_ensure_init s) = sp_default_allowed s"
  "sp_default_allowed (sp_grant s u T) = sp_default_allowed s"
  "sp_default_allowed (sp_revoke s u T) = sp_default_allowed s"
  by (auto simp: sp_ensure_init_def sp_grant_def sp_revoke_def sp_upsert_def Let_def split: option.splits prod.splits)

lemma sp_get_default_cong:
  "sp_table t DEFAULT_SENTINEL = sp_table s DEFAULT_SENTINEL \<Longrightarrow> sp_default_allowed t = sp_default_allowed s
    \<Longrightarrow> sp_get_default t = sp_get_default s"
  by (auto simp: sp_get_default_def split: option.splits)

lemma sp_update_get_default:
  assumes "u \<noteq> DEFAULT_SENTINEL"
  shows "sp_get_default (sp_grant s u T) = sp_get_default s" "sp_get_default (sp_revoke s u T) = sp_get_default s"
proof -
  have "sp_get_default (sp_grant s u T) = sp_get_default (sp_ensure_init s)"
    using assms by (intro sp_get_default_cong) (simp_all add: sp_grant_table)
  then show "sp_get_default (sp_grant s u T) = sp_get_default s" by simp
  have "sp_get_default (sp_revoke s u T) = sp_get_default (sp_ensure_init s)"
    using assms by (intro sp_get_default_cong) (simp_all add: sp_revoke_table)
  then show "sp_get_default (sp_revoke s u T) = sp_get_default s" by simp
qed

lemma sp_granted_revoked_update:
  assumes "u \<noteq> DEFAULT_SENTINEL" and "v \<noteq> DEFAULT_SENTINEL"
  shows "sp_granted (sp_grant s u T) v = (if v = u then sp_granted s u \<union> T else sp_granted s v)"
    and "sp_revoked (sp_grant s u T) v = (if v = u then sp_revoked s u - T else sp_revoked s v)"
    and "sp_granted (sp_revoke s u T) v = (if v = u then sp_granted s u - T else sp_granted s v)"
    and "sp_revoked (sp_revoke s u T) v = (if v = u then sp_revoked s u \<union> T else sp_revoked s v)"
  using assms by (simp_all add: sp_granted_def [of _ v] sp_revoked_def [of _ v] sp_grant_table sp_revoke_table)

text \<open>A store whose default row exists once it is initialised; every store the constructor builds.\<close>

definition sp_ok :: "sql_perm_store \<Rightarrow> bool" where
  "sp_ok s \<longleftrightarrow> (sp_initialized s \<longrightarrow> sp_table s DEFAULT_SENTINEL \<noteq> None)"

lemma sp_ok_init [simp]: "sp_ok (sp_init t d)"
  by (simp add: sp_ok_def sp_init_def)

lemma sp_ok_ensure_init [simp]: "sp_ok s \<Longrightarrow> sp_ok (sp_ensure_init s)"
  by (auto simp: sp_ok_def sp_default_present)

lemma sp_ensure_init_row: "sp_ok s \<Longrightarrow> sp_table (sp_ensure_init s) DEFAULT_SENTINEL \<noteq> None"
  by (auto simp: sp_ok_def sp_default_present)

lemma sp_extend_table:
  assumes "sp_ok s"
  shows "sp_get_default (sp_extend_default_allowed s N) = sp_get_default s \<union> N"
    and "u \<noteq> DEFAULT_SENTINEL \<Longrightarrow> sp_table (sp_extend_default_allowed s N) u = sp_table s u"
  using sp_ensure_init_row [OF assms]
  by (auto simp: sp_extend_default_allowed_def sp_get_default_def [of "sp_ensure_init s\<lparr>sp_table := _\<rparr>"] Let_def
      split: option.splits)

lemma sp_ok_update [simp]:
  "sp_ok s \<Longrightarrow> sp_ok (sp_grant s u T)" "sp_ok s \<Longrightarrow> sp_ok (sp_revoke s u T)"
  "sp_ok s \<Longrightarrow> sp_ok (sp_extend_default_allowed s N)"
  using sp_ensure_init_row [of s]
  by (auto simp: sp_ok_def sp_grant_def sp_revoke_def sp_extend_default_allowed_def sp_upsert_table Let_def
      split: option.splits prod.splits)

interpretation sql_perms: permission_store "\<lambda>s u. fst (sp_allowed_tools s u)" sp_revoked
  sp_grant sp_revoke sp_extend_default_allowed "\<lambda>u. u \<noteq> DEFAULT_SENTINEL" sp_ok
  by unfold_locales
    (auto simp: sp_allowed_eq sp_update_get_default sp_granted_revoked_update sp_extend_table
      sp_granted_def [of "sp_extend_default_allowed _ _"] sp_revoked_def [of "sp_extend_default_allowed _ _"]
      sp_granted_def [symmetric] sp_revoked_def [symmetric])

section \<open>The SQLite adapter simulates the in-memory one\<close>

text \<open>The abstraction: what the table says of every user but the sentinel.\<close>

definition sp_refines :: "sql_perm_store \<Rightarrow> perm_store \<Rightarrow> bool" where
  "sp_refines c a \<longleftrightarrow> sp_ok c \<and> sp_get_default c = pm_default a
     \<and> (\<forall>u. u \<noteq> DEFAULT_SENTINEL \<longrightarrow> sp_granted c u = get_set (pm_grants a) u \<and> sp_revoked c u = get_set (pm_revokes a) u)"

lemma sp_refines_init: "sp_refines (sp_init Map.empty d) (pm_init d)"
  by (simp add: sp_refines_def sp_get_default_def sp_granted_def sp_revoked_def get_set_def)
    (simp add: sp_init_def pm_init_def)

lemma sp_refines_allowed:
  "sp_refines c a \<Longrightarrow> u \<noteq> DEFAULT_SENTINEL \<Longrightarrow> fst (sp_allowed_tools c u) = pm_allowed_tools a u"
  by (auto simp: sp_refines_def sp_allowed_eq pm_allowed_tools_def)

lemma sp_refines_step:
  assumes "sp_refines c a"
  shows "u \<noteq> DEFAULT_SENTINEL \<Longrightarrow> sp_refines (sp_grant c u T) (pm_grant a u T)"
    and "u \<noteq> DEFAULT_SENTINEL \<Longrightarrow> sp_refines (sp_revoke c u T) (pm_revoke a u T)"
    and "sp_refines (sp_extend_default_allowed c N) (pm_extend_default_allowed a N)"
    and "sp_refines (snd (sp_allowed_tools c u)) a"
proof -
  show "u \<noteq> DEFAULT_SENTINEL \<Longrightarrow> sp_refines (sp_grant c u T) (pm_grant a u T)"
    and "u \<noteq> DEFAULT_SENTINEL \<Longrightarrow> sp_refines (sp_revoke c u T) (pm_revoke a u T)"
    using assms by (auto simp: sp_refines_def sp_update_get_default sp_granted_revoked_update)
  show "sp_refines (sp_extend_default_allowed c N) (pm_extend_default_allowed a N)"
    using assms
    by (auto simp: sp_refines_def sp_extend_table sp_granted_def sp_revoked_def)
      (auto simp: pm_extend_default_allowed_def)
  show "sp_refines (snd (sp_allowed_tools c u)) a"
    using assms by (auto simp: sp_refines_def sp_allowed_tools_def sp_granted_def sp_revoked_def Let_def)
qed

text \<open>Runs of the two adapters.\<close>

lemma sp_refines_run:
  assumes "sp_refines c a" and "\<forall>x \<in> set ops. op_valid (\<lambda>u. u \<noteq> DEFAULT_SENTINEL) x"
  shows "sp_refines (sql_perms.apply_ops c ops) (mem_perms.apply_ops a ops)"
  using assms
proof (induction ops arbitrary: c a)
  case (Cons x ops)
  have "sp_refines (sql_perms.apply_op c x) (mem_perms.apply_op a x)"
    using Cons.prems sp_refines_step [OF Cons.prems(1)] by (cases x) simp_all
  with Cons show ?case
    by (simp add: mem_perms.apply_ops_def sql_perms.apply_ops_def)
qed (simp add: mem_perms.apply_ops_def sql_perms.apply_ops_def)

text \<open>Sequences of operations, written out for the two adapters.\<close>

fun pm_apply :: "perm_store \<Rightarrow> perm_op \<Rightarrow> perm_store" where
  "pm_apply s (Grant u T) = pm_grant s u T"
| "pm_apply s (Revoke u T) = pm_revoke s u T"
| "pm_apply s (Extend N) = pm_extend_default_allowed s N"

fun sp_apply :: "sql_perm_store \<Rightarrow> perm_op \<Rightarrow> sql_perm_store" where
  "sp_apply s (Grant u T) = sp_grant s u T"
| "sp_apply s (Revoke u T) = sp_revoke s u T"
| "sp_apply s (Extend N) = sp_extend_default_allowed s N"

definition pm_run :: "perm_store \<Rightarrow> perm_op list \<Rightarrow> perm_store" where
  "pm_run s ops = foldl pm_apply s ops"

definition sp_run :: "sql_perm_store \<Rightarrow> perm_op list \<Rightarrow> sql_perm_store" where
  "sp_run s ops = foldl sp_apply s ops"

lemma pm_run_eq: "mem_perms.apply_ops s ops = pm_run s ops"
proof -
  have "mem_perms.apply_op = pm_apply"
    by (intro ext) (metis mem_perms.apply_op.simps pm_apply.simps perm_op.exhaust)
  then show ?thesis by (simp add: mem_perms.apply_ops_def pm_run_def)
qed

lemma sp_run_eq: "sql_perms.apply_ops s ops = sp_run s ops"
proof -
  have "sql_perms.apply_op = sp_apply"
    by (intro ext) (metis sql_perms.apply_op.simps sp_apply.simps perm_op.exhaust)
  then show ?thesis by (simp add: sql_perms.apply_ops_def sp_run_def)
qed

text \<open>That restriction is needed. The SQLite store keeps the default allowlist in the row of the user
  \<open>__default__\<close>, so granting a tool to a user of that name grants it to everybody who has not had it revoked;
  in memory the same call changes nobody else.\<close>

lemma sentinel_grants_everybody:
  assumes "u \<noteq> DEFAULT_SENTINEL" and "t \<notin> sp_revoked s u"
  shows "t \<in> fst (sp_allowed_tools (sp_grant s DEFAULT_SENTINEL {t}) u)
    \<and> pm_allowed_tools (pm_grant a DEFAULT_SENTINEL {t}) u = pm_allowed_tools a u"
proof -
  have "sp_revoked (sp_grant s DEFAULT_SENTINEL {t}) u = sp_revoked s u"
    using assms(1) by (simp add: sp_revoked_def sp_grant_def sp_upsert_table Let_def split: option.splits prod.splits)
  moreover have "t \<in> sp_get_default (sp_grant s DEFAULT_SENTINEL {t})"
    by (simp add: sp_get_default_def sp_grant_def sp_upsert_table Let_def split: option.splits prod.splits)
  ultimately show ?thesis
    using assms by (simp add: sp_allowed_eq pm_allowed_tools_def)
qed

end
