(* ===== verification/Skill_Store.thy ===== *)
theory Skill_Store
  imports Store_Types
begin

text \<open>
  \<open>stores/memory_skills.py\<close>: per-user skill visibility. \<open>None\<close> means every skill is visible, a set
  restricts the user to exactly its names.
\<close>

record skill_store =
  sk_default :: "pystr set option"
  sk_grants :: "pystr \<rightharpoonup> pystr set"

definition sk_init :: skill_store where
  "sk_init = \<lparr>sk_default = None, sk_grants = Map.empty\<rparr>"

definition sk_allowed_skills :: "skill_store \<Rightarrow> pystr \<Rightarrow> pystr set option" where
  "sk_allowed_skills s user_id =
     (case sk_grants s user_id of Some g \<Rightarrow> Some g | None \<Rightarrow> sk_default s)"

definition sk_grant :: "skill_store \<Rightarrow> pystr \<Rightarrow> pystr set \<Rightarrow> skill_store" where
  "sk_grant s user_id skills = s\<lparr>sk_grants := (sk_grants s)(user_id \<mapsto>
     (case sk_grants s user_id of None \<Rightarrow> {} | Some g \<Rightarrow> g) \<union> skills)\<rparr>"

definition sk_revoke :: "skill_store \<Rightarrow> pystr \<Rightarrow> pystr set \<Rightarrow> skill_store" where
  "sk_revoke s user_id skills =
     (case sk_grants s user_id of
        None \<Rightarrow> s
      | Some g \<Rightarrow> s\<lparr>sk_grants := (sk_grants s)(user_id \<mapsto> g - skills)\<rparr>)"

definition sk_extend_default_allowed :: "skill_store \<Rightarrow> pystr set \<Rightarrow> skill_store" where
  "sk_extend_default_allowed s names =
     s\<lparr>sk_default := Some ((case sk_default s of None \<Rightarrow> {} | Some d \<Rightarrow> d) \<union> names)\<rparr>"

text \<open>\<open>allowed is None or name in allowed\<close>.\<close>

definition skill_visible :: "pystr set option \<Rightarrow> pystr \<Rightarrow> bool" where
  "skill_visible allowed name \<longleftrightarrow> (case allowed of None \<Rightarrow> True | Some a \<Rightarrow> name \<in> a)"

lemma sk_grant_visible:
  "skill_visible (sk_allowed_skills (sk_grant s u S) u) x \<longleftrightarrow>
     x \<in> S \<or> (\<exists>g. sk_grants s u = Some g \<and> x \<in> g)"
  by (auto simp: skill_visible_def sk_allowed_skills_def sk_grant_def split: option.splits)

lemma sk_revoke_visible:
  "skill_visible (sk_allowed_skills (sk_revoke s u S) u) x \<longleftrightarrow>
     skill_visible (sk_allowed_skills s u) x \<and> (sk_grants s u = None \<or> x \<notin> S)"
  by (auto simp: skill_visible_def sk_allowed_skills_def sk_revoke_def split: option.splits)

lemma sk_frame:
  "v \<noteq> u \<Longrightarrow> sk_allowed_skills (sk_grant s u S) v = sk_allowed_skills s v"
  "v \<noteq> u \<Longrightarrow> sk_allowed_skills (sk_revoke s u S) v = sk_allowed_skills s v"
  by (auto simp: sk_allowed_skills_def sk_grant_def sk_revoke_def split: option.splits)

lemma sk_extend_visible:
  "skill_visible (sk_allowed_skills (sk_extend_default_allowed s N) u) x \<longleftrightarrow>
     (case sk_grants s u of Some g \<Rightarrow> x \<in> g
      | None \<Rightarrow> x \<in> N \<or> (\<exists>d. sk_default s = Some d \<and> x \<in> d))"
  by (auto simp: skill_visible_def sk_allowed_skills_def sk_extend_default_allowed_def split: option.splits)

end
