(* ===== verification/Bounded_LRU.thy ===== *)
theory Bounded_LRU
  imports Errors
begin

text \<open>
  \<open>util.py\<close>, \<open>BoundedLRUDict\<close>: an \<open>OrderedDict\<close> (oldest entry first) with a size cap. Reads and
  writes move the touched key to the end; a write over the cap drops the first entry. The locale
  \<open>lru_cache\<close> is the contract its two clients (the rate limiter's buckets, the service's cache of
  LLM clients) rely on.
\<close>

section \<open>Operations\<close>

record ('k, 'v) lru =
  entries :: "('k \<times> 'v) list"
  max_size :: int

definition lru_init :: "int \<Rightarrow> ('k, 'v) lru" where
  "lru_init n = \<lparr>entries = [], max_size = n\<rparr>"

text \<open>\<open>OrderedDict.move_to_end(key)\<close> of a present key.\<close>

definition move_to_end :: "'k \<Rightarrow> ('k \<times> 'v) list \<Rightarrow> ('k \<times> 'v) list" where
  "move_to_end k d = (case map_of d k of None \<Rightarrow> d | Some v \<Rightarrow> dict_del k d @ [(k, v)])"

definition lru_get :: "('k, 'v) lru \<Rightarrow> 'k \<Rightarrow> 'v option \<times> ('k, 'v) lru" where
  "lru_get c k =
     (if map_of (entries c) k \<noteq> None
      then let d = move_to_end k (entries c) in (map_of d k, c\<lparr>entries := d\<rparr>)
      else (None, c))"

definition lru_set :: "('k, 'v) lru \<Rightarrow> 'k \<Rightarrow> 'v \<Rightarrow> ('k, 'v) lru" where
  "lru_set c k v =
     (let d = (if map_of (entries c) k \<noteq> None then move_to_end k (entries c) else entries c);
          d = dict_set k v d
      in c\<lparr>entries := (if int (length d) > max_size c then tl d else d)\<rparr>)"

definition lru_getitem :: "('k, 'v) lru \<Rightarrow> 'k \<Rightarrow> 'v res \<times> ('k, 'v) lru" where
  "lru_getitem c k =
     (case map_of (entries c) k of
        None \<Rightarrow> (Inl (KeyError []), c)
      | Some v \<Rightarrow> (Inr v, c\<lparr>entries := move_to_end k (entries c)\<rparr>))"

definition lru_contains :: "('k, 'v) lru \<Rightarrow> 'k \<Rightarrow> bool" where
  "lru_contains c k \<longleftrightarrow> map_of (entries c) k \<noteq> None"

text \<open>What a reader sees under a key, without touching it; and the keys, oldest first.\<close>

abbreviation lru_lookup :: "('k, 'v) lru \<Rightarrow> 'k \<Rightarrow> 'v option" where
  "lru_lookup c k \<equiv> map_of (entries c) k"

abbreviation lru_keys :: "('k, 'v) lru \<Rightarrow> 'k list" where
  "lru_keys c \<equiv> map fst (entries c)"

section \<open>Invariant\<close>

definition lru_inv :: "('k, 'v) lru \<Rightarrow> bool" where
  "lru_inv c \<longleftrightarrow> dict_ok (entries c) \<and> int (length (entries c)) \<le> max 0 (max_size c)"

lemma lru_inv_init [simp]: "lru_inv (lru_init n)"
  by (simp add: lru_inv_def lru_init_def)

lemma move_to_end_keys:
  "map_of d k \<noteq> None \<Longrightarrow> map fst (move_to_end k d) = removeAll k (map fst d) @ [k]"
  by (auto simp: move_to_end_def delete_keys)

lemma move_to_end_get [simp]: "map_of (move_to_end k d) = map_of d"
  by (auto simp: move_to_end_def fun_eq_iff map_of_append map_add_def dict_simps split: option.splits)

lemma dict_ok_move_to_end [simp]: "dict_ok d \<Longrightarrow> dict_ok (move_to_end k d)"
  by (cases "map_of d k") (auto simp: move_to_end_def delete_keys distinct_removeAll)

lemma length_removeAll_distinct:
  "distinct xs \<Longrightarrow> x \<in> set xs \<Longrightarrow> Suc (length (removeAll x xs)) = length xs"
  by (metis One_nat_def Suc_pred distinct_remove1_removeAll length_pos_if_in_set length_remove1)

lemma length_move_to_end: "dict_ok d \<Longrightarrow> length (move_to_end k d) = length d"
proof (cases "map_of d k")
  case (Some v)
  assume "dict_ok d"
  have "length (move_to_end k d) = length (map fst (move_to_end k d))"
    by simp
  also have "\<dots> = Suc (length (removeAll k (map fst d)))"
    using Some by (subst move_to_end_keys) simp_all
  also have "\<dots> = length (map fst d)"
    using \<open>dict_ok d\<close> Some by (intro length_removeAll_distinct) (auto dest: map_of_SomeD intro: rev_image_eqI)
  finally show ?thesis by simp
qed (simp add: move_to_end_def)

lemma dict_set_absent: "map_of d k = None \<Longrightarrow> dict_set k v d = d @ [(k, v)]"
  by (induction d) (auto split: if_splits)

lemma dict_set_keys_present: "map_of d k \<noteq> None \<Longrightarrow> map fst (dict_set k v d) = map fst d"
  using dict_mem_iff [of k d] by (simp add: update_keys)

text \<open>The dictionary after the store and before the eviction.\<close>

definition lru_stored :: "('k, 'v) lru \<Rightarrow> 'k \<Rightarrow> 'v \<Rightarrow> ('k \<times> 'v) list" where
  "lru_stored c k v = dict_set k v (if map_of (entries c) k \<noteq> None then move_to_end k (entries c) else entries c)"

lemma lru_set_stored:
  "lru_set c k v = c\<lparr>entries := (if int (length (lru_stored c k v)) > max_size c
     then tl (lru_stored c k v) else lru_stored c k v)\<rparr>"
  by (simp add: lru_set_def lru_stored_def Let_def)

lemma lru_stored_keys: "map fst (lru_stored c k v) = removeAll k (lru_keys c) @ [k]"
proof (cases "map_of (entries c) k")
  case None
  then have "removeAll k (lru_keys c) = lru_keys c"
    by (simp add: map_of_eq_None_iff)
  with None show ?thesis
    by (simp add: lru_stored_def dict_set_absent)
next
  case (Some w)
  then show ?thesis
    by (simp add: lru_stored_def dict_set_keys_present move_to_end_keys)
qed

lemma lru_stored_get: "map_of (lru_stored c k v) k' = (if k' = k then Some v else map_of (entries c) k')"
  by (simp add: lru_stored_def dict_simps)

lemma length_lru_stored: "length (lru_stored c k v) = Suc (length (removeAll k (lru_keys c)))"
  using arg_cong [OF lru_stored_keys [of c k v], of length] by simp

text \<open>The keys after a write: the touched key is last, and the oldest goes when the cap is passed.\<close>

lemma lru_set_keys:
  "lru_keys (lru_set c k v) =
     (let ks = removeAll k (lru_keys c) @ [k] in if int (length ks) > max_size c then tl ks else ks)"
  by (simp add: lru_set_stored Let_def map_tl lru_stored_keys length_lru_stored)

lemma lru_get_keys:
  "lru_keys (snd (lru_get c k)) =
     (if k \<in> set (lru_keys c) then removeAll k (lru_keys c) @ [k] else lru_keys c)"
  by (auto simp: lru_get_def Let_def move_to_end_keys map_of_eq_None_iff)

lemma lru_get_simps [simp]:
  "fst (lru_get c k) = lru_lookup c k" "lru_lookup (snd (lru_get c k)) k' = lru_lookup c k'"
  "max_size (snd (lru_get c k)) = max_size c"
  by (auto simp: lru_get_def Let_def)

lemma lru_set_max_size [simp]: "max_size (lru_set c k v) = max_size c"
  by (simp add: lru_set_def Let_def)

lemma lru_inv_get [simp]: "lru_inv c \<Longrightarrow> lru_inv (snd (lru_get c k))"
  by (auto simp: lru_inv_def lru_get_def Let_def length_move_to_end)

lemma lru_inv_set [simp]: "lru_inv c \<Longrightarrow> lru_inv (lru_set c k v)"
proof -
  assume inv: "lru_inv c"
  let ?ks = "removeAll k (lru_keys c) @ [k]"
  from inv have d: "distinct ?ks"
    by (auto simp: lru_inv_def distinct_removeAll)
  have "length (removeAll k (lru_keys c)) \<le> length (lru_keys c)"
    unfolding removeAll_filter_not_eq by (rule length_filter_le)
  then have "int (length (removeAll k (lru_keys c))) \<le> max 0 (max_size c)"
    using inv by (simp add: lru_inv_def del: removeAll_filter_not_eq)
  then have "distinct (lru_keys (lru_set c k v)) \<and> int (length (lru_keys (lru_set c k v))) \<le> max 0 (max_size c)"
    using d distinct_tl [OF d] by (auto simp: lru_set_keys Let_def)
  then show ?thesis
    by (simp add: lru_inv_def)
qed

section \<open>Lookup after a write\<close>

lemma map_of_tl: "dict_ok d \<Longrightarrow> map_of (tl d) k = (if d \<noteq> [] \<and> k = fst (hd d) then None else map_of d k)"
  by (cases d) (auto simp: map_of_eq_None_iff)

lemma dict_ok_lru_stored: "lru_inv c \<Longrightarrow> dict_ok (lru_stored c k v)"
  by (simp only: lru_stored_keys) (simp add: lru_inv_def distinct_removeAll)

lemma lru_set_lookup_same:
  assumes "lru_inv c" and "1 \<le> max_size c"
  shows "lru_lookup (lru_set c k v) k = Some v"
proof (cases "int (length (lru_stored c k v)) > max_size c")
  case True
  with assms(2) have "removeAll k (lru_keys c) \<noteq> []"
    by (auto simp: length_lru_stored)
  then obtain k0 ks where rm: "removeAll k (lru_keys c) = k0 # ks"
    by (cases "removeAll k (lru_keys c)") auto
  from arg_cong [OF this, of set] have "k0 \<noteq> k"
    by auto
  then have "fst (hd (lru_stored c k v)) \<noteq> k"
    using rm lru_stored_keys [of c k v] by (cases "lru_stored c k v") auto
  with True show ?thesis
    by (simp add: lru_set_stored map_of_tl dict_ok_lru_stored assms(1) lru_stored_get)
qed (simp add: lru_set_stored lru_stored_get)

lemma lru_set_lookup_other:
  assumes "lru_inv c" and "k' \<noteq> k"
  shows "lru_lookup (lru_set c k v) k' = lru_lookup c k' \<or> lru_lookup (lru_set c k v) k' = None"
  using assms by (simp add: lru_set_stored map_of_tl dict_ok_lru_stored lru_stored_get)

section \<open>The contract of a bounded cache\<close>

locale lru_cache =
  fixes get :: "'c \<Rightarrow> 'k \<Rightarrow> 'v option \<times> 'c"
    and put :: "'c \<Rightarrow> 'k \<Rightarrow> 'v \<Rightarrow> 'c"
    and look :: "'c \<Rightarrow> 'k \<Rightarrow> 'v option"
    and ok :: "'c \<Rightarrow> bool"
  assumes get_value: "fst (get c k) = look c k"
    and get_frame: "look (snd (get c k)) k' = look c k'"
    and put_other: "ok c \<Longrightarrow> k' \<noteq> k \<Longrightarrow> look (put c k v) k' = look c k' \<or> look (put c k v) k' = None"
    and put_same: "ok c \<Longrightarrow> look (put c k v) k = Some v"
    and ok_get: "ok c \<Longrightarrow> ok (snd (get c k))"
    and ok_put: "ok c \<Longrightarrow> ok (put c k v)"
begin

text \<open>
  The use both clients make of it: look a value up and create it when it is missing
  (\<open>get_or_make\<close>). The result is the cached value or the fresh one, the key is cached afterwards,
  and no other key gets a new value.
\<close>

definition get_or_make :: "'v \<Rightarrow> 'c \<Rightarrow> 'k \<Rightarrow> 'v \<times> 'c" where
  "get_or_make new c k =
     (case get c k of (Some v, c') \<Rightarrow> (v, c') | (None, c') \<Rightarrow> (new, put c' k new))"

lemma get_or_make_value:
  "fst (get_or_make new c k) = (case look c k of None \<Rightarrow> new | Some v \<Rightarrow> v)"
  using get_value [of c k]
  by (auto simp: get_or_make_def split: prod.splits option.splits)

lemma get_or_make_cached:
  assumes "ok c"
  shows "look (snd (get_or_make new c k)) k = Some (fst (get_or_make new c k))"
proof (cases "get c k")
  case (Pair r c')
  then have "ok c'" and "look c' k = look c k" and "look c k = r"
    using ok_get [OF assms, of k] get_frame [of c k k] get_value [of c k] by simp_all
  then show ?thesis
    by (cases r) (simp_all add: get_or_make_def Pair put_same)
qed

lemma get_or_make_other:
  assumes "ok c" and "k' \<noteq> k"
  shows "look (snd (get_or_make new c k)) k' \<in> {look c k', None}"
proof (cases "get c k")
  case (Pair r c')
  then have "ok c'" and fr: "look c' k' = look c k'"
    using ok_get [OF assms(1), of k] get_frame [of c k k'] by simp_all
  then show ?thesis
    using put_other [OF \<open>ok c'\<close> assms(2), of new] by (cases r) (auto simp: get_or_make_def Pair fr)
qed

lemma get_or_make_ok: "ok c \<Longrightarrow> ok (snd (get_or_make new c k))"
  using ok_get [of c k] by (auto simp: get_or_make_def ok_put split: prod.splits option.splits)

end

text \<open>The dictionary of \<open>util.py\<close> meets the contract when its cap is at least one.\<close>

definition lru_ok :: "('k, 'v) lru \<Rightarrow> bool" where
  "lru_ok c \<longleftrightarrow> lru_inv c \<and> 1 \<le> max_size c"

interpretation lru: lru_cache lru_get lru_set lru_lookup lru_ok
  by unfold_locales (auto simp: lru_ok_def lru_set_lookup_same dest: lru_set_lookup_other)

section \<open>Which keys survive\<close>

text \<open>
  The keys, after any sequence of writes, are the \<open>max_size\<close> most recently written distinct ones.
\<close>

fun lru_sets :: "('k, 'v) lru \<Rightarrow> ('k \<times> 'v) list \<Rightarrow> ('k, 'v) lru" where
  "lru_sets c [] = c"
| "lru_sets c ((k, v) # kvs) = lru_sets (lru_set c k v) kvs"

definition last_n :: "nat \<Rightarrow> 'a list \<Rightarrow> 'a list" where
  "last_n n xs = drop (length xs - n) xs"

lemma lru_sets_append: "lru_sets c (xs @ ys) = lru_sets (lru_sets c xs) ys"
  by (induction c xs rule: lru_sets.induct) auto

lemma lru_sets_max_size [simp]: "max_size (lru_sets c kvs) = max_size c"
  by (induction c kvs rule: lru_sets.induct) auto

lemma remdups_snoc: "remdups (xs @ [x]) = removeAll x (remdups xs) @ [x]"
  by (induction xs) auto

lemma last_n_append: "length s = n \<Longrightarrow> last_n n (p @ s) = s"
  by (simp add: last_n_def)

lemma last_n_short: "length s \<le> n \<Longrightarrow> last_n n s = s"
  by (simp add: last_n_def)

text \<open>A list splits at its last \<open>n\<close> elements; the front is empty when there are fewer.\<close>

lemma last_n_split:
  obtains pre where "xs = pre @ last_n n xs" and "pre = [] \<or> length (last_n n xs) = n"
    and "length (last_n n xs) \<le> n"
  by (rule that [of "take (length xs - n) xs"]) (auto simp: last_n_def)

lemma last_n_removeAll_snoc:
  assumes "distinct xs" and "0 < n"
  shows "last_n n (removeAll x xs @ [x]) =
    (let ks = removeAll x (last_n n xs) @ [x] in if length ks > n then tl ks else ks)"
proof -
  define suf where "suf = last_n n xs"
  obtain pre where xs: "xs = pre @ suf" and full: "pre = [] \<or> length suf = n" and le: "length suf \<le> n"
    using last_n_split [of xs n] by (auto simp: suf_def)
  show ?thesis
  proof (cases "x \<in> set suf")
    case True
    with assms(1) xs have pre: "removeAll x pre = pre" and len: "Suc (length (removeAll x suf)) = length suf"
      by (auto intro!: length_removeAll_distinct removeAll_id)
    have "last_n n (pre @ (removeAll x suf @ [x])) = removeAll x suf @ [x]"
      using full le len last_n_append [of "removeAll x suf @ [x]" n pre] last_n_short [of "removeAll x suf @ [x]" n]
      by auto
    with len le pre show ?thesis
      unfolding suf_def [symmetric] by (simp add: xs Let_def)
  next
    case False
    then have rm: "removeAll x suf = suf" by simp
    show ?thesis
    proof (cases "length suf < n")
      case True
      with full have "pre = []" by auto
      with True rm show ?thesis
        unfolding suf_def [symmetric] by (simp add: xs Let_def last_n_short)
    next
      case ge: False
      with le have l: "length suf = n" by simp
      with assms(2) obtain y ys where suf: "suf = y # ys" by (cases suf) auto
      have "last_n n ((removeAll x pre @ [y]) @ (ys @ [x])) = ys @ [x]"
        using l suf by (intro last_n_append) simp
      with l rm suf show ?thesis
        unfolding suf_def [symmetric] by (simp add: xs Let_def)
    qed
  qed
qed

lemma lru_sets_keys:
  assumes "0 < max_size (c :: ('k, 'v) lru)" and "entries c = []"
  shows "lru_keys (lru_sets c kvs) = last_n (nat (max_size c)) (remdups (map fst kvs))"
proof (induction kvs rule: rev_induct)
  case Nil
  from assms(2) show ?case
    by (simp add: last_n_def)
next
  case (snoc kv kvs)
  obtain k v where [simp]: "kv = (k, v)" by fastforce
  have gt: "(int n > max_size c) = (n > nat (max_size c))" for n
    using assms(1) by linarith
  have "lru_keys (lru_sets c (kvs @ [kv])) =
      (let ks = removeAll k (last_n (nat (max_size c)) (remdups (map fst kvs))) @ [k]
       in if length ks > nat (max_size c) then tl ks else ks)"
    by (simp only: lru_sets_append \<open>kv = (k, v)\<close> lru_sets.simps lru_set_keys snoc.IH gt lru_sets_max_size)
  also have "\<dots> = last_n (nat (max_size c)) (removeAll k (remdups (map fst kvs)) @ [k])"
    using assms(1) by (subst last_n_removeAll_snoc) auto
  finally show ?case
    by (simp add: remdups_snoc)
qed

lemma lru_sets_inv: "lru_inv c \<Longrightarrow> lru_inv (lru_sets c kvs)"
  by (induction c kvs rule: lru_sets.induct) auto

lemma lru_sets_lookup:
  assumes "lru_inv c" and "entries c = []" and "1 \<le> max_size c"
  shows "lru_lookup (lru_sets c kvs) k = None \<or> lru_lookup (lru_sets c kvs) k = map_of (rev kvs) k"
proof (induction kvs rule: rev_induct)
  case (snoc kv kvs)
  obtain k' v where kv: "kv = (k', v)" by fastforce
  let ?c = "lru_sets c kvs"
  have "lru_inv ?c" and "1 \<le> max_size ?c"
    using assms by (simp_all add: lru_sets_inv)
  then show ?case
    using snoc lru_set_lookup_same [of ?c k' v] lru_set_lookup_other [of ?c k k' v]
    by (auto simp: kv lru_sets_append)
qed (simp add: assms(2))

text \<open>
  The cache is an LRU cache: after any sequence of writes it holds the last \<open>max_size\<close> distinct keys, in the order of
  their last write, each with the value written last.
\<close>

lemma lru_keeps_recent:
  assumes "0 < n"
  shows "lru_keys (lru_sets (lru_init n) kvs) = last_n (nat n) (remdups (map fst kvs))
    \<and> (\<forall>k \<in> set (lru_keys (lru_sets (lru_init n) kvs)). lru_lookup (lru_sets (lru_init n) kvs) k = map_of (rev kvs) k)"
proof
  show "lru_keys (lru_sets (lru_init n) kvs) = last_n (nat n) (remdups (map fst kvs))"
    using lru_sets_keys [of "lru_init n" kvs] assms by (simp add: lru_init_def)
  have "lru_lookup (lru_sets (lru_init n) kvs) k = None \<or> lru_lookup (lru_sets (lru_init n) kvs) k = map_of (rev kvs) k" for k
    using assms by (intro lru_sets_lookup) (simp_all add: lru_init_def lru_inv_def)
  then show "\<forall>k \<in> set (lru_keys (lru_sets (lru_init n) kvs)). lru_lookup (lru_sets (lru_init n) kvs) k = map_of (rev kvs) k"
    unfolding set_map using dict_mem_iff by metis
qed

end
