(* ===== verification/Rate_Limit.thy ===== *)
theory Rate_Limit
  imports Bounded_LRU
begin

text \<open>
  \<open>tools/ratelimit.py\<close>: refilling token buckets, one per \<open>(user_id, tool_name)\<close>, kept in a bounded
  LRU dictionary. \<open>time.monotonic()\<close> is the argument \<open>now\<close>. A bucket is a mutable object: the
  state after \<open>try_consume\<close> is written back in place, and only when the dictionary still holds it
  (with a cap below one the entry is gone as soon as it was stored).
\<close>

section \<open>One bucket\<close>

record bucket =
  capacity :: real
  refill_per_second :: real
  tokens :: real
  last_refill :: real

definition bucket_new :: "real \<Rightarrow> real \<Rightarrow> bucket" where
  "bucket_new capacity_per_minute now =
     \<lparr>capacity = capacity_per_minute, refill_per_second = capacity_per_minute / 60,
      tokens = capacity_per_minute, last_refill = now\<rparr>"

definition try_consume :: "bucket \<Rightarrow> real \<Rightarrow> real \<Rightarrow> bool \<times> bucket" where
  "try_consume b now amount =
     (let elapsed = now - last_refill b;
          b = (if elapsed > 0
               then b\<lparr>tokens := min (capacity b) (tokens b + elapsed * refill_per_second b), last_refill := now\<rparr>
               else b)
      in if tokens b \<ge> amount then (True, b\<lparr>tokens := tokens b - amount\<rparr>) else (False, b))"

definition bucket_inv :: "bucket \<Rightarrow> bool" where
  "bucket_inv b \<longleftrightarrow> 0 \<le> tokens b \<and> tokens b \<le> capacity b \<and> refill_per_second b = capacity b / 60"

lemma bucket_inv_new: "0 \<le> n \<Longrightarrow> bucket_inv (bucket_new n now)"
  by (simp add: bucket_inv_def bucket_new_def)

lemma try_consume_frame [simp]:
  "capacity (snd (try_consume b now a)) = capacity b"
  "refill_per_second (snd (try_consume b now a)) = refill_per_second b"
  "last_refill (snd (try_consume b now a)) = max (last_refill b) now"
  by (auto simp: try_consume_def Let_def)

lemma bucket_inv_consume: "bucket_inv b \<Longrightarrow> 0 \<le> a \<Longrightarrow> bucket_inv (snd (try_consume b now a))"
  by (auto simp: bucket_inv_def try_consume_def Let_def min_def)

text \<open>
  The potential of a bucket: what was admitted plus what is left never exceeds what was there plus
  what the elapsed time refills.
\<close>

lemma try_consume_potential:
  assumes "bucket_inv b"
  shows "(if fst (try_consume b now a) then a else 0) + tokens (snd (try_consume b now a))
       \<le> tokens b + refill_per_second b * (last_refill (snd (try_consume b now a)) - last_refill b)"
proof -
  have "now > last_refill b \<Longrightarrow> max (last_refill b) now = now"
    by simp
  moreover have "\<not> now > last_refill b \<Longrightarrow> max (last_refill b) now = last_refill b"
    by simp
  ultimately show ?thesis
    by (auto simp: try_consume_def Let_def min_def algebra_simps)
qed

text \<open>A rejected caller that waits for one refill interval is admitted.\<close>

lemma try_consume_after_wait:
  assumes inv: "bucket_inv b" and cap: "1 \<le> capacity b" and wait: "last_refill b + 60 / capacity b \<le> now"
  shows "fst (try_consume b now 1)"
proof -
  from cap have pos: "0 < 60 / capacity b" by simp
  with wait have el: "0 < now - last_refill b" by linarith
  have "1 = 60 / capacity b * (capacity b / 60)"
    using cap by simp
  also have "\<dots> \<le> (now - last_refill b) * (capacity b / 60)"
    using wait cap by (intro mult_right_mono) auto
  finally have "1 \<le> (now - last_refill b) * (capacity b / 60)" .
  moreover have "refill_per_second b = capacity b / 60" and "0 \<le> tokens b"
    using inv by (simp_all add: bucket_inv_def)
  ultimately have "1 \<le> tokens b + (now - last_refill b) * refill_per_second b"
    by (simp only:)
  with cap el show ?thesis
    by (simp add: try_consume_def Let_def)
qed

section \<open>The limiter\<close>

type_synonym bucket_key = "pystr \<times> pystr"
type_synonym limiter = "(bucket_key, bucket) lru"

text \<open>Mutation of a stored bucket object.\<close>

definition bucket_store :: "limiter \<Rightarrow> bucket_key \<Rightarrow> bucket \<Rightarrow> limiter" where
  "bucket_store c k b = (if lru_contains c k then c\<lparr>entries := dict_set k b (entries c)\<rparr> else c)"

definition try_acquire :: "limiter \<Rightarrow> pystr \<Rightarrow> pystr \<Rightarrow> int \<Rightarrow> real \<Rightarrow> bool \<times> limiter" where
  "try_acquire rl user_id tool per_minute now =
     (if per_minute \<le> 0 then (False, rl)
      else let key = (user_id, tool);
               (bucket, rl) = lru_get rl key;
               (bucket, rl) = (case bucket of
                   None \<Rightarrow> let b = bucket_new (of_int per_minute) now in (b, lru_set rl key b)
                 | Some b \<Rightarrow> (b, rl));
               (ok, bucket) = try_consume bucket now 1
           in (ok, bucket_store rl key bucket))"

text \<open>The lookup-or-create step is the \<open>get_or_make\<close> of the cache contract.\<close>

lemma try_acquire_get_or_make:
  "0 < per_minute \<Longrightarrow> try_acquire rl u t per_minute now =
     (let (b, rl) = lru.get_or_make (bucket_new (of_int per_minute) now) rl (u, t);
          (ok, b) = try_consume b now 1
      in (ok, bucket_store rl (u, t) b))"
  by (auto simp: try_acquire_def lru.get_or_make_def Let_def split: prod.splits option.splits)

lemma bucket_store_lookup:
  "lru_lookup (bucket_store c k b) k' = (if k' = k \<and> lru_contains c k then Some b else lru_lookup c k')"
  by (auto simp: bucket_store_def lru_contains_def dict_simps)

lemma bucket_store_keys [simp]: "lru_keys (bucket_store c k b) = lru_keys c"
  by (simp add: bucket_store_def lru_contains_def dict_set_keys_present)

lemma bucket_store_max_size [simp]: "max_size (bucket_store c k b) = max_size c"
  by (simp add: bucket_store_def)

lemma length_bucket_store [simp]: "length (entries (bucket_store c k b)) = length (entries c)"
  by (metis bucket_store_keys length_map)

lemma lru_ok_bucket_store [simp]: "lru_ok c \<Longrightarrow> lru_ok (bucket_store c k b)"
  by (auto simp: lru_ok_def lru_inv_def)

text \<open>One call, seen through the keys: its own bucket is the old or a fresh one after \<open>try_consume\<close>.\<close>

definition bucket_for :: "limiter \<Rightarrow> bucket_key \<Rightarrow> int \<Rightarrow> real \<Rightarrow> bucket" where
  "bucket_for rl k per_minute now =
     (case lru_lookup rl k of None \<Rightarrow> bucket_new (of_int per_minute) now | Some b \<Rightarrow> b)"

lemma try_acquire_own:
  assumes "lru_ok rl" and "0 < per_minute"
  shows "fst (try_acquire rl u t per_minute now) = fst (try_consume (bucket_for rl (u, t) per_minute now) now 1)"
    and "lru_lookup (snd (try_acquire rl u t per_minute now)) (u, t)
       = Some (snd (try_consume (bucket_for rl (u, t) per_minute now) now 1))"
proof -
  let ?new = "bucket_new (of_int per_minute) now"
  have v: "fst (lru.get_or_make ?new rl (u, t)) = bucket_for rl (u, t) per_minute now"
    by (simp add: lru.get_or_make_value bucket_for_def)
  have c: "lru_contains (snd (lru.get_or_make ?new rl (u, t))) (u, t)"
    using lru.get_or_make_cached [OF assms(1), of ?new "(u, t)"] by (simp add: lru_contains_def)
  show "fst (try_acquire rl u t per_minute now) = fst (try_consume (bucket_for rl (u, t) per_minute now) now 1)"
    using v by (auto simp: try_acquire_get_or_make [OF assms(2)] Let_def split: prod.splits)
  show "lru_lookup (snd (try_acquire rl u t per_minute now)) (u, t)
      = Some (snd (try_consume (bucket_for rl (u, t) per_minute now) now 1))"
    using v c by (auto simp: try_acquire_get_or_make [OF assms(2)] bucket_store_lookup Let_def split: prod.splits)
qed

lemma try_acquire_other:
  assumes "lru_ok rl" and "k \<noteq> (u, t)"
  shows "lru_lookup (snd (try_acquire rl u t per_minute now)) k \<in> {lru_lookup rl k, None}"
proof (cases "0 < per_minute")
  case True
  show ?thesis
    using lru.get_or_make_other [OF assms, of "bucket_new (of_int per_minute) now"] assms(2)
    by (auto simp: try_acquire_get_or_make [OF True] bucket_store_lookup Let_def split: prod.splits)
qed (simp add: try_acquire_def)

lemma try_acquire_ok: "lru_ok rl \<Longrightarrow> lru_ok (snd (try_acquire rl u t per_minute now))"
proof (cases "0 < per_minute")
  case True
  assume "lru_ok rl"
  from lru.get_or_make_ok [OF this, of "bucket_new (of_int per_minute) now" "(u, t)"] show ?thesis
    by (auto simp: try_acquire_get_or_make [OF True] Let_def split: prod.splits)
qed (simp add: try_acquire_def)

lemma try_acquire_keys:
  "lru_keys (snd (try_acquire rl u t per_minute now)) =
     (if per_minute \<le> 0 then lru_keys rl
      else if (u, t) \<in> set (lru_keys rl) then removeAll (u, t) (lru_keys rl) @ [(u, t)]
      else lru_keys (lru_set rl (u, t) (bucket_new (of_int per_minute) now)))"
proof (cases "lru_lookup rl (u, t)")
  case None
  then have "(u, t) \<notin> set (lru_keys rl)" by (simp add: map_of_eq_None_iff)
  with None show ?thesis
    by (auto simp: try_acquire_def lru_get_def Let_def split: prod.splits)
next
  case (Some b)
  then have "(u, t) \<in> set (lru_keys rl)"
    by (auto dest: map_of_SomeD intro: rev_image_eqI)
  with Some lru_get_keys [of rl "(u, t)"] show ?thesis
    by (auto simp: try_acquire_def Let_def split: prod.splits option.splits)
      (simp_all add: lru_get_def Let_def)
qed

lemma try_acquire_max_size [simp]: "max_size (snd (try_acquire rl u t per_minute now)) = max_size rl"
  by (auto simp: try_acquire_def Let_def lru_get_def split: prod.splits option.splits)

section \<open>Runs of calls\<close>

record call_attempt =
  at_user :: pystr
  at_tool :: pystr
  at_limit :: int
  at_time :: real

fun limiter_run :: "limiter \<Rightarrow> call_attempt list \<Rightarrow> bool list \<times> limiter" where
  "limiter_run rl [] = ([], rl)"
| "limiter_run rl (a # as) =
     (let (ok, rl) = try_acquire rl (at_user a) (at_tool a) (at_limit a) (at_time a);
          (oks, rl) = limiter_run rl as
      in (ok # oks, rl))"

definition at_key :: "call_attempt \<Rightarrow> bucket_key" where
  "at_key a = (at_user a, at_tool a)"

text \<open>How many calls under a key were admitted.\<close>

fun admitted :: "bucket_key \<Rightarrow> call_attempt list \<Rightarrow> bool list \<Rightarrow> nat" where
  "admitted k (a # as) (ok # oks) = (if at_key a = k \<and> ok then 1 else 0) + admitted k as oks"
| "admitted k _ _ = 0"

text \<open>No bucket is evicted while the callers use at most \<open>max_size\<close> distinct keys.\<close>

lemma try_acquire_no_eviction:
  assumes ok: "lru_ok rl" and sub: "insert (u, t) (set (lru_keys rl)) \<subseteq> K"
    and fin: "finite K" and card: "int (card K) \<le> max_size rl"
  shows "set (lru_keys (snd (try_acquire rl u t n now))) \<subseteq> K"
    and "k \<noteq> (u, t) \<Longrightarrow> lru_lookup (snd (try_acquire rl u t n now)) k = lru_lookup rl k"
proof -
  have rm: "removeAll (u, t) (lru_keys rl) = lru_keys rl" if "(u, t) \<notin> set (lru_keys rl)"
    using that by simp
  have small: "\<not> int (length (removeAll (u, t) (lru_keys rl) @ [(u, t)])) > max_size rl"
  proof -
    have "distinct (removeAll (u, t) (lru_keys rl) @ [(u, t)])"
      using ok by (auto simp: lru_ok_def lru_inv_def distinct_removeAll)
    then have "length (removeAll (u, t) (lru_keys rl) @ [(u, t)]) \<le> card K"
      using sub by (subst distinct_card [symmetric]) (auto intro!: card_mono [OF fin])
    with card show ?thesis by linarith
  qed
  then have set_keys: "lru_keys (lru_set rl (u, t) b) = removeAll (u, t) (lru_keys rl) @ [(u, t)]" for b
    by (simp only: lru_set_keys Let_def if_False)
  show "set (lru_keys (snd (try_acquire rl u t n now))) \<subseteq> K"
    using sub by (auto simp: try_acquire_keys set_keys)
  assume k: "k \<noteq> (u, t)"
  show "lru_lookup (snd (try_acquire rl u t n now)) k = lru_lookup rl k"
  proof (cases "k \<in> set (lru_keys rl)")
    case True
    then have "k \<in> set (lru_keys (snd (try_acquire rl u t n now)))"
      using k by (auto simp: try_acquire_keys set_keys)
    then have "lru_lookup (snd (try_acquire rl u t n now)) k \<noteq> None"
      by (simp add: map_of_eq_None_iff)
    with try_acquire_other [OF ok k, of n now] show ?thesis
      by (metis insertE singletonD)
  next
    case False
    then have "lru_lookup rl k = None"
      by (simp add: map_of_eq_None_iff)
    with try_acquire_other [OF ok k, of n now] show ?thesis
      by simp
  qed
qed

text \<open>
  The invariant of a run, for one key with limit \<open>n\<close>: its bucket, if there is one, is well formed
  and was last refilled between the first and the last time of the run.
\<close>

definition key_inv :: "limiter \<Rightarrow> bucket_key \<Rightarrow> int \<Rightarrow> real \<Rightarrow> real \<Rightarrow> bool" where
  "key_inv rl k n t0 t1 \<longleftrightarrow>
     (case lru_lookup rl k of None \<Rightarrow> True
      | Some b \<Rightarrow> bucket_inv b \<and> capacity b = of_int n \<and> t0 \<le> last_refill b \<and> last_refill b \<le> t1)"

definition key_credit :: "limiter \<Rightarrow> bucket_key \<Rightarrow> int \<Rightarrow> real \<Rightarrow> real \<Rightarrow> real" where
  "key_credit rl k n t0 t1 =
     (case lru_lookup rl k of None \<Rightarrow> of_int n + of_int n / 60 * (t1 - t0)
      | Some b \<Rightarrow> tokens b + of_int n / 60 * (t1 - last_refill b))"

lemma key_credit_nonneg: "0 < n \<Longrightarrow> t0 \<le> t1 \<Longrightarrow> key_inv rl k n t0 t1 \<Longrightarrow> 0 \<le> key_credit rl k n t0 t1"
  by (auto simp: key_credit_def key_inv_def bucket_inv_def split: option.splits)

lemma try_acquire_credit:
  assumes ok: "lru_ok rl" and n: "0 < n" and inv: "key_inv rl (u, t) n t0 t1" and "t0 \<le> now" "now \<le> t1"
  shows "key_inv (snd (try_acquire rl u t n now)) (u, t) n t0 t1"
    and "of_bool (fst (try_acquire rl u t n now)) + key_credit (snd (try_acquire rl u t n now)) (u, t) n t0 t1
       \<le> key_credit rl (u, t) n t0 t1"
proof -
  define b where "b = bucket_for rl (u, t) n now"
  have binv: "bucket_inv b" and cap: "capacity b = of_int n" and lr: "t0 \<le> last_refill b" "last_refill b \<le> t1"
    using inv n assms(4,5) bucket_inv_new [of "of_int n" now]
    by (auto simp: b_def bucket_for_def key_inv_def bucket_new_def split: option.splits)
  note own = try_acquire_own [OF ok n, of u t now, folded b_def]
  show "key_inv (snd (try_acquire rl u t n now)) (u, t) n t0 t1"
    using own(2) bucket_inv_consume [OF binv, of 1 now] cap lr assms(4,5) by (simp add: key_inv_def)
  have ref: "refill_per_second b = of_int n / 60"
    using binv cap by (simp add: bucket_inv_def)
  have "tokens b + of_int n / 60 * (t1 - last_refill b) \<le> key_credit rl (u, t) n t0 t1"
    using n lr assms(4,5)
    by (auto simp: key_credit_def b_def bucket_for_def bucket_new_def divide_right_mono mult_left_mono split: option.splits)
  moreover have "of_bool (fst (try_consume b now 1)) + tokens (snd (try_consume b now 1))
      \<le> tokens b + of_int n / 60 * (max (last_refill b) now - last_refill b)"
    using try_consume_potential [OF binv, of now 1] by (simp add: ref split: if_splits)
  moreover have "of_int n / 60 * (max (last_refill b) now - last_refill b) + of_int n / 60 * (t1 - max (last_refill b) now)
      = of_int n / 60 * (t1 - last_refill b)"
    by (simp only: distrib_left [symmetric]) simp
  moreover have "key_credit (snd (try_acquire rl u t n now)) (u, t) n t0 t1
      = tokens (snd (try_consume b now 1)) + of_int n / 60 * (t1 - max (last_refill b) now)"
    using own(2) by (simp add: key_credit_def)
  ultimately show "of_bool (fst (try_acquire rl u t n now)) + key_credit (snd (try_acquire rl u t n now)) (u, t) n t0 t1
       \<le> key_credit rl (u, t) n t0 t1"
    unfolding own(1) by linarith
qed

lemma limiter_run_credit:
  assumes "lru_ok rl" and "set (lru_keys rl) \<union> at_key ` set as \<subseteq> K" and "finite K"
    and "int (card K) \<le> max_size rl" and "0 < n"
    and "\<forall>a \<in> set as. t0 \<le> at_time a \<and> at_time a \<le> t1 \<and> (at_key a = k \<longrightarrow> at_limit a = n)"
    and "key_inv rl k n t0 t1" and "t0 \<le> t1"
  shows "real (admitted k as (fst (limiter_run rl as))) \<le> key_credit rl k n t0 t1"
  using assms
proof (induction as arbitrary: rl)
  case Nil
  then show ?case by (simp add: key_credit_nonneg)
next
  case (Cons a as)
  define r where "r = try_acquire rl (at_user a) (at_tool a) (at_limit a) (at_time a)"
  have run: "limiter_run rl (a # as) = (fst r # fst (limiter_run (snd r) as), snd (limiter_run (snd r) as))"
    by (simp add: r_def Let_def split: prod.splits)
  have sub: "insert (at_user a, at_tool a) (set (lru_keys rl)) \<subseteq> K"
    using Cons.prems(2) by (auto simp: at_key_def)
  note noev = try_acquire_no_eviction [OF Cons.prems(1) sub Cons.prems(3,4),
      where n = "at_limit a" and now = "at_time a", folded r_def]
  have ok: "lru_ok (snd r)" and ms: "max_size (snd r) = max_size rl"
    using try_acquire_ok [OF Cons.prems(1)] by (simp_all add: r_def)
  have step: "key_inv (snd r) k n t0 t1 \<and>
      (if at_key a = k \<and> fst r then 1 else 0) + key_credit (snd r) k n t0 t1 \<le> key_credit rl k n t0 t1"
  proof (cases "at_key a = k")
    case True
    with Cons.prems(6) have rl: "at_limit a = n" and k: "k = (at_user a, at_tool a)"
      by (auto simp: at_key_def)
    have "key_inv rl (at_user a, at_tool a) n t0 t1"
      using Cons.prems(7) k by simp
    from try_acquire_credit [OF Cons.prems(1,5) this, of "at_time a"] Cons.prems(6) show ?thesis
      by (cases "fst r") (simp_all add: r_def rl k at_key_def)
  next
    case False
    then have "lru_lookup (snd r) k = lru_lookup rl k"
      by (intro noev(2)) (auto simp: at_key_def)
    with False Cons.prems(7) show ?thesis
      by (simp add: key_inv_def key_credit_def)
  qed
  have "real (admitted k as (fst (limiter_run (snd r) as))) \<le> key_credit (snd r) k n t0 t1"
    using Cons.prems ok ms noev(1) step by (intro Cons.IH) auto
  with step show ?case
    by (auto simp: run simp del: limiter_run.simps)
qed

section \<open>Eviction\<close>

lemma limiter_run_snoc: "snd (limiter_run rl (as @ [a])) =
    snd (try_acquire (snd (limiter_run rl as)) (at_user a) (at_tool a) (at_limit a) (at_time a))"
  by (induction as arbitrary: rl) (simp_all add: Let_def split_def)

lemma limiter_run_ok: "lru_ok rl \<Longrightarrow> lru_ok (snd (limiter_run rl as))"
  by (induction as rule: rev_induct) (simp_all add: limiter_run_snoc try_acquire_ok del: limiter_run.simps(2))

lemma limiter_run_max_size: "max_size (snd (limiter_run rl as)) = max_size rl"
  by (induction as rule: rev_induct) (simp_all add: limiter_run_snoc del: limiter_run.simps(2))

text \<open>The keys last used are the last of the dictionary; enough of them push out every other key.\<close>

lemma limiter_run_recent:
  assumes "lru_ok rl"
  shows "distinct (map at_key as) \<Longrightarrow> \<forall>a \<in> set as. 0 < at_limit a \<Longrightarrow> int (length as) \<le> max_size rl \<Longrightarrow>
    \<exists>pre. lru_keys (snd (limiter_run rl as)) = pre @ map at_key as"
proof (induction as rule: rev_induct)
  case Nil
  then show ?case by simp
next
  case (snoc a as)
  define r where "r = snd (limiter_run rl as)"
  from snoc obtain pre where pre: "lru_keys r = pre @ map at_key as"
    by (auto simp: r_def)
  have a: "at_key a = (at_user a, at_tool a)" "at_key a \<notin> set (map at_key as)" "\<not> at_limit a \<le> 0"
    using snoc.prems by (auto simp: at_key_def)
  have rm: "removeAll (at_key a) (lru_keys r) = removeAll (at_key a) pre @ map at_key as"
    using a(2) by (simp add: pre)
  have "int (length (map at_key as @ [at_key a])) \<le> max_size r"
    using snoc.prems(3) by (simp add: r_def limiter_run_max_size)
  then have "\<exists>pre'. lru_keys (lru_set r (at_key a) b) = pre' @ map at_key as @ [at_key a]" for b
    unfolding lru_set_keys rm by (cases "removeAll (at_key a) pre") (auto simp: Let_def)
  then show ?case
    using rm by (auto simp: limiter_run_snoc r_def [symmetric] try_acquire_keys a(1) [symmetric] a(3) simp del: limiter_run.simps(2) removeAll_append)
qed

lemma limiter_run_evicts:
  assumes "lru_ok rl" and "distinct (map at_key as)" and "\<forall>a \<in> set as. 0 < at_limit a \<and> at_key a \<noteq> k"
    and "int (length as) = max_size rl"
  shows "lru_lookup (snd (limiter_run rl as)) k = None"
proof -
  obtain pre where keys: "lru_keys (snd (limiter_run rl as)) = pre @ map at_key as"
    using limiter_run_recent [OF assms(1,2)] assms(3,4) by auto
  have "int (length (lru_keys (snd (limiter_run rl as)))) \<le> int (length as)"
    using limiter_run_ok [OF assms(1), of as] assms(1,4)
    by (simp add: lru_ok_def lru_inv_def limiter_run_max_size)
  then have "pre = []"
    unfolding keys by simp
  moreover have "k \<notin> set (map at_key as)"
    using assms(3) by auto
  ultimately have "k \<notin> set (lru_keys (snd (limiter_run rl as)))"
    unfolding keys by simp
  then show ?thesis
    by (simp add: map_of_eq_None_iff)
qed

text \<open>A caller who makes one allowed call to each of as many other pairs of user and tool as
  the limiter has room for pushes the exhausted bucket out, and is admitted at once with a full bucket.\<close>

lemma eviction_resets_limit:
  assumes "lru_ok rl" and "distinct (map at_key others)" and "int (length others) = max_size rl"
    and "\<forall>a \<in> set others. 0 < at_limit a \<and> at_key a \<noteq> (u, t)" and "1 \<le> n"
  shows "fst (try_acquire (snd (limiter_run rl others)) u t n now)
    \<and> lru_lookup (snd (try_acquire (snd (limiter_run rl others)) u t n now)) (u, t)
        = Some ((bucket_new (of_int n) now)\<lparr>tokens := of_int n - 1\<rparr>)"
proof -
  have "bucket_for (snd (limiter_run rl others)) (u, t) n now = bucket_new (of_int n) now"
    using limiter_run_evicts [OF assms(1,2,4,3)] by (simp add: bucket_for_def)
  moreover have "try_consume (bucket_new (of_int n) now) now 1 = (True, (bucket_new (of_int n) now)\<lparr>tokens := of_int n - 1\<rparr>)"
    using assms(5) by (simp add: try_consume_def bucket_new_def)
  ultimately show ?thesis
    using try_acquire_own [OF limiter_run_ok [OF assms(1), of others], of n u t now] assms(5) by simp
qed

end
