(* ===== verification/Retry.thy ===== *)
theory Retry
  imports Errors
begin

text \<open>
  \<open>retry.py\<close>: retry of background store writes. An operation is a function of the state it acts on,
  returning the state it leaves (a failed attempt may have changed it) and a result; backend faults
  are decided by that state. \<open>rnd i\<close> is the sample of \<open>random.random()\<close> in \<open>[0, 1)\<close> that
  \<open>random.uniform\<close> draws for the delay after attempt \<open>i\<close>. The list of delays slept is part of the
  result. Cancellation during a sleep is not modelled; it ends the call like \<open>CancelledError\<close> from
  the operation.
\<close>

record retry_policy =
  max_retries :: int
  backoff_base_seconds :: real
  backoff_max_seconds :: real
  jitter_seconds :: real

definition default_retry_policy :: retry_policy where
  "default_retry_policy = \<lparr>max_retries = 3, backoff_base_seconds = 2 / 10,
     backoff_max_seconds = 5, jitter_seconds = 1 / 10\<rparr>"

definition default_retryable :: "exn \<Rightarrow> bool" where
  "default_retryable exc =
     (if is_control_flow exc then False
      else if is_harness_kit_error exc then False
      else case exc of LLMError retryable _ \<Rightarrow> retryable | _ \<Rightarrow> True)"

definition backoff_delay :: "real \<Rightarrow> nat \<Rightarrow> retry_policy \<Rightarrow> real" where
  "backoff_delay sample attempt policy =
     (let base_exp = backoff_base_seconds policy * 2 ^ attempt;
          jitter = 0 + (jitter_seconds policy - 0) * sample
      in min (base_exp + jitter) (backoff_max_seconds policy))"

type_synonym ('s, 'a) op = "'s \<Rightarrow> 's \<times> 'a res"

text \<open>
  The loop \<open>for attempt in range(policy.max_retries + 1)\<close>, with \<open>left\<close> iterations to go. A loop
  that runs out (only a negative \<open>max_retries\<close> does) falls through to \<open>raise None\<close>.
\<close>

fun retry_loop :: "retry_policy \<Rightarrow> (exn \<Rightarrow> bool) \<Rightarrow> (nat \<Rightarrow> real) \<Rightarrow> ('s, 'a) op \<Rightarrow> nat \<Rightarrow> nat \<Rightarrow> 's
    \<Rightarrow> 's \<times> 'a res \<times> real list" where
  "retry_loop policy is_retryable rnd op attempt 0 s =
     (s, Inl (TypeError (py ''exceptions must derive from BaseException'')), [])"
| "retry_loop policy is_retryable rnd op attempt (Suc left) s =
     (case op s of
        (s, Inr v) \<Rightarrow> (s, Inr v, [])
      | (s, Inl exc) \<Rightarrow>
          if int attempt \<ge> max_retries policy \<or> \<not> is_retryable exc then (s, Inl exc, [])
          else let delay = backoff_delay (rnd attempt) attempt policy;
                   (s, r, delays) = retry_loop policy is_retryable rnd op (Suc attempt) left s
               in (s, r, delay # delays))"

definition retry_async :: "retry_policy \<Rightarrow> (exn \<Rightarrow> bool) \<Rightarrow> (nat \<Rightarrow> real) \<Rightarrow> ('s, 'a) op \<Rightarrow> 's
    \<Rightarrow> 's \<times> 'a res \<times> real list" where
  "retry_async policy is_retryable rnd op s =
     retry_loop policy is_retryable rnd op 0 (nat (max_retries policy + 1)) s"

definition store_write :: "retry_policy \<Rightarrow> pystr \<Rightarrow> (nat \<Rightarrow> real) \<Rightarrow> ('s, 'a) op \<Rightarrow> 's
    \<Rightarrow> 's \<times> 'a res \<times> real list" where
  "store_write policy operation rnd op s =
     (case retry_async policy default_retryable rnd op s of
        (s, Inr v, delays) \<Rightarrow> (s, Inr v, delays)
      | (s, Inl exc, delays) \<Rightarrow>
          (s, Inl (if is_control_flow exc then exc else StoreWriteError operation), delays))"

section \<open>Attempts\<close>

text \<open>The state after \<open>n\<close> attempts, and the result of the next one.\<close>

fun after_attempts :: "('s, 'a) op \<Rightarrow> nat \<Rightarrow> 's \<Rightarrow> 's" where
  "after_attempts op 0 s = s"
| "after_attempts op (Suc n) s = after_attempts op n (fst (op s))"

definition attempt_result :: "('s, 'a) op \<Rightarrow> nat \<Rightarrow> 's \<Rightarrow> 'a res" where
  "attempt_result op n s = snd (op (after_attempts op n s))"

lemma attempt_result_0 [simp]: "attempt_result op 0 s = snd (op s)"
  by (simp add: attempt_result_def)

lemma attempt_result_Suc [simp]: "attempt_result op (Suc n) s = attempt_result op n (fst (op s))"
  by (simp add: attempt_result_def)

text \<open>An attempt that makes the loop go on: a retryable failure that is not the last one allowed.\<close>

definition goes_on :: "retry_policy \<Rightarrow> (exn \<Rightarrow> bool) \<Rightarrow> nat \<Rightarrow> 'a res \<Rightarrow> bool" where
  "goes_on policy is_retryable attempt r \<longleftrightarrow>
     (case r of Inr _ \<Rightarrow> False | Inl e \<Rightarrow> int attempt < max_retries policy \<and> is_retryable e)"

lemma retry_loop_step:
  "retry_loop policy isr rnd op attempt (Suc left) s =
     (if goes_on policy isr attempt (snd (op s))
      then let (s', r, ds) = retry_loop policy isr rnd op (Suc attempt) left (fst (op s))
           in (s', r, backoff_delay (rnd attempt) attempt policy # ds)
      else (fst (op s), snd (op s), []))"
  by (auto simp: goes_on_def Let_def split: prod.splits sum.splits)

declare retry_loop.simps(2) [simp del]

text \<open>
  What the loop does, in one statement: it makes some number \<open>n\<close> of attempts after the first, each
  preceded by a retryable failure, and returns the result and the state of the last one.
\<close>

lemma retry_loop_attempts:
  assumes "int (attempt + left) = max_retries policy + 1" and "0 < left"
  shows "\<exists>n. n < left
     \<and> (\<forall>i < n. goes_on policy isr (attempt + i) (attempt_result op i s))
     \<and> \<not> goes_on policy isr (attempt + n) (attempt_result op n s)
     \<and> retry_loop policy isr rnd op attempt left s =
         (after_attempts op (Suc n) s, attempt_result op n s,
          map (\<lambda>i. backoff_delay (rnd i) i policy) [attempt ..< attempt + n])"
  using assms
proof (induction left arbitrary: attempt s)
  case 0
  then show ?case by simp
next
  case (Suc left)
  show ?case
  proof (cases "goes_on policy isr attempt (snd (op s))")
    case False
    then show ?thesis
      by (intro exI [of _ 0]) (simp add: retry_loop_step)
  next
    case True
    then have "int attempt < max_retries policy"
      by (auto simp: goes_on_def split: sum.splits)
    with Suc.prems have "int (Suc attempt + left) = max_retries policy + 1" and "0 < left"
      by auto
    from Suc.IH [OF this, of "fst (op s)"] obtain n where n: "n < left"
      "\<forall>i < n. goes_on policy isr (Suc attempt + i) (attempt_result op i (fst (op s)))"
      "\<not> goes_on policy isr (Suc attempt + n) (attempt_result op n (fst (op s)))"
      "retry_loop policy isr rnd op (Suc attempt) left (fst (op s)) =
         (after_attempts op (Suc n) (fst (op s)), attempt_result op n (fst (op s)),
          map (\<lambda>i. backoff_delay (rnd i) i policy) [Suc attempt ..< Suc attempt + n])"
      by blast
    have "\<forall>i < Suc n. goes_on policy isr (attempt + i) (attempt_result op i s)"
      using True n(2) by (auto simp: less_Suc_eq_0_disj)
    moreover have "[attempt ..< attempt + Suc n] = attempt # [Suc attempt ..< Suc attempt + n]"
      by (simp add: upt_conv_Cons del: upt_Suc)
    ultimately show ?thesis
      using True n by (intro exI [of _ "Suc n"]) (simp add: retry_loop_step del: upt_Suc)
  qed
qed

lemma retry_async_attempts:
  assumes "0 \<le> max_retries policy"
  obtains n where "int n \<le> max_retries policy"
    and "\<forall>i < n. goes_on policy isr i (attempt_result op i s)"
    and "\<not> goes_on policy isr n (attempt_result op n s)"
    and "retry_async policy isr rnd op s =
         (after_attempts op (Suc n) s, attempt_result op n s, map (\<lambda>i. backoff_delay (rnd i) i policy) [0 ..< n])"
proof -
  have "int (0 + nat (max_retries policy + 1)) = max_retries policy + 1" and "0 < nat (max_retries policy + 1)"
    using assms by auto
  from retry_loop_attempts [OF this, of isr op s rnd] obtain n where n: "n < nat (max_retries policy + 1)"
    "\<forall>i < n. goes_on policy isr i (attempt_result op i s)" "\<not> goes_on policy isr n (attempt_result op n s)"
    "retry_async policy isr rnd op s =
         (after_attempts op (Suc n) s, attempt_result op n s, map (\<lambda>i. backoff_delay (rnd i) i policy) [0 ..< n])"
    by (auto simp: retry_async_def)
  show ?thesis
    using n(1) by (intro that [OF _ n(2-4)]) linarith
qed

lemma goes_on_control_flow: "is_control_flow e \<Longrightarrow> \<not> goes_on policy default_retryable i (Inl e)"
  by (simp add: goes_on_def default_retryable_def)

lemma backoff_delay_le: "backoff_delay x i policy \<le> backoff_max_seconds policy"
  by (simp add: backoff_delay_def Let_def)

lemma backoff_delay_nonneg:
  "0 \<le> x \<Longrightarrow> 0 \<le> backoff_base_seconds policy \<Longrightarrow> 0 \<le> jitter_seconds policy \<Longrightarrow> 0 \<le> backoff_max_seconds policy
    \<Longrightarrow> 0 \<le> backoff_delay x i policy"
  by (simp add: backoff_delay_def Let_def)

end
