(* ===== verification/World.thy ===== *)
theory World
  imports Effects LLM_Types Session_Store Profile_Store Vector_Store Permission_Store Skill_Store Rate_Limit Retry
begin

text \<open>
  The state the services share: the stores (the in-memory adapters, the default of every backend), the
  tool registry's rate limiter, and the clocks \<open>time.time()\<close> and \<open>time.monotonic()\<close>. The record is extensible, so that a deployment's own state (that of its tools
  and of the services it calls) is the type variable of the scheme. The operations of the stores become
  effects on it; they read the clocks, which only external services advance.
\<close>

record world =
  w_now :: real
  w_sessions :: session_store
  w_profiles :: profile_store
  w_vectors :: vector_store
  w_perms :: perm_store
  w_skills :: skill_store
  w_monotonic :: real
  w_limiter :: limiter

type_synonym ('x, 'a) wio = "('x world_scheme, 'a) io"

definition session_load :: "pystr \<Rightarrow> pystr \<Rightarrow> ('x, session_state option) wio" where
  "session_load conversation_id user_id w =
     (case ss_load (w_sessions w) conversation_id user_id (w_now w) of (r, s) \<Rightarrow> (w\<lparr>w_sessions := s\<rparr>, r))"

definition session_save :: "pystr \<Rightarrow> session_state \<Rightarrow> ('x, unit) wio" where
  "session_save conversation_id state w =
     (w\<lparr>w_sessions := ss_save (w_sessions w) conversation_id state (w_now w)\<rparr>, Inr ())"

definition session_append :: "pystr \<Rightarrow> turn \<Rightarrow> ('x, unit) wio" where
  "session_append conversation_id turn w =
     (case ss_append_turn (w_sessions w) conversation_id turn (w_now w) of (r, s) \<Rightarrow> (w\<lparr>w_sessions := s\<rparr>, r))"

definition session_mark :: "pystr \<Rightarrow> ('x, unit) wio" where
  "session_mark conversation_id w =
     (w\<lparr>w_sessions := ss_mark_finalized (w_sessions w) conversation_id (w_now w)\<rparr>, Inr ())"

definition session_due :: "real \<Rightarrow> ('x, (pystr \<times> pystr) list) wio" where
  "session_due idle_s w = (w, Inr (ss_due_for_finalize (w_sessions w) idle_s (w_now w)))"

definition profile_get :: "pystr \<Rightarrow> ('x, user_profile) wio" where
  "profile_get user_id w =
     (case pr_get (w_profiles w) user_id (w_now w) of (p, s) \<Rightarrow> (w\<lparr>w_profiles := s\<rparr>, Inr p))"

definition profile_upsert :: "pystr \<Rightarrow> payload \<Rightarrow> ('x, unit) wio" where
  "profile_upsert user_id new_facts w =
     (w\<lparr>w_profiles := pr_upsert_facts (w_profiles w) user_id new_facts (w_now w)\<rparr>, Inr ())"

definition profile_forget :: "pystr \<Rightarrow> pystr list \<Rightarrow> ('x, unit) wio" where
  "profile_forget user_id keys w =
     (w\<lparr>w_profiles := pr_forget_facts (w_profiles w) user_id keys (w_now w)\<rparr>, Inr ())"

definition vectors_add :: "memory_point list \<Rightarrow> ('x, unit) wio" where
  "vectors_add points w = (w\<lparr>w_vectors := vs_add (w_vectors w) points\<rparr>, Inr ())"

definition vectors_search :: "numpy \<Rightarrow> pystr \<Rightarrow> real list \<Rightarrow> int \<Rightarrow> real \<Rightarrow> ('x, memory_hit list) wio" where
  "vectors_search np user_id vector k min_score w = (w, Inr (vs_search np (w_vectors w) user_id vector k min_score))"

definition vectors_delete :: "pystr list \<Rightarrow> pystr \<Rightarrow> ('x, unit) wio" where
  "vectors_delete point_ids user_id w = (w\<lparr>w_vectors := vs_delete (w_vectors w) point_ids user_id\<rparr>, Inr ())"

definition permissions_allowed :: "pystr \<Rightarrow> ('x, pystr set) wio" where
  "permissions_allowed user_id w = (w, Inr (pm_allowed_tools (w_perms w) user_id))"

definition permissions_extend :: "pystr set \<Rightarrow> ('x, unit) wio" where
  "permissions_extend names w = (w\<lparr>w_perms := pm_extend_default_allowed (w_perms w) names\<rparr>, Inr ())"

definition skills_allowed :: "pystr \<Rightarrow> ('x, pystr set option) wio" where
  "skills_allowed user_id w = (w, Inr (sk_allowed_skills (w_skills w) user_id))"

lemmas world_ops =
  session_load_def session_save_def session_append_def session_mark_def session_due_def profile_get_def
  profile_upsert_def profile_forget_def vectors_add_def vectors_search_def vectors_delete_def
  permissions_allowed_def permissions_extend_def skills_allowed_def

text \<open>\<open>store_write\<close> of the memory layer, with the delays it slept left out of the result.\<close>

definition retried_write :: "retry_policy \<Rightarrow> (nat \<Rightarrow> real) \<Rightarrow> pystr \<Rightarrow> ('w, 'a) io \<Rightarrow> ('w, 'a) io" where
  "retried_write policy rnd operation op w =
     (case store_write policy operation rnd op w of (w', r, delays) \<Rightarrow> (w', r))"

text \<open>A write that succeeds at once is made once: the retry adds nothing.\<close>

lemma retried_write_ok:
  assumes "0 \<le> max_retries policy" and "op w = (w', Inr x)"
  shows "retried_write policy rnd operation op w = (w', Inr x)"
proof -
  have "nat (max_retries policy + 1) = Suc (nat (max_retries policy))"
    using assms(1) by auto
  then show ?thesis
    using assms(2) by (simp add: retried_write_def store_write_def retry_async_def retry_loop_step goes_on_def)
qed

text \<open>What loading a session does, in terms of the live session under the id.\<close>

lemma session_load_own [io_simps]:
  "ss_live (w_sessions w) (w_now w) c = Some st \<Longrightarrow> st_user_id st = u \<Longrightarrow> session_load c u w = (w, Inr (Some st))"
  by (auto simp: session_load_def ss_load_def ss_live_def split: option.splits if_splits)

lemma session_load_other [io_simps]:
  "ss_live (w_sessions w) (w_now w) c = Some st \<Longrightarrow> st_user_id st \<noteq> u \<Longrightarrow>
     session_load c u w = (w, Inl (unauthorized c u))"
  by (auto simp: session_load_def ss_load_def ss_live_def split: option.splits if_splits)

lemma session_load_none:
  "ss_live (w_sessions w) (w_now w) c = None \<Longrightarrow>
     session_load c u w = (w\<lparr>w_sessions := snd (ss_load (w_sessions w) c u (w_now w))\<rparr>, Inr None)"
  by (auto simp: session_load_def ss_load_def ss_live_def split: option.splits if_splits)

end
