(* ===== verification/Working_Memory.thy ===== *)
theory Working_Memory
  imports World Tokens Config
begin

text \<open>
  \<open>memory/working.py\<close>: the recent-turn buffer and the rolling summary of a conversation. The
  summarizer's \<open>invoke\<close> is an external service: given the messages, it acts on the world and returns
  the \<open>summary\<close> field of the parsed response, if there is one.
\<close>

record working_snapshot =
  sn_buffer :: "turn list"
  sn_summary :: pystr

record 'x working_memory =
  wm_cfg :: working_memory_config
  wm_llm :: "(message list \<Rightarrow> ('x, pystr option) wio) option"
  wm_estimate :: estimator
  wm_store_retry :: retry_policy
  wm_rnd :: "nat \<Rightarrow> real"

section \<open>Operations\<close>

definition wm_load :: "pystr \<Rightarrow> pystr \<Rightarrow> ('x, working_snapshot) wio" where
  "wm_load conversation_id user_id =
     seq (session_load conversation_id user_id) (\<lambda>state. case state of
         None \<Rightarrow> (\<lambda>w. let state = new_session user_id (w_now w)
            in seq (session_save conversation_id state)
                 (\<lambda>_. ret \<lparr>sn_buffer = working_buffer state, sn_summary = rolling_summary state\<rparr>) w)
       | Some state \<Rightarrow> ret \<lparr>sn_buffer = working_buffer state, sn_summary = rolling_summary state\<rparr>)"

definition wm_get_model_name :: "pystr \<Rightarrow> pystr \<Rightarrow> ('x, pystr option) wio" where
  "wm_get_model_name conversation_id user_id =
     seq (session_load conversation_id user_id)
       (\<lambda>state. ret (case state of None \<Rightarrow> None | Some state \<Rightarrow> model_name state))"

definition wm_peek :: "pystr \<Rightarrow> pystr \<Rightarrow> ('x, working_snapshot option) wio" where
  "wm_peek conversation_id user_id =
     seq (session_load conversation_id user_id) (\<lambda>state. ret (case state of
         None \<Rightarrow> None
       | Some state \<Rightarrow> Some \<lparr>sn_buffer = working_buffer state, sn_summary = rolling_summary state\<rparr>))"

definition wm_append_turn :: "pystr \<Rightarrow> turn \<Rightarrow> ('x, unit) wio" where
  "wm_append_turn conversation_id turn = session_append conversation_id turn"

definition wm_due_for_finalize :: "real \<Rightarrow> ('x, (pystr \<times> pystr) list) wio" where
  "wm_due_for_finalize idle_s = session_due idle_s"

definition wm_mark_finalized :: "'x working_memory \<Rightarrow> pystr \<Rightarrow> ('x, unit) wio" where
  "wm_mark_finalized m conversation_id =
     retried_write (wm_store_retry m) (wm_rnd m) (py ''working.mark_finalized'') (session_mark conversation_id)"

definition buffer_tokens :: "estimator \<Rightarrow> turn list \<Rightarrow> int" where
  "buffer_tokens est buffer = sum_list (map (\<lambda>t. est (turn_text t)) buffer)"

definition needs_rollover :: "estimator \<Rightarrow> working_memory_config \<Rightarrow> turn list \<Rightarrow> bool" where
  "needs_rollover est cfg buffer \<longleftrightarrow> buffer_tokens est buffer > wc_buffer_token_budget cfg"

text \<open>The loop over \<open>reversed(buffer)\<close>: \<open>keep_from\<close> moves left while the turns fit.\<close>

fun split_loop :: "estimator \<Rightarrow> int \<Rightarrow> nat \<Rightarrow> nat \<Rightarrow> int \<Rightarrow> turn list \<Rightarrow> nat" where
  "split_loop est limit len keep_from used [] = keep_from"
| "split_loop est limit len keep_from used (turn # turns) =
     (let cost = est (turn_text turn)
      in if keep_from < len \<and> used + cost > limit then keep_from
         else split_loop est limit len (keep_from - 1) (used + cost) turns)"

definition split_for_rollover :: "estimator \<Rightarrow> working_memory_config \<Rightarrow> turn list \<Rightarrow> turn list \<times> turn list" where
  "split_for_rollover est cfg buffer =
     (let keep_from = split_loop est (wc_buffer_token_budget cfg) (length buffer) (length buffer) 0 (rev buffer)
      in (drop keep_from buffer, take keep_from buffer))"

definition transcript_line :: "turn \<Rightarrow> pystr" where
  "transcript_line t = turn_role t @ py '': '' @ turn_text t"

definition rollover_transcript :: "turn list \<Rightarrow> pystr" where
  "rollover_transcript evicted = join nl (map transcript_line (filter (\<lambda>t. turn_text t \<noteq> []) evicted))"

definition summarize_prompt :: "working_memory_config \<Rightarrow> pystr \<Rightarrow> pystr \<Rightarrow> message list" where
  "summarize_prompt cfg prior_summary transcript =
     [MSystem (wc_rollover_system_prompt cfg),
      MUser (py ''Existing summary:'' @ nl @ (if prior_summary = [] then py ''(none)'' else prior_summary) @ nl @ nl @
             py ''New turns to fold in:'' @ nl @ transcript)]"

definition wm_summarize :: "working_memory_config \<Rightarrow> (message list \<Rightarrow> ('x, pystr option) wio) \<Rightarrow> pystr \<Rightarrow> turn list
    \<Rightarrow> ('x, pystr) wio" where
  "wm_summarize cfg llm prior_summary evicted =
     (let transcript = rollover_transcript evicted
      in if transcript = [] then ret prior_summary
         else seq (llm (summarize_prompt cfg prior_summary transcript)) (\<lambda>parsed. case parsed of
             Some summary \<Rightarrow> ret (if summary \<noteq> [] then summary else prior_summary)
           | None \<Rightarrow> ret prior_summary))"

text \<open>
  The end of \<open>maybe_rollover\<close>. The loaded state is the stored object itself, so it shows what other tasks
  did to it while the summarizer ran; \<open>state\<close> is its last value if the store no longer holds it.
\<close>

definition rollover_commit :: "'x working_memory \<Rightarrow> pystr \<Rightarrow> session_state \<Rightarrow> turn list \<Rightarrow> pystr \<Rightarrow> ('x, unit) wio" where
  "rollover_commit m conversation_id state kept new_summary w =
     (let state = (case map_of (sessions (w_sessions w)) conversation_id of Some st \<Rightarrow> st | None \<Rightarrow> state)
      in if new_summary = [] \<or> new_summary = rolling_summary state then (w, Inr ())
         else retried_write (wm_store_retry m) (wm_rnd m) (py ''working.rollover'')
                (session_save conversation_id (state\<lparr>rolling_summary := new_summary, working_buffer := kept\<rparr>)) w)"

definition wm_maybe_rollover :: "'x working_memory \<Rightarrow> pystr \<Rightarrow> pystr \<Rightarrow> ('x, unit) wio" where
  "wm_maybe_rollover m conversation_id user_id = (case wm_llm m of
       None \<Rightarrow> ret ()
     | Some llm \<Rightarrow>
         seq (session_load conversation_id user_id) (\<lambda>state. case state of
             None \<Rightarrow> ret ()
           | Some state \<Rightarrow>
               let (kept, evicted) = split_for_rollover (wm_estimate m) (wm_cfg m) (working_buffer state)
               in if evicted = [] then ret ()
                  else seq (wm_summarize (wm_cfg m) llm (rolling_summary state) evicted)
                         (rollover_commit m conversation_id state kept)))"

section \<open>The split\<close>

text \<open>
  Where the loop stops, for a scan of \<open>rev turns\<close> that already kept the turns after \<open>keep_from\<close>: the
  kept ones fit, and the next older one, if there is one, would not.
\<close>

lemma split_loop_spec:
  assumes "keep_from = length xs" and "keep_from \<le> len"
    and "keep_from < len \<longrightarrow> used \<le> limit \<or> len - keep_from = 1"
  shows "\<exists>k. split_loop est limit len keep_from used (rev xs) = k \<and> k \<le> keep_from
    \<and> (keep_from = len \<and> xs \<noteq> [] \<longrightarrow> k < len)
    \<and> (used + buffer_tokens est (drop k xs) \<le> limit \<or> len - k \<le> 1)
    \<and> (0 < k \<and> k < len \<longrightarrow> used + buffer_tokens est (drop k xs) + est (turn_text (xs ! (k - 1))) > limit)"
  using assms
proof (induction xs arbitrary: keep_from used rule: rev_induct)
  case Nil
  then show ?case by (auto simp: buffer_tokens_def)
next
  case (snoc t xs)
  show ?case
  proof (cases "keep_from < len \<and> used + est (turn_text t) > limit")
    case True
    with snoc.prems show ?thesis
      by (auto simp: buffer_tokens_def nth_append)
  next
    case False
    have kf: "keep_from - 1 = length xs" "keep_from - 1 \<le> len" "keep_from - 1 < len"
      using snoc.prems by auto
    have "keep_from - 1 < len \<longrightarrow> used + est (turn_text t) \<le> limit \<or> len - (keep_from - 1) = 1"
      using False snoc.prems by auto
    from snoc.IH [OF kf(1,2) this] obtain k where k: "split_loop est limit len (keep_from - 1) (used + est (turn_text t)) (rev xs) = k"
      "k \<le> keep_from - 1" "used + est (turn_text t) + buffer_tokens est (drop k xs) \<le> limit \<or> len - k \<le> 1"
      "0 < k \<and> k < len \<longrightarrow> used + est (turn_text t) + buffer_tokens est (drop k xs) + est (turn_text (xs ! (k - 1))) > limit"
      by blast
    have "buffer_tokens est (drop k (xs @ [t])) = buffer_tokens est (drop k xs) + est (turn_text t)"
      using k(2) kf(1) by (simp add: buffer_tokens_def)
    moreover have "0 < k \<Longrightarrow> (xs @ [t]) ! (k - 1) = xs ! (k - 1)"
      using k(2) kf(1) by (simp add: nth_append)
    ultimately show ?thesis
      using False k kf snoc.prems by (intro exI [of _ k]) (auto simp: Let_def algebra_simps)
  qed
qed

lemma split_for_rollover_spec:
  assumes "split_for_rollover est cfg buffer = (kept, evicted)"
  shows "buffer = evicted @ kept"
    and "buffer \<noteq> [] \<Longrightarrow> kept \<noteq> []"
    and "buffer_tokens est kept \<le> wc_buffer_token_budget cfg \<or> length kept \<le> 1"
    and "evicted \<noteq> [] \<Longrightarrow> buffer_tokens est (last evicted # kept) > wc_buffer_token_budget cfg"
proof -
  obtain k where k: "split_loop est (wc_buffer_token_budget cfg) (length buffer) (length buffer) 0 (rev buffer) = k"
    "k \<le> length buffer" "buffer \<noteq> [] \<longrightarrow> k < length buffer"
    "buffer_tokens est (drop k buffer) \<le> wc_buffer_token_budget cfg \<or> length buffer - k \<le> 1"
    "0 < k \<and> k < length buffer \<longrightarrow>
       buffer_tokens est (drop k buffer) + est (turn_text (buffer ! (k - 1))) > wc_buffer_token_budget cfg"
    using split_loop_spec [of "length buffer" buffer "length buffer" 0 "wc_buffer_token_budget cfg" est] by auto
  have ke: "kept = drop k buffer" "evicted = take k buffer"
    using assms k(1) by (simp_all add: split_for_rollover_def)
  show "buffer = evicted @ kept" and "buffer \<noteq> [] \<Longrightarrow> kept \<noteq> []"
    and "buffer_tokens est kept \<le> wc_buffer_token_budget cfg \<or> length kept \<le> 1"
    using k ke by auto
  assume ne: "evicted \<noteq> []"
  then have "0 < k" "k < length buffer"
    using k ke by auto
  moreover from this have "last evicted = buffer ! (k - 1)"
    using ke ne by (simp add: last_conv_nth min_def)
  ultimately show "buffer_tokens est (last evicted # kept) > wc_buffer_token_budget cfg"
    using k(5) ke by (simp add: buffer_tokens_def)
qed

text \<open>Every evicted text reaches the summarizer.\<close>

lemma evicted_in_transcript: "t \<in> set evicted \<Longrightarrow> turn_text t \<noteq> [] \<Longrightarrow> sublist (turn_text t) (rollover_transcript evicted)"
proof -
  assume "t \<in> set evicted" and "turn_text t \<noteq> []"
  then have "sublist (transcript_line t) (rollover_transcript evicted)"
    unfolding rollover_transcript_def by (intro join_sublist) auto
  moreover have "sublist (turn_text t) (transcript_line t)"
    unfolding transcript_line_def sublist_def
    by (intro exI [of _ "turn_role t @ py '': ''"] exI [of _ "[]"]) simp
  ultimately show ?thesis
    using sublist_order.order_trans by blast
qed

context token_estimator
begin

lemma buffer_tokens_nonneg: "0 \<le> buffer_tokens est ts"
  unfolding buffer_tokens_def by (intro sum_list_nonneg) auto

text \<open>Turns are evicted exactly when the buffer is over budget and has more than one turn.\<close>

lemma evicts_iff:
  assumes "split_for_rollover est cfg buffer = (kept, evicted)"
  shows "evicted \<noteq> [] \<longleftrightarrow> needs_rollover est cfg buffer \<and> 1 < length buffer"
proof
  assume ne: "evicted \<noteq> []"
  then have "buffer \<noteq> []" and kept: "kept \<noteq> []"
    using split_for_rollover_spec(1,2) [OF assms] by auto
  have "buffer_tokens est buffer = buffer_tokens est (butlast evicted) + buffer_tokens est (last evicted # kept)"
    using split_for_rollover_spec(1) [OF assms] ne
    by (metis (no_types, lifting) append.assoc append_Cons append_Nil append_butlast_last_id buffer_tokens_def map_append sum_list_append)
  with split_for_rollover_spec(4) [OF assms ne] buffer_tokens_nonneg [of "butlast evicted"]
  have "needs_rollover est cfg buffer"
    by (simp add: needs_rollover_def)
  moreover have "1 < length buffer"
    using split_for_rollover_spec(1) [OF assms] ne kept by (cases evicted; cases kept) auto
  ultimately show "needs_rollover est cfg buffer \<and> 1 < length buffer" ..
next
  assume "needs_rollover est cfg buffer \<and> 1 < length buffer"
  then show "evicted \<noteq> []"
    using split_for_rollover_spec(1,3) [OF assms] by (auto simp: needs_rollover_def)
qed

end

section \<open>Rollover\<close>

lemma maybe_rollover_effect:
  assumes "wm_llm m = Some llm" and "0 \<le> max_retries (wm_store_retry m)"
    and "ss_live (w_sessions w) (w_now w) c = Some st" and "st_user_id st = u"
    and "split_for_rollover (wm_estimate m) (wm_cfg m) (working_buffer st) = (kept, evicted)" and "evicted \<noteq> []"
    and "wm_summarize (wm_cfg m) llm (rolling_summary st) evicted w = (w', Inr new_summary)"
    and "map_of (sessions (w_sessions w')) c = Some st'"
    and "new_summary \<noteq> []" and "new_summary \<noteq> rolling_summary st'"
  shows "wm_maybe_rollover m c u w =
    (w'\<lparr>w_sessions := ss_save (w_sessions w') c (st'\<lparr>rolling_summary := new_summary, working_buffer := kept\<rparr>) (w_now w')\<rparr>, Inr ())"
proof -
  have "session_save c (st'\<lparr>rolling_summary := new_summary, working_buffer := kept\<rparr>) w' =
      (w'\<lparr>w_sessions := ss_save (w_sessions w') c (st'\<lparr>rolling_summary := new_summary, working_buffer := kept\<rparr>) (w_now w')\<rparr>, Inr ())"
    by (simp add: session_save_def)
  with assms show ?thesis
    by (simp add: wm_maybe_rollover_def session_load_own seq_Inr rollover_commit_def retried_write_ok)
qed

text \<open>Without a usable summary nothing is written: the buffer is what it was.\<close>

lemma rollover_unusable:
  assumes "map_of (sessions (w_sessions w)) c = Some st" and "new_summary = [] \<or> new_summary = rolling_summary st"
  shows "rollover_commit m c st0 kept new_summary w = (w, Inr ())"
  using assms by (auto simp: rollover_commit_def)

lemma rollover_within_budget: "wm_llm m = Some llm \<Longrightarrow> ss_live (w_sessions w) (w_now w) c = Some st \<Longrightarrow>
    st_user_id st = u \<Longrightarrow> snd (split_for_rollover (wm_estimate m) (wm_cfg m) (working_buffer st)) = [] \<Longrightarrow>
    wm_maybe_rollover m c u w = (w, Inr ())"
  by (simp add: wm_maybe_rollover_def session_load_own seq_Inr ret_apply split_def)

end
