(* ===== verification/Tool_Registry.thy ===== *)
theory Tool_Registry
  imports World Config
begin

text \<open>
  \<open>tools/registry.py\<close> and \<open>tools/base.py\<close>: the tools, filtered per user and run under their policy. A
  handler is external (or one of the native tools): given the user, the arguments and the seconds it has,
  it acts on the world and returns its result, or nothing when the time ran out. The text of a float,
  used in one message, is the parameter \<open>rg_float_str\<close>. Telemetry is left out; the outcome tag it
  records is part of the result of \<open>reg_run\<close>.
\<close>

record 'x tool =
  t_definition :: tool_definition
  t_handler :: "pystr \<Rightarrow> payload \<Rightarrow> real \<Rightarrow> 'x world_scheme \<Rightarrow> 'x world_scheme \<times> pystr res option"

definition tool_name :: "'x tool \<Rightarrow> pystr" where
  "tool_name t = td_name (t_definition t)"

text \<open>A handler that does not wait for anything slow.\<close>

definition in_time :: "(pystr \<Rightarrow> payload \<Rightarrow> ('x, pystr) wio)
    \<Rightarrow> pystr \<Rightarrow> payload \<Rightarrow> real \<Rightarrow> 'x world_scheme \<Rightarrow> 'x world_scheme \<times> pystr res option" where
  "in_time h user_id args timeout w = (case h user_id args w of (w', r) \<Rightarrow> (w', Some r))"

record execution =
  ex_call_id :: pystr
  ex_name :: pystr
  ex_ok :: bool
  ex_display :: pystr
  ex_observation :: pystr

record 'x registry =
  rg_tools :: "(pystr \<times> 'x tool) list"
  rg_timeout :: real
  rg_policies :: "(pystr \<times> tool_policy) list"
  rg_float_str :: "real \<Rightarrow> pystr"

section \<open>Operations\<close>

definition reg_register :: "'x registry \<Rightarrow> 'x tool \<Rightarrow> 'x registry" where
  "reg_register rg tool = rg\<lparr>rg_tools := dict_set (tool_name tool) tool (rg_tools rg)\<rparr>"

fun tools_dict :: "(pystr \<times> 'x tool) list \<Rightarrow> 'x tool list \<Rightarrow> (pystr \<times> 'x tool) list" where
  "tools_dict d [] = d"
| "tools_dict d (t # ts) = tools_dict (dict_set (tool_name t) t d) ts"

definition reg_init :: "'x tool list \<Rightarrow> real \<Rightarrow> (pystr \<times> tool_policy) list \<Rightarrow> (real \<Rightarrow> pystr) \<Rightarrow> 'x registry" where
  "reg_init tools timeout policies fl =
     \<lparr>rg_tools = tools_dict [] tools, rg_timeout = timeout, rg_policies = policies, rg_float_str = fl\<rparr>"

definition reg_get_policy :: "'x registry \<Rightarrow> pystr \<Rightarrow> tool_policy option" where
  "reg_get_policy rg name = map_of (rg_policies rg) name"

definition reg_definitions :: "'x registry \<Rightarrow> pystr \<Rightarrow> ('x, tool_definition list) wio" where
  "reg_definitions rg user_id =
     seq (permissions_allowed user_id) (\<lambda>allowed.
       ret (map (\<lambda>(_, t). t_definition t) (filter (\<lambda>(name, _). name \<in> allowed) (rg_tools rg))))"

definition DISPLAY_TRUNCATE :: nat where
  "DISPLAY_TRUNCATE = 500"

text \<open>8230 is the ellipsis character.\<close>

definition truncation_mark :: pystr where
  "truncation_mark = [8230] @ py '' [truncated]''"

definition truncate_text :: "pystr \<Rightarrow> nat \<Rightarrow> pystr" where
  "truncate_text txt limit = (if length txt \<le> limit then txt else take limit txt @ truncation_mark)"

definition reg_success :: "tool_call \<Rightarrow> pystr \<Rightarrow> execution" where
  "reg_success call content = \<lparr>ex_call_id = tc_id call, ex_name = tc_name call, ex_ok = True,
     ex_display = truncate_text content DISPLAY_TRUNCATE, ex_observation = content\<rparr>"

definition reg_failure :: "tool_call \<Rightarrow> pystr \<Rightarrow> execution" where
  "reg_failure call msg = \<lparr>ex_call_id = tc_id call, ex_name = tc_name call, ex_ok = False,
     ex_display = truncate_text msg DISPLAY_TRUNCATE, ex_observation = msg\<rparr>"

text \<open>\<open>policy.timeout_s if policy and policy.timeout_s else self._timeout\<close>; a timeout of 0 is false.\<close>

definition effective_timeout :: "'x registry \<Rightarrow> tool_policy option \<Rightarrow> real" where
  "effective_timeout rg policy =
     (case policy of
        Some p \<Rightarrow> (case tp_timeout_s p of Some t \<Rightarrow> if t \<noteq> 0 then t else rg_timeout rg | None \<Rightarrow> rg_timeout rg)
      | None \<Rightarrow> rg_timeout rg)"

text \<open>The gate on the rate: the limit exceeded, if it is.\<close>

definition rate_gate :: "'x registry \<Rightarrow> pystr \<Rightarrow> tool_call \<Rightarrow> ('x, int option) wio" where
  "rate_gate rg user_id call w =
     (case map_option tp_rate_limit_per_minute (map_of (rg_policies rg) (tc_name call)) of
        Some (Some n) \<Rightarrow>
          (case try_acquire (w_limiter w) user_id (tc_name call) n (w_monotonic w) of
             (ok, rl) \<Rightarrow> (w\<lparr>w_limiter := rl\<rparr>, Inr (if ok then None else Some n)))
      | _ \<Rightarrow> (w, Inr None))"

definition run_handler :: "'x registry \<Rightarrow> 'x tool \<Rightarrow> real \<Rightarrow> pystr \<Rightarrow> tool_call \<Rightarrow> ('x, execution \<times> pystr) wio" where
  "run_handler rg tool timeout user_id call w =
     (case t_handler tool user_id (tc_arguments call) timeout w of
        (w', None) \<Rightarrow> (w', Inr (reg_failure call (py ''tool '' @ py_repr (tc_name call) @ py '' timed out after '' @
            rg_float_str rg timeout @ py ''s''), py ''timed_out''))
      | (w', Some (Inl exc)) \<Rightarrow>
          if exc = TimeoutError
          then (w', Inr (reg_failure call (py ''tool '' @ py_repr (tc_name call) @ py '' timed out after '' @
            rg_float_str rg timeout @ py ''s''), py ''timed_out''))
          else if is_control_flow exc then (w', Inl exc)
          else (w', Inr (reg_failure call (py ''tool '' @ py_repr (tc_name call) @ py '' failed: '' @ exn_str exc), py ''error''))
      | (w', Some (Inr content)) \<Rightarrow> (w', Inr (reg_success call content, py ''ok'')))"

definition reg_run :: "'x registry \<Rightarrow> pystr \<Rightarrow> tool_call \<Rightarrow> ('x, execution \<times> pystr) wio" where
  "reg_run rg user_id call =
     seq (permissions_allowed user_id) (\<lambda>allowed.
       if tc_name call \<notin> allowed
       then ret (reg_failure call (py ''tool '' @ py_repr (tc_name call) @ py '' is not permitted for this user''), py ''not_permitted'')
       else case map_of (rg_tools rg) (tc_name call) of
           None \<Rightarrow> ret (reg_failure call (py ''unknown tool '' @ py_repr (tc_name call)), py ''unknown_tool'')
         | Some tool \<Rightarrow>
             seq (rate_gate rg user_id call) (\<lambda>exceeded. case exceeded of
                 Some n \<Rightarrow> ret (reg_failure call (py ''tool '' @ py_repr (tc_name call) @ py '' rate limit exceeded '' @
                     py ''('' @ py_int n @ py ''/min for this user)''), py ''rate_limited'')
               | None \<Rightarrow> run_handler rg tool (effective_timeout rg (map_of (rg_policies rg) (tc_name call))) user_id call))"

definition reg_execute :: "'x registry \<Rightarrow> pystr \<Rightarrow> tool_call \<Rightarrow> ('x, execution) wio" where
  "reg_execute rg user_id call = seq (reg_run rg user_id call) (\<lambda>(execution, outcome). ret execution)"

section \<open>Every failure is an observation\<close>

text \<open>What is asked of a handler: it lets no cancellation escape.\<close>

definition handler_total :: "'x tool \<Rightarrow> bool" where
  "handler_total t \<longleftrightarrow> (\<forall>u args timeout w e. snd (t_handler t u args timeout w) = Some (Inl e) \<longrightarrow> \<not> is_control_flow e)"

lemma in_time_total: "(\<And>u args w e. snd (h u args w) = Inl e \<Longrightarrow> \<not> is_control_flow e) \<Longrightarrow>
    handler_total \<lparr>t_definition = d, t_handler = in_time h\<rparr>"
  by (auto simp: handler_total_def in_time_def split: prod.splits) (metis snd_conv)

lemma run_handler_total: "handler_total t \<Longrightarrow> \<exists>x. snd (run_handler rg t timeout u call w) = Inr x"
  by (auto simp: run_handler_def handler_total_def split: prod.splits option.splits sum.splits)
    (metis snd_conv)+

lemma permissions_allowed_apply: "permissions_allowed u w = (w, Inr (pm_allowed_tools (w_perms w) u))"
  by (simp add: permissions_allowed_def)

lemma rate_gate_result: "\<exists>rl x. rate_gate rg u call w = (w\<lparr>w_limiter := rl\<rparr>, Inr x)"
  by (auto simp: rate_gate_def split: prod.splits option.splits) (rule exI [of _ "w_limiter w"], simp)+

lemma reg_run_total:
  assumes "\<forall>(name, t) \<in> set (rg_tools rg). handler_total t"
  shows "\<exists>ex tag. snd (reg_run rg u call w) = Inr (ex, tag)"
proof (cases "tc_name call \<in> pm_allowed_tools (w_perms w) u")
  case True
  show ?thesis
  proof (cases "map_of (rg_tools rg) (tc_name call)")
    case (Some t)
    then have "handler_total t"
      using assms by (auto dest: map_of_SomeD)
    moreover obtain rl x where "rate_gate rg u call w = (w\<lparr>w_limiter := rl\<rparr>, Inr x)"
      using rate_gate_result by blast
    ultimately show ?thesis
      using True Some run_handler_total [of t rg _ u call "w\<lparr>w_limiter := rl\<rparr>"]
      by (cases x) (auto simp: reg_run_def permissions_allowed_apply seq_Inr ret_apply)
  qed (simp add: True reg_run_def permissions_allowed_apply seq_Inr ret_apply)
qed (simp add: reg_run_def permissions_allowed_apply seq_Inr ret_apply)

lemma reg_run_ids:
  assumes "reg_run rg u call w = (w', Inr (ex, tag))"
  shows "ex_call_id ex = tc_id call \<and> ex_name ex = tc_name call
    \<and> ex_display ex = truncate_text (ex_observation ex) DISPLAY_TRUNCATE \<and> (ex_ok ex \<longleftrightarrow> tag = py ''ok'')"
  using assms unfolding reg_run_def
  by (auto simp: permissions_allowed_apply seq_def ret_def run_handler_def reg_failure_def reg_success_def
      split: if_splits option.splits prod.splits sum.splits)

lemma reg_execute_ids:
  "reg_execute rg u call w = (w', Inr ex) \<Longrightarrow> ex_call_id ex = tc_id call \<and> ex_name ex = tc_name call
    \<and> ex_display ex = truncate_text (ex_observation ex) DISPLAY_TRUNCATE"
  unfolding reg_execute_def by (elim seq_cases) (auto simp: ret_def split: prod.splits dest: reg_run_ids)

lemma length_truncate_text: "length (truncate_text txt n) \<le> n + length truncation_mark"
  by (simp add: truncate_text_def)

text \<open>A refused call does nothing: no handler runs and no token is taken.\<close>

lemma reg_run_refused:
  "tc_name call \<notin> pm_allowed_tools (w_perms w) u \<or> map_of (rg_tools rg) (tc_name call) = None \<Longrightarrow>
     fst (reg_run rg u call w) = w \<and> (\<exists>ex tag. snd (reg_run rg u call w) = Inr (ex, tag) \<and> \<not> ex_ok ex)"
  by (auto simp: reg_run_def permissions_allowed_apply seq_Inr ret_apply reg_failure_def)

text \<open>What the model is offered is what it can run.\<close>

lemma tools_dict_ok: "dict_ok d \<Longrightarrow> \<forall>(n, t) \<in> set d. tool_name t = n \<Longrightarrow>
    dict_ok (tools_dict d ts) \<and> (\<forall>(n, t) \<in> set (tools_dict d ts). tool_name t = n)"
proof (induction d ts rule: tools_dict.induct)
  case (2 d t ts)
  then show ?case
    by (simp add: ball_dict_set)
qed simp

definition registry_ok :: "'x registry \<Rightarrow> bool" where
  "registry_ok rg \<longleftrightarrow> dict_ok (rg_tools rg) \<and> (\<forall>(n, t) \<in> set (rg_tools rg). tool_name t = n)"

lemma registry_ok_init: "registry_ok (reg_init ts timeout policies fl)"
  using tools_dict_ok [of "[]" ts] by (simp add: registry_ok_def reg_init_def)

lemma registry_ok_register: "registry_ok rg \<Longrightarrow> registry_ok (reg_register rg t)"
  using ball_dict_set [of "rg_tools rg" "\<lambda>n t. tool_name t = n" "tool_name t" t]
  by (simp add: registry_ok_def reg_register_def)

lemma reg_definitions_apply: "reg_definitions rg u w = (w, Inr (map (\<lambda>(_, t). t_definition t)
    (filter (\<lambda>(name, _). name \<in> pm_allowed_tools (w_perms w) u) (rg_tools rg))))"
  by (simp add: reg_definitions_def permissions_allowed_apply seq_Inr ret_apply)

lemma reg_definitions_allowed:
  assumes "registry_ok rg" and "reg_definitions rg u w = (w', Inr defs)"
  shows "td_name ` set defs = {n \<in> fst ` set (rg_tools rg). n \<in> pm_allowed_tools (w_perms w) u}"
proof -
  have nm: "td_name (t_definition t) = n" if "(n, t) \<in> set (rg_tools rg)" for n t
    using assms(1) that unfolding registry_ok_def tool_name_def by auto
  have "defs = map (\<lambda>(_, t). t_definition t)
      (filter (\<lambda>(name, _). name \<in> pm_allowed_tools (w_perms w) u) (rg_tools rg))"
    using assms(2) by (auto simp: reg_definitions_apply)
  then show ?thesis
    using nm by (auto simp: image_iff Bex_def) (metis nm)
qed

lemma tools_dict_keys: "fst ` set (tools_dict d ts) = fst ` set d \<union> tool_name ` set ts"
  by (induction d ts rule: tools_dict.induct) (auto simp: dom_update)

lemma registered_later: "registry_ok rg \<Longrightarrow> registry_ok (foldl reg_register rg later)
    \<and> fst ` set (rg_tools (foldl reg_register rg later)) = fst ` set (rg_tools rg) \<union> tool_name ` set later"
proof (induction later arbitrary: rg)
  case (Cons t later)
  from Cons.IH [OF registry_ok_register [OF Cons.prems, of t]] show ?case
    by (auto simp: reg_register_def dom_update)
qed simp

lemma reg_definitions_names:
  assumes "registry_ok rg"
  shows "\<exists>defs. reg_definitions rg u w = (w, Inr defs) \<and> distinct (map td_name defs)
    \<and> set (map td_name defs) = fst ` set (rg_tools rg) \<inter> pm_allowed_tools (w_perms w) u"
proof -
  define defs where "defs = map (\<lambda>(_, t). t_definition t)
    (filter (\<lambda>(name, _). name \<in> pm_allowed_tools (w_perms w) u) (rg_tools rg))"
  have r: "reg_definitions rg u w = (w, Inr defs)"
    by (simp add: reg_definitions_apply defs_def)
  have "map td_name defs = map fst (filter (\<lambda>(name, _). name \<in> pm_allowed_tools (w_perms w) u) (rg_tools rg))"
    using assms unfolding defs_def registry_ok_def tool_name_def by auto
  then have "distinct (map td_name defs)"
    using assms by (simp add: registry_ok_def distinct_map_filter)
  with r show ?thesis
    using reg_definitions_allowed [OF assms r] by auto
qed

end
