(* ===== verification/Factual_Memory.thy ===== *)
theory Factual_Memory
  imports World Config
begin

text \<open>
  \<open>memory/factual.py\<close>: the per-user profile. Extraction's \<open>invoke\<close> is an external service returning the
  \<open>facts\<close> dictionary of the parsed response, if there is one.
\<close>

record 'x factual_memory =
  fm_cfg :: factual_memory_config
  fm_llm :: "(message list \<Rightarrow> ('x, (pystr \<times> pystr) list option) wio) option"
  fm_store_retry :: retry_policy
  fm_rnd :: "nat \<Rightarrow> real"

definition fm_get :: "pystr \<Rightarrow> ('x, user_profile) wio" where
  "fm_get user_id = profile_get user_id"

definition fm_remember :: "pystr \<Rightarrow> pystr \<Rightarrow> pystr \<Rightarrow> ('x, unit) wio" where
  "fm_remember user_id key val = profile_upsert user_id [(key, JStr val)]"

definition fm_forget :: "pystr \<Rightarrow> pystr \<Rightarrow> ('x, bool) wio" where
  "fm_forget user_id key =
     seq (profile_get user_id) (\<lambda>profile.
       let existed = map_of (facts profile) key \<noteq> None
       in seq (if existed then profile_forget user_id [key] else ret ()) (\<lambda>_. ret existed))"

definition extract_prompt :: "factual_memory_config \<Rightarrow> pystr \<Rightarrow> pystr \<Rightarrow> message list" where
  "extract_prompt cfg user_text assistant_text =
     [MSystem (fc_extraction_system_prompt cfg),
      MUser (py ''User said: '' @ user_text @ nl @ py ''Assistant said: '' @ assistant_text)]"

definition fm_extract :: "'x factual_memory \<Rightarrow> pystr \<Rightarrow> pystr \<Rightarrow> pystr \<Rightarrow> ('x, unit) wio" where
  "fm_extract m user_id user_text assistant_text =
     (case fm_llm m of
        None \<Rightarrow> ret ()
      | Some llm \<Rightarrow>
          if \<not> fc_extraction_enabled (fm_cfg m) then ret ()
          else seq (llm (extract_prompt (fm_cfg m) user_text assistant_text)) (\<lambda>parsed. case parsed of
              None \<Rightarrow> ret ()
            | Some extracted \<Rightarrow>
                if extracted = [] then ret ()
                else retried_write (fm_store_retry m) (fm_rnd m) (py ''factual.extract'')
                       (profile_upsert user_id (map (\<lambda>(k, v). (k, JStr v)) extracted))))"

section \<open>Behaviour\<close>

text \<open>The facts a user has, absent profiles being empty.\<close>

definition user_facts :: "'x world_scheme \<Rightarrow> pystr \<Rightarrow> payload" where
  "user_facts w u = pr_view (w_profiles w) u"

lemma fm_remember_facts:
  "user_facts (fst (fm_remember u k v w)) x = (if x = u then dict_update (user_facts w u) [(k, JStr v)] else user_facts w x)"
  "snd (fm_remember u k v w) = Inr ()"
  by (auto simp: user_facts_def fm_remember_def profile_upsert_def pr_upsert_facts_def pr_view_def pr_get_def
      new_profile_def Let_def split: option.splits)

lemma fm_get_facts:
  "snd (fm_get u w) = Inr p \<Longrightarrow> facts p = user_facts w u"
  "user_facts (fst (fm_get u w)) x = user_facts w x"
  by (auto simp: user_facts_def fm_get_def profile_get_def pr_view_def pr_get_def new_profile_def Let_def
      split: option.splits)

lemma fm_forget_facts:
  "snd (fm_forget u k w) = Inr (map_of (user_facts w u) k \<noteq> None)"
  "map_of (user_facts (fst (fm_forget u k w)) u) x = (if x = k then None else map_of (user_facts w u) x)"
  "v \<noteq> u \<Longrightarrow> user_facts (fst (fm_forget u k w)) v = user_facts w v"
  by (auto simp: user_facts_def fm_forget_def profile_get_def profile_forget_def pr_forget_facts_def pr_view_def
      pr_get_def new_profile_def seq_def ret_def Let_def dict_simps split: option.splits if_splits prod.splits)

end
