(* ===== verification/Episodic_Memory.thy ===== *)
theory Episodic_Memory
  imports World Config
begin

text \<open>
  \<open>memory/episodic.py\<close>: retrieval over the user's vector store, and one point per finished conversation.
  The embedder and the LLM's structured calls are external services. \<open>str.format\<close> of the moments prompt
  knows the field \<open>max_moments\<close> and doubled braces; anything else in braces raises, which the caller
  turns into no moments. Payload times are numbers, as the code stores them.
\<close>

record 'x episodic_memory =
  em_cfg :: episodic_memory_config
  em_numpy :: numpy
  em_embed_one :: "pystr \<Rightarrow> ('x, real list) wio"
  em_llm_query :: "(message list \<Rightarrow> ('x, pystr option) wio) option"
  em_llm_moments :: "(message list \<Rightarrow> ('x, pystr list option) wio) option"
  em_store_retry :: retry_policy
  em_rnd :: "nat \<Rightarrow> real"

section \<open>Retrieval\<close>

definition em_rewrite :: "'x episodic_memory \<Rightarrow> (message list \<Rightarrow> ('x, pystr option) wio) \<Rightarrow> pystr \<Rightarrow> ('x, pystr) wio" where
  "em_rewrite m llm txt =
     seq (llm [MSystem (ec_query_rewrite_system_prompt (em_cfg m)), MUser txt])
       (\<lambda>parsed. case parsed of Some query \<Rightarrow> ret query | None \<Rightarrow> ret txt)"

definition base_query :: "episodic_memory_config \<Rightarrow> pystr \<Rightarrow> turn list \<Rightarrow> pystr" where
  "base_query cfg user_message recent_turns =
     (let augment_n = ec_query_augment_turns cfg
      in if augment_n > 0 \<and> recent_turns \<noteq> []
         then let tail = slice recent_turns (- augment_n) (int (length recent_turns));
                  prefix = join (py '' '') (map turn_text (filter (\<lambda>t. turn_text t \<noteq> []) tail))
              in if prefix \<noteq> [] then strip (prefix @ py '' '' @ user_message) else user_message
         else user_message)"

definition em_build_query :: "'x episodic_memory \<Rightarrow> pystr \<Rightarrow> turn list \<Rightarrow> ('x, pystr) wio" where
  "em_build_query m user_message recent_turns =
     (let base = base_query (em_cfg m) user_message recent_turns
      in case em_llm_query m of
           Some llm \<Rightarrow> if ec_query_rewrite (em_cfg m) then em_rewrite m llm base else ret base
         | None \<Rightarrow> ret base)"

definition payload_ts :: "payload \<Rightarrow> real option" where
  "payload_ts p = (case map_of p (py ''ts'') of
      Some (JFloat t) \<Rightarrow> Some t | Some (JInt i) \<Rightarrow> Some (of_int i) | _ \<Rightarrow> None)"

definition decay_hit :: "real \<Rightarrow> real \<Rightarrow> memory_hit \<Rightarrow> memory_hit" where
  "decay_hit rate now h =
     (case payload_ts (mp_payload (hit_point h)) of
        None \<Rightarrow> h
      | Some ts \<Rightarrow>
          let age_days = max 0 ((now - ts) / 86400);
              factor = exp (- rate * age_days)
          in \<lparr>hit_point = hit_point h, hit_score = hit_score h * factor\<rparr>)"

definition apply_decay :: "episodic_memory_config \<Rightarrow> real \<Rightarrow> memory_hit list \<Rightarrow> memory_hit list" where
  "apply_decay cfg now hits =
     slice (sort_desc hit_score (map (decay_hit (ec_decay_rate cfg) now) hits)) 0 (ec_top_k cfg)"

definition em_retrieve :: "'x episodic_memory \<Rightarrow> pystr \<Rightarrow> pystr \<Rightarrow> turn list \<Rightarrow> ('x, memory_hit list) wio" where
  "em_retrieve m user_id user_message recent_turns =
     seq (em_build_query m user_message recent_turns) (\<lambda>query_text.
     seq (em_embed_one m query_text) (\<lambda>vector.
       let cfg = em_cfg m;
           fetch_k = (if ec_decay_rate cfg > 0 then ec_top_k cfg * 2 else ec_top_k cfg)
       in seq (vectors_search (em_numpy m) user_id vector fetch_k (ec_min_score cfg)) (\<lambda>results w.
            (w, Inr (if ec_decay_rate cfg > 0 then apply_decay cfg (w_now w) results else results)))))"

section \<open>Point ids and deletion\<close>

definition conv_id :: "pystr \<Rightarrow> pystr" where
  "conv_id conversation_id = py ''conv:'' @ conversation_id"

definition moment_id :: "pystr \<Rightarrow> nat \<Rightarrow> pystr" where
  "moment_id conversation_id i = py ''moment:'' @ conversation_id @ py '':'' @ py_int (int i)"

definition forget_ids :: "episodic_memory_config \<Rightarrow> pystr \<Rightarrow> pystr list" where
  "forget_ids cfg conversation_id =
     conv_id conversation_id # map (moment_id conversation_id) [0 ..< nat (ec_max_flagged_moments cfg)]"

definition em_forget_conversation :: "'x episodic_memory \<Rightarrow> pystr \<Rightarrow> pystr \<Rightarrow> ('x, int) wio" where
  "em_forget_conversation m user_id conversation_id =
     (let ids_to_delete = forget_ids (em_cfg m) conversation_id
      in seq (retried_write (em_store_retry m) (em_rnd m) (py ''episodic.forget_conversation'')
                (vectors_delete ids_to_delete user_id))
           (\<lambda>_. ret (int (length ids_to_delete))))"

section \<open>Writing\<close>

definition compose_conversation :: "pystr \<Rightarrow> turn list \<Rightarrow> pystr" where
  "compose_conversation summary turns =
     strip (join nl ((if summary \<noteq> [] then [summary] else [])
       @ map (\<lambda>t. turn_role t @ py '': '' @ turn_text t) (filter (\<lambda>t. turn_text t \<noteq> []) turns)))"

text \<open>\<open>prompt.format(max_moments=n)\<close>: 123 and 125 are the braces.\<close>

fun format_max_moments :: "int \<Rightarrow> pystr \<Rightarrow> pystr option" where
  "format_max_moments n [] = Some []"
| "format_max_moments n (c # cs) =
     (if c = 123 then
        (if take 12 cs = py ''max_moments}'' then map_option ((@) (py_int n)) (format_max_moments n (drop 12 cs))
         else case cs of
             d # ds \<Rightarrow> if d = 123 then map_option ((#) 123) (format_max_moments n ds) else None
           | [] \<Rightarrow> None)
      else if c = 125 then
        (case cs of
             d # ds \<Rightarrow> if d = 125 then map_option ((#) 125) (format_max_moments n ds) else None
           | [] \<Rightarrow> None)
      else map_option ((#) c) (format_max_moments n cs))"

definition em_extract_moments :: "'x episodic_memory \<Rightarrow> pystr \<Rightarrow> ('x, pystr list) wio" where
  "em_extract_moments m txt =
     (case em_llm_moments m of
        None \<Rightarrow> ret []
      | Some llm \<Rightarrow>
          if \<not> ec_flagged_moments_enabled (em_cfg m) then ret []
          else except_exception
            (case format_max_moments (ec_max_flagged_moments (em_cfg m)) (ec_flagged_moments_system_prompt (em_cfg m)) of
               None \<Rightarrow> throw (ValueError (py ''format''))
             | Some prompt \<Rightarrow> seq (llm [MSystem prompt, MUser txt]) (\<lambda>parsed. case parsed of
                   None \<Rightarrow> ret []
                 | Some moments \<Rightarrow> ret (slice moments 0 (ec_max_flagged_moments (em_cfg m)))))
            (\<lambda>_. ret []))"

definition conversation_point :: "pystr \<Rightarrow> pystr \<Rightarrow> pystr \<Rightarrow> real list \<Rightarrow> real \<Rightarrow> memory_point" where
  "conversation_point user_id conversation_id txt vector now =
     \<lparr>mp_id = conv_id conversation_id, mp_vector = vector,
      mp_payload = [(py ''user_id'', JStr user_id), (py ''conversation_id'', JStr conversation_id),
        (py ''text'', JStr txt), (py ''kind'', JStr (py ''conversation'')), (py ''ts'', JFloat now)]\<rparr>"

definition moment_point :: "pystr \<Rightarrow> pystr \<Rightarrow> nat \<Rightarrow> pystr \<Rightarrow> real list \<Rightarrow> real \<Rightarrow> memory_point" where
  "moment_point user_id conversation_id i txt vector ts =
     \<lparr>mp_id = moment_id conversation_id i, mp_vector = vector,
      mp_payload = [(py ''user_id'', JStr user_id), (py ''conversation_id'', JStr conversation_id),
        (py ''text'', JStr txt), (py ''kind'', JStr (py ''moment'')),
        (py ''parent_id'', JStr (conv_id conversation_id)), (py ''ts'', JFloat ts)]\<rparr>"

fun moment_points :: "'x episodic_memory \<Rightarrow> pystr \<Rightarrow> pystr \<Rightarrow> real \<Rightarrow> nat \<Rightarrow> pystr list \<Rightarrow> ('x, memory_point list) wio" where
  "moment_points m user_id conversation_id ts i [] w = (w, Inr [])"
| "moment_points m user_id conversation_id ts i (txt # txts) w =
     seq (em_embed_one m txt) (\<lambda>vector.
       seq (moment_points m user_id conversation_id ts (Suc i) txts)
         (\<lambda>points. ret (moment_point user_id conversation_id i txt vector ts # points))) w"

definition write_moments :: "'x episodic_memory \<Rightarrow> pystr \<Rightarrow> pystr \<Rightarrow> pystr \<Rightarrow> ('x, unit) wio" where
  "write_moments m user_id conversation_id txt =
     seq (em_extract_moments m txt) (\<lambda>moment_texts w.
       if moment_texts = [] then (w, Inr ())
       else seq (moment_points m user_id conversation_id (w_now w) 0 moment_texts)
              (\<lambda>points. retried_write (em_store_retry m) (em_rnd m) (py ''episodic.write_moments'') (vectors_add points)) w)"

definition em_write_conversation :: "'x episodic_memory \<Rightarrow> pystr \<Rightarrow> pystr \<Rightarrow> pystr \<Rightarrow> turn list \<Rightarrow> ('x, unit) wio" where
  "em_write_conversation m user_id conversation_id summary turns =
     (let txt = compose_conversation summary turns
      in if txt = [] then ret ()
         else seq (em_embed_one m txt) (\<lambda>vector w.
           seq (retried_write (em_store_retry m) (em_rnd m) (py ''episodic.write_conversation'')
                  (vectors_add [conversation_point user_id conversation_id txt vector (w_now w)]))
             (\<lambda>_. write_moments m user_id conversation_id txt) w))"

section \<open>What retrieval returns\<close>

lemma decay_hit_point [simp]: "hit_point (decay_hit r now h) = hit_point h"
  by (simp add: decay_hit_def Let_def split: option.splits)

lemma decay_hit_le: "0 \<le> r \<Longrightarrow> 0 \<le> hit_score h \<Longrightarrow> hit_score (decay_hit r now h) \<le> hit_score h"
proof -
  assume "0 \<le> r" and "0 \<le> hit_score h"
  then have "hit_score h * exp (- r * max 0 ((now - ts) / 86400)) \<le> hit_score h * 1" for ts
    by (intro mult_left_mono) simp_all
  then show ?thesis
    by (simp add: decay_hit_def Let_def split: option.splits)
qed

text \<open>Of two points with the same raw score the fresher one decays less.\<close>

lemma decay_hit_fresher:
  assumes "0 \<le> r" and "0 \<le> hit_score h" and "hit_score h = hit_score h'"
    and "payload_ts (mp_payload (hit_point h)) = Some t" and "payload_ts (mp_payload (hit_point h')) = Some t'" and "t \<le> t'"
  shows "hit_score (decay_hit r now h) \<le> hit_score (decay_hit r now h')"
proof -
  have "r * max 0 ((now - t') / 86400) \<le> r * max 0 ((now - t) / 86400)"
    using assms(1,6) by (intro mult_left_mono) (auto simp: max_def divide_right_mono)
  with assms show ?thesis
    by (simp add: decay_hit_def Let_def mult_left_mono)
qed

lemma apply_decay_take: "apply_decay cfg now hits =
    take (nat (ec_top_k cfg)) (sort_desc hit_score (map (decay_hit (ec_decay_rate cfg) now) hits))" if "0 \<le> ec_top_k cfg"
  using that by (simp add: apply_decay_def)

lemma em_retrieve_cases:
  assumes "em_retrieve m u msg ts w = (w', Inr hits)"
  obtains vec k where "k = (if ec_decay_rate (em_cfg m) > 0 then ec_top_k (em_cfg m) * 2 else ec_top_k (em_cfg m))"
    and "hits = (let r = vs_search (em_numpy m) (w_vectors w') u vec k (ec_min_score (em_cfg m))
                 in if ec_decay_rate (em_cfg m) > 0 then apply_decay (em_cfg m) (w_now w') r else r)"
  using assms unfolding em_retrieve_def Let_def
  by (elim seq_cases) (auto simp: vectors_search_def)

lemma em_retrieve_owned:
  assumes "em_retrieve m u msg ts w = (w', Inr hits)" and "h \<in> set hits" and "0 \<le> ec_top_k (em_cfg m)"
  shows "owned_by u (hit_point h) \<and> hit_point h \<in> snd ` set (w_vectors w')"
proof -
  from assms(1) obtain vec k where "hits = (let r = vs_search (em_numpy m) (w_vectors w') u vec k (ec_min_score (em_cfg m))
      in if ec_decay_rate (em_cfg m) > 0 then apply_decay (em_cfg m) (w_now w') r else r)"
    by (rule em_retrieve_cases)
  with assms(2,3) obtain h' where "h' \<in> set (vs_search (em_numpy m) (w_vectors w') u vec k (ec_min_score (em_cfg m)))"
    and "hit_point h' = hit_point h"
    by (fastforce simp: Let_def apply_decay_take dest!: in_set_takeD split: if_splits)
  then show ?thesis
    using vs_search_sound by metis
qed

lemma em_retrieve_top_k:
  assumes "em_retrieve m u msg ts w = (w', Inr hits)" and "0 \<le> ec_top_k (em_cfg m)"
  shows "int (length hits) \<le> ec_top_k (em_cfg m) \<and> sorted_wrt (\<lambda>a b. hit_score b \<le> hit_score a) hits"
proof -
  from assms(1) obtain vec k where k: "k = (if ec_decay_rate (em_cfg m) > 0 then ec_top_k (em_cfg m) * 2 else ec_top_k (em_cfg m))"
    and h: "hits = (let r = vs_search (em_numpy m) (w_vectors w') u vec k (ec_min_score (em_cfg m))
      in if ec_decay_rate (em_cfg m) > 0 then apply_decay (em_cfg m) (w_now w') r else r)"
    by (rule em_retrieve_cases)
  have s: "int (length (vs_search np s u q k ms)) \<le> max 0 k" "sorted_wrt (\<lambda>a b. hit_score b \<le> hit_score a) (vs_search np s u q k ms)"
    for np s q k ms
    by (cases "0 < k \<and> np_norm np q \<noteq> 0";
        auto simp: vs_search_eq intro!: sorted_wrt_take sorted_sort_desc; auto simp: vs_search_def Let_def)+
  show ?thesis
  proof (cases "ec_decay_rate (em_cfg m) > 0")
    case True
    with h assms(2) show ?thesis
      by (simp add: apply_decay_take sorted_wrt_take sorted_sort_desc)
  next
    case False
    with h k s(1) [of "em_numpy m" "w_vectors w'" vec k "ec_min_score (em_cfg m)"] s(2) assms(2) show ?thesis
      by simp
  qed
qed

section \<open>Point ids\<close>

lemma colon_digits: "58 \<notin> set (py_int (int i))"
  using set_nat_digits [of i] by (auto simp: py_int_def)

lemma moment_id_inject [simp]: "moment_id c i = moment_id c' j \<longleftrightarrow> c = c' \<and> i = j"
proof
  assume "moment_id c i = moment_id c' j"
  then have "c @ 58 # py_int (int i) = c' @ 58 # py_int (int j)"
    by (simp add: moment_id_def py_def)
  then have "rev (c @ 58 # py_int (int i)) = rev (c' @ 58 # py_int (int j))"
    by (rule arg_cong)
  then have "rev (py_int (int i)) @ 58 # rev c = rev (py_int (int j)) @ 58 # rev c'"
    by simp
  then have "py_int (int i) = py_int (int j) \<and> c = c'"
    by (subst (asm) append_sep_eq_iff) (auto simp: colon_digits)
  then show "c = c' \<and> i = j"
    by (simp add: py_int_def)
qed simp

lemma conv_id_inject [simp]: "conv_id c = conv_id c' \<longleftrightarrow> c = c'"
  by (simp add: conv_id_def)

lemma conv_id_moment_id [simp]: "conv_id c \<noteq> moment_id c' i" "moment_id c' i \<noteq> conv_id c"
  by (auto simp: conv_id_def moment_id_def py_def)

lemma in_forget_ids: "pid \<in> set (forget_ids cfg c) \<longleftrightarrow>
    pid = conv_id c \<or> (\<exists>i < nat (ec_max_flagged_moments cfg). pid = moment_id c i)"
  by (auto simp: forget_ids_def)

lemma em_forget_effect:
  assumes "0 \<le> max_retries (em_store_retry m)"
  shows "em_forget_conversation m u c w =
    (w\<lparr>w_vectors := vs_delete (w_vectors w) (forget_ids (em_cfg m) c) u\<rparr>, Inr (1 + int (nat (ec_max_flagged_moments (em_cfg m)))))"
proof -
  have "vectors_delete (forget_ids (em_cfg m) c) u w =
      (w\<lparr>w_vectors := vs_delete (w_vectors w) (forget_ids (em_cfg m) c) u\<rparr>, Inr ())"
    by (simp add: vectors_delete_def)
  from retried_write_ok [where op = "vectors_delete (forget_ids (em_cfg m) c) u", OF assms this] show ?thesis
    by (simp add: em_forget_conversation_def seq_Inr ret_apply forget_ids_def)
qed

section \<open>One point per conversation\<close>

lemma write_moments_off:
  "\<not> ec_flagged_moments_enabled (em_cfg m) \<or> em_llm_moments m = None \<Longrightarrow> write_moments m u c txt w = (w, Inr ())"
  by (auto simp: write_moments_def em_extract_moments_def seq_def ret_def split: option.splits)

lemma em_write_effect:
  assumes "0 \<le> max_retries (em_store_retry m)"
    and "\<not> ec_flagged_moments_enabled (em_cfg m) \<or> em_llm_moments m = None"
    and "compose_conversation summary turns = txt" and "txt \<noteq> []"
    and "em_embed_one m txt w = (w', Inr vec)"
  shows "em_write_conversation m u c summary turns w =
    (w'\<lparr>w_vectors := dict_set (conv_id c) (conversation_point u c txt vec (w_now w')) (w_vectors w')\<rparr>, Inr ())"
proof -
  have "vectors_add [conversation_point u c txt vec (w_now w')] w' =
      (w'\<lparr>w_vectors := dict_set (conv_id c) (conversation_point u c txt vec (w_now w')) (w_vectors w')\<rparr>, Inr ())"
    by (simp add: vectors_add_def conversation_point_def)
  from retried_write_ok [where op = "vectors_add [conversation_point u c txt vec (w_now w')]", OF assms(1) this] assms show ?thesis
    by (simp add: em_write_conversation_def seq_Inr write_moments_off)
qed

lemma dict_ok_one: "dict_ok d \<Longrightarrow> length (filter (\<lambda>(i, _). i = k) (dict_set k v d)) = 1"
proof -
  have "length (filter (\<lambda>(i, _). i = k) d) = (if k \<in> fst ` set d then 1 else 0)" if "dict_ok d" for d :: "('a \<times> 'b) list"
    using that by (induction d) (auto simp: filter_empty_conv)
  moreover assume "dict_ok d"
  ultimately show ?thesis
    by (simp add: dom_update)
qed

text \<open>However often a conversation is finalized, it has one point, and no other is touched.\<close>

lemma one_point_per_conversation:
  assumes "0 \<le> max_retries (em_store_retry m)" and "\<not> ec_flagged_moments_enabled (em_cfg m) \<or> em_llm_moments m = None"
    and "compose_conversation summary turns \<noteq> []"
    and "em_embed_one m (compose_conversation summary turns) w = (w', Inr vec)" and "dict_ok (w_vectors w')"
  shows "\<exists>vs. em_write_conversation m u c summary turns w = (w'\<lparr>w_vectors := vs\<rparr>, Inr ())
    \<and> length (filter (\<lambda>(i, p). i = conv_id c) vs) = 1
    \<and> map_of vs (conv_id c) = Some (conversation_point u c (compose_conversation summary turns) vec (w_now w'))
    \<and> (\<forall>i. i \<noteq> conv_id c \<longrightarrow> map_of vs i = map_of (w_vectors w') i)"
  using dict_ok_one [OF assms(5)]
  by (intro exI [of _ "dict_set (conv_id c) (conversation_point u c (compose_conversation summary turns) vec (w_now w')) (w_vectors w')"])
    (simp add: dict_simps em_write_effect [OF assms(1,2) refl assms(3,4)])

text \<open>Whatever the embedder and the store hold, a retrieval returns at most \<open>top_k\<close> of the user's own points, best first.\<close>

lemma retrieval_is_private:
  assumes "em_retrieve m u msg ts w = (w', Inr hits)" and "0 \<le> ec_top_k (em_cfg m)"
  shows "int (length hits) \<le> ec_top_k (em_cfg m) \<and> sorted_wrt (\<lambda>a b. hit_score b \<le> hit_score a) hits
    \<and> (\<forall>h \<in> set hits. owned_by u (hit_point h) \<and> hit_point h \<in> snd ` set (w_vectors w'))"
  using em_retrieve_top_k [OF assms] em_retrieve_owned [OF assms(1) _ assms(2)] by blast

end
