(* ===== verification/Skills.thy ===== *)
theory Skills
  imports Errors Skill_Store
begin

text \<open>
  \<open>skills/loader.py\<close> and \<open>skills/manager.py\<close>. The file system and the YAML parser are parameters: a path
  is the list of its components, \<open>fs_iterdir\<close> lists a directory in sorted order. \<open>yaml.safe_load\<close> returns
  a value or the error it raises; the code catches \<open>YAMLError\<close>, written \<open>ValueError\<close> here.
\<close>

type_synonym path = "pystr list"

record filesystem =
  fs_exists :: "path \<Rightarrow> bool"
  fs_is_dir :: "path \<Rightarrow> bool"
  fs_iterdir :: "path \<Rightarrow> path list"
  fs_read_text :: "path \<Rightarrow> pystr res"

type_synonym yaml_loader = "pystr \<Rightarrow> json res"

record skill_meta =
  sm_name :: pystr
  sm_description :: pystr
  sm_allowed_tools :: "pystr list"
  sm_path :: path
  sm_skill_dir :: path

definition SKILL_FILENAME :: pystr where
  "SKILL_FILENAME = py ''SKILL.md''"

definition FRONTMATTER_DELIMITER :: pystr where
  "FRONTMATTER_DELIMITER = py ''---''"

section \<open>Lines\<close>

text \<open>\<open>str.splitlines(keepends=True)\<close>.\<close>

definition is_linebreak :: "nat \<Rightarrow> bool" where
  "is_linebreak c \<longleftrightarrow> (10 \<le> c \<and> c \<le> 13) \<or> (28 \<le> c \<and> c \<le> 30) \<or> c = 133 \<or> c = 8232 \<or> c = 8233"

fun splitlines :: "pystr \<Rightarrow> pystr list" where
  "splitlines [] = []"
| "splitlines (c # cs) =
     (if c = 13 \<and> cs \<noteq> [] \<and> hd cs = 10 then [13, 10] # splitlines (tl cs)
      else if is_linebreak c then [c] # splitlines cs
      else case splitlines cs of
          [] \<Rightarrow> [[c]]
        | l # ls \<Rightarrow> (c # l) # ls)"

lemma concat_splitlines: "concat (splitlines s) = s"
proof (induction s rule: splitlines.induct)
  case (2 c cs)
  then show ?case
    by (cases "c = 13 \<and> cs \<noteq> [] \<and> hd cs = 10") (auto simp: neq_Nil_conv split: list.splits)
qed simp

section \<open>Loader\<close>

fun closing_line :: "nat \<Rightarrow> pystr list \<Rightarrow> nat option" where
  "closing_line i [] = None"
| "closing_line i (line # rest) = (if rstrip line = FRONTMATTER_DELIMITER then Some i else closing_line (Suc i) rest)"

definition split_frontmatter :: "yaml_loader \<Rightarrow> pystr \<Rightarrow> (payload \<times> pystr) res" where
  "split_frontmatter yaml raw =
     (let lines = splitlines raw
      in if lines = [] \<or> rstrip (hd lines) \<noteq> FRONTMATTER_DELIMITER then Inr ([], raw)
         else case closing_line 1 (tl lines) of
             None \<Rightarrow> Inr ([], raw)
           | Some close_idx \<Rightarrow>
               let fm_text = concat (take (close_idx - 1) (tl lines));
                   body = concat (drop (close_idx + 1) lines)
               in case yaml fm_text of
                   Inl (ValueError _) \<Rightarrow> Inr ([], raw)
                 | Inl e \<Rightarrow> Inl e
                 | Inr (JObj fm) \<Rightarrow> Inr (fm, body)
                 | Inr v \<Rightarrow> if v \<in> {JNull, JBool False, JInt 0, JFloat 0, JStr [], JList []} then Inr ([], body)
                            else Inr ([], raw))"

text \<open>\<open>str.split()\<close>: words between whitespace.\<close>

fun split_words :: "pystr \<Rightarrow> pystr \<Rightarrow> pystr list" where
  "split_words word [] = (if word = [] then [] else [word])"
| "split_words word (c # cs) =
     (if is_space c then (if word = [] then split_words [] cs else word # split_words [] cs)
      else split_words (word @ [c]) cs)"

definition json_truthy :: "json \<Rightarrow> bool" where
  "json_truthy v \<longleftrightarrow> (case v of JNull \<Rightarrow> False | JBool b \<Rightarrow> b | JInt i \<Rightarrow> i \<noteq> 0 | JFloat r \<Rightarrow> r \<noteq> 0
     | JStr s \<Rightarrow> s \<noteq> [] | JList xs \<Rightarrow> xs \<noteq> [] | JObj kvs \<Rightarrow> kvs \<noteq> [])"

text \<open>Control flow while reading one skill is the result's exception; every \<open>Exception\<close> is no skill.\<close>

definition load_skill_dir :: "(real \<Rightarrow> pystr) \<Rightarrow> filesystem \<Rightarrow> yaml_loader \<Rightarrow> path \<Rightarrow> skill_meta option res" where
  "load_skill_dir fl fs yaml skill_dir =
     (let skill_md = skill_dir @ [SKILL_FILENAME]
      in if \<not> fs_exists fs skill_md then Inr None
         else case (case fs_read_text fs skill_md of Inl e \<Rightarrow> Inl e | Inr raw \<Rightarrow> split_frontmatter yaml raw) of
             Inl e \<Rightarrow> if is_control_flow e then Inl e else Inr None
           | Inr (frontmatter, _) \<Rightarrow>
               let name = strip (arg_str fl frontmatter (py ''name''));
                   description = strip (arg_str fl frontmatter (py ''description''));
                   allowed_tools = (case map_of frontmatter (py ''allowed-tools'') of
                       None \<Rightarrow> []
                     | Some v \<Rightarrow> if json_truthy v then split_words [] (json_str fl v) else [])
               in if name = [] then Inr None
                  else if description = [] then Inr None
                  else Inr (Some \<lparr>sm_name = name, sm_description = description, sm_allowed_tools = allowed_tools,
                                  sm_path = skill_md, sm_skill_dir = skill_dir\<rparr>))"

fun load_candidates :: "(real \<Rightarrow> pystr) \<Rightarrow> filesystem \<Rightarrow> yaml_loader \<Rightarrow> path list \<Rightarrow> skill_meta list res" where
  "load_candidates fl fs yaml [] = Inr []"
| "load_candidates fl fs yaml (candidate # rest) =
     (if \<not> fs_is_dir fs candidate then load_candidates fl fs yaml rest
      else case load_skill_dir fl fs yaml candidate of
          Inl e \<Rightarrow> Inl e
        | Inr meta \<Rightarrow>
            (case load_candidates fl fs yaml rest of
               Inl e \<Rightarrow> Inl e
             | Inr metas \<Rightarrow> Inr (case meta of None \<Rightarrow> metas | Some m \<Rightarrow> m # metas)))"

fun discover_skills :: "(real \<Rightarrow> pystr) \<Rightarrow> filesystem \<Rightarrow> yaml_loader \<Rightarrow> path list \<Rightarrow> skill_meta list res" where
  "discover_skills fl fs yaml [] = Inr []"
| "discover_skills fl fs yaml (base # rest) =
     (if \<not> fs_exists fs base \<or> \<not> fs_is_dir fs base then discover_skills fl fs yaml rest
      else case load_candidates fl fs yaml (fs_iterdir fs base) of
          Inl e \<Rightarrow> Inl e
        | Inr metas \<Rightarrow> (case discover_skills fl fs yaml rest of Inl e \<Rightarrow> Inl e | Inr rest_metas \<Rightarrow> Inr (metas @ rest_metas)))"

definition skill_read_body :: "filesystem \<Rightarrow> yaml_loader \<Rightarrow> skill_meta \<Rightarrow> pystr res" where
  "skill_read_body fs yaml meta =
     (case fs_read_text fs (sm_path meta) of
        Inl e \<Rightarrow> Inl e
      | Inr raw \<Rightarrow> (case split_frontmatter yaml raw of Inl e \<Rightarrow> Inl e | Inr (_, body) \<Rightarrow> Inr (strip body)))"

section \<open>Manager\<close>

type_synonym skill_index = "(pystr \<times> skill_meta) list"

fun index_skills :: "skill_index \<Rightarrow> skill_meta list \<Rightarrow> skill_index" where
  "index_skills d [] = d"
| "index_skills d (s # ss) = index_skills (dict_set (sm_name s) s d) ss"

definition skill_manager_init :: "skill_meta list \<Rightarrow> skill_index" where
  "skill_manager_init skills = index_skills [] skills"

definition visible_skills :: "skill_index \<Rightarrow> pystr set option \<Rightarrow> skill_meta list" where
  "visible_skills idx allowed =
     map snd (filter (\<lambda>(name, _). skill_visible allowed name) (sort_key fst idx))"

definition metadata_block :: "skill_index \<Rightarrow> pystr set option \<Rightarrow> pystr \<Rightarrow> pystr" where
  "metadata_block idx allowed header =
     (let visible = visible_skills idx allowed
      in if visible = [] then []
         else join nl (header # map (\<lambda>meta. py ''- '' @ sm_name meta @ py '': '' @ sm_description meta) visible))"

definition manager_read_body :: "filesystem \<Rightarrow> yaml_loader \<Rightarrow> skill_index \<Rightarrow> pystr \<Rightarrow> pystr set option \<Rightarrow> pystr option res" where
  "manager_read_body fs yaml idx name allowed =
     (case map_of idx name of
        None \<Rightarrow> Inr None
      | Some meta \<Rightarrow> if \<not> skill_visible allowed name then Inr None
                     else (case skill_read_body fs yaml meta of Inl e \<Rightarrow> Inl e | Inr body \<Rightarrow> Inr (Some body)))"

definition skills_list_all :: "skill_index \<Rightarrow> skill_meta list" where
  "skills_list_all idx = map snd idx"

section \<open>Properties of the parts\<close>

text \<open>A bad skill never fails the discovery.\<close>

definition yaml_total :: "filesystem \<Rightarrow> yaml_loader \<Rightarrow> bool" where
  "yaml_total fs yaml \<longleftrightarrow> (\<forall>p e. fs_read_text fs p = Inl e \<longrightarrow> \<not> is_control_flow e)
     \<and> (\<forall>s e. yaml s = Inl e \<longrightarrow> \<not> is_control_flow e)"

lemma split_frontmatter_error: "split_frontmatter yaml raw = Inl e \<Longrightarrow> \<exists>s. yaml s = Inl e"
  by (auto simp: split_frontmatter_def Let_def split: if_splits option.splits sum.splits exn.splits json.splits)

lemma load_skill_dir_total: "yaml_total fs yaml \<Longrightarrow> \<exists>m. load_skill_dir fl fs yaml d = Inr m"
  by (auto simp: load_skill_dir_def yaml_total_def Let_def split: sum.splits prod.splits dest: split_frontmatter_error)

lemma discover_skills_total: "yaml_total fs yaml \<Longrightarrow> \<exists>ms. discover_skills fl fs yaml ps = Inr ms"
proof (induction ps)
  case (Cons p ps)
  have "\<exists>ms. load_candidates fl fs yaml cs = Inr ms" for cs
  proof (induction cs)
    case (Cons c cs)
    then show ?case
      using load_skill_dir_total [OF \<open>yaml_total fs yaml\<close>, of fl c] by (auto split: option.splits)
  qed simp
  then obtain ms where "load_candidates fl fs yaml (fs_iterdir fs p) = Inr ms" by blast
  with Cons show ?case by auto
qed simp

lemma index_skills_names: "\<forall>(n, m) \<in> set d. sm_name m = n \<Longrightarrow> \<forall>(n, m) \<in> set (index_skills d ss). sm_name m = n"
proof (induction d ss rule: index_skills.induct)
  case (2 d s ss)
  then show ?case
    by (simp add: ball_dict_set)
qed simp

lemma set_visible_skills: "set (visible_skills idx allowed) = {m. \<exists>n. (n, m) \<in> set idx \<and> skill_visible allowed n}"
  by (force simp: visible_skills_def)

end
