(* ===== verification/Native_Tools.thy ===== *)
theory Native_Tools
  imports Tool_Registry Factual_Memory Episodic_Memory Skills
begin

text \<open>
  \<open>tools/native.py\<close> and \<open>tools/skill_tools.py\<close>: the tools that act on the calling user's own memory.
  \<open>fl\<close> is the text of a float, \<open>score_str\<close> that of a score with two decimals. 8212 is the em dash.
\<close>

definition string_property :: "pystr \<Rightarrow> json" where
  "string_property description = JObj [(py ''type'', JStr (py ''string'')), (py ''description'', JStr description)]"

definition object_schema :: "(pystr \<times> json) list \<Rightarrow> pystr list \<Rightarrow> payload" where
  "object_schema props required = [(py ''type'', JStr (py ''object'')), (py ''properties'', JObj props)]
     @ (if required = [] then [] else [(py ''required'', JList (map JStr required))])"

section \<open>Facts\<close>

definition remember_fact_handler :: "(real \<Rightarrow> pystr) \<Rightarrow> pystr \<Rightarrow> payload \<Rightarrow> ('x, pystr) wio" where
  "remember_fact_handler fl user_id args =
     (let key = arg_str fl args (py ''key''); val = arg_str fl args (py ''value'')
      in if key = [] then ret (py ''error: 'key' is required'')
         else seq (fm_remember user_id key val) (\<lambda>_. ret (py ''remembered: '' @ key @ py '' = '' @ val)))"

definition remember_fact_tool :: "(real \<Rightarrow> pystr) \<Rightarrow> bool \<Rightarrow> 'x tool" where
  "remember_fact_tool fl episodic_enabled = \<lparr>t_definition = \<lparr>td_name = py ''remember_fact'',
     td_description = py ''Store or update a durable fact about the user for future conversations. '' @
       py ''Use this for anything timeless and true about the user: preferences, '' @
       py ''occupation, habits, skills, location, dietary needs, constraints, or any '' @
       py ''other stable attribute. Calling with the same key overwrites the previous '' @
       py ''value, so this also serves as an update.'' @
       (if episodic_enabled
        then py '' Do not use for past discussion topics or conversation context'' @ py '' '' @ [8212] @
          py '' those belong in episodic memory.''
        else py '' Do not use for transient discussion topics or one-off conversation context.''),
     td_parameters = object_schema
       [(py ''key'', string_property (py ''Short fact name, e.g. 'seat_preference'.'')),
        (py ''value'', string_property (py ''The fact's value.''))] [py ''key'', py ''value'']\<rparr>,
     t_handler = in_time (remember_fact_handler fl)\<rparr>"

definition forget_fact_handler :: "(real \<Rightarrow> pystr) \<Rightarrow> pystr \<Rightarrow> payload \<Rightarrow> ('x, pystr) wio" where
  "forget_fact_handler fl user_id args =
     (let key = arg_str fl args (py ''key'')
      in if key = [] then ret (py ''error: 'key' is required'')
         else seq (fm_forget user_id key)
                (\<lambda>existed. ret (if existed then py ''forgot: '' @ key else py ''no such fact: '' @ key)))"

definition forget_fact_tool :: "(real \<Rightarrow> pystr) \<Rightarrow> 'x tool" where
  "forget_fact_tool fl = \<lparr>t_definition = \<lparr>td_name = py ''forget_fact'',
     td_description = py ''Delete a fact about the user by its key. Use this when the user explicitly '' @
       py ''asks to forget something, or when a fact is no longer true and should be '' @
       py ''removed entirely rather than updated.'',
     td_parameters = object_schema [(py ''key'', string_property (py ''The fact name to remove.''))] [py ''key'']\<rparr>,
     t_handler = in_time (forget_fact_handler fl)\<rparr>"

text \<open>The lines \<open>- key: value\<close>, also used by the context builder.\<close>

definition fact_lines :: "(real \<Rightarrow> pystr) \<Rightarrow> payload \<Rightarrow> pystr" where
  "fact_lines fl fs = join nl (map (\<lambda>(k, v). py ''- '' @ k @ py '': '' @ json_str fl v) fs)"

definition list_facts_handler :: "(real \<Rightarrow> pystr) \<Rightarrow> pystr \<Rightarrow> payload \<Rightarrow> ('x, pystr) wio" where
  "list_facts_handler fl user_id args =
     seq (fm_get user_id) (\<lambda>profile.
       ret (if facts profile = [] then py ''no facts stored'' else fact_lines fl (facts profile)))"

definition list_facts_tool :: "(real \<Rightarrow> pystr) \<Rightarrow> 'x tool" where
  "list_facts_tool fl = \<lparr>t_definition = \<lparr>td_name = py ''list_facts'',
     td_description = py ''List all durable facts currently remembered about the user.'',
     td_parameters = object_schema [] []\<rparr>, t_handler = in_time (list_facts_handler fl)\<rparr>"

section \<open>Episodic memory\<close>

definition recall_line :: "(real \<Rightarrow> pystr) \<Rightarrow> (real \<Rightarrow> pystr) \<Rightarrow> memory_hit \<Rightarrow> pystr" where
  "recall_line fl score_str h =
     py ''- ['' @ arg_str fl (mp_payload (hit_point h)) (py ''conversation_id'') @ py ''] ('' @ score_str (hit_score h) @
     py '') '' @ arg_str fl (mp_payload (hit_point h)) (py ''text'')"

definition recall_handler :: "(real \<Rightarrow> pystr) \<Rightarrow> (real \<Rightarrow> pystr) \<Rightarrow> 'x episodic_memory \<Rightarrow> pystr \<Rightarrow> payload \<Rightarrow> ('x, pystr) wio" where
  "recall_handler fl score_str episodic user_id args =
     (let query = arg_str fl args (py ''query'')
      in if query = [] then ret (py ''error: 'query' is required'')
         else seq (em_retrieve episodic user_id query []) (\<lambda>hits.
           ret (if hits = [] then py ''no relevant memories found''
                else join nl (map (recall_line fl score_str) hits))))"

definition recall_tool :: "(real \<Rightarrow> pystr) \<Rightarrow> (real \<Rightarrow> pystr) \<Rightarrow> 'x episodic_memory \<Rightarrow> 'x tool" where
  "recall_tool fl score_str episodic = \<lparr>t_definition = \<lparr>td_name = py ''recall'',
     td_description = py ''Search the user's past conversation topics and discussion threads for relevant '' @
       py ''context. Use this to find past situations, problems the user worked through, or '' @
       py ''topics explored '' @ [8212] @ py '' not to look up facts about the user (use list_facts for that). '' @
       py ''Each result is prefixed with [conversation_id]; pass that ID to forget_memory '' @
       py ''to remove a specific memory.'',
     td_parameters = object_schema [(py ''query'', string_property (py ''What to search for.''))] [py ''query'']\<rparr>,
     t_handler = in_time (recall_handler fl score_str episodic)\<rparr>"

definition forget_memory_handler :: "(real \<Rightarrow> pystr) \<Rightarrow> 'x episodic_memory \<Rightarrow> pystr \<Rightarrow> payload \<Rightarrow> ('x, pystr) wio" where
  "forget_memory_handler fl episodic user_id args =
     (let conversation_id = arg_str fl args (py ''conversation_id'')
      in if conversation_id = [] then ret (py ''error: 'conversation_id' is required'')
         else seq (em_forget_conversation episodic user_id conversation_id) (\<lambda>deleted.
           ret (if deleted = 0 then py ''no memory found for conversation_id: '' @ conversation_id
                else py ''forgot '' @ py_int deleted @ py '' memory point(s) for conversation: '' @ conversation_id)))"

definition forget_memory_tool :: "(real \<Rightarrow> pystr) \<Rightarrow> 'x episodic_memory \<Rightarrow> 'x tool" where
  "forget_memory_tool fl episodic = \<lparr>t_definition = \<lparr>td_name = py ''forget_memory'',
     td_description = py ''Delete all episodic memory (past conversation records) associated with a '' @
       py ''specific conversation. Use this when the user explicitly asks to forget a '' @
       py ''past conversation. Find the conversation_id from the recall tool's output '' @
       py ''(shown in brackets before each result). This action is irreversible '' @ [8212] @ py '' the '' @
       py ''conversation's embeddings are permanently removed.'',
     td_parameters = object_schema [(py ''conversation_id'',
       string_property (py ''The conversation_id to forget, as shown in recall output.''))] [py ''conversation_id'']\<rparr>,
     t_handler = in_time (forget_memory_handler fl episodic)\<rparr>"

section \<open>Skills\<close>

definition read_skill_handler :: "(real \<Rightarrow> pystr) \<Rightarrow> filesystem \<Rightarrow> yaml_loader \<Rightarrow> skill_index \<Rightarrow> pystr \<Rightarrow> payload \<Rightarrow> ('x, pystr) wio" where
  "read_skill_handler fl fs yaml idx user_id args =
     (let name = strip (arg_str fl args (py ''name''))
      in if name = [] then ret (py ''error: 'name' is required'')
         else seq (skills_allowed user_id) (\<lambda>allowed.
           case manager_read_body fs yaml idx name allowed of
             Inl e \<Rightarrow> throw e
           | Inr (Some body) \<Rightarrow> ret body
           | Inr None \<Rightarrow>
               let visible = sort (map sm_name (filter (\<lambda>s. skill_visible allowed (sm_name s)) (skills_list_all idx)));
                   listed = (if visible \<noteq> [] then join (py '', '') visible else py ''none'')
               in ret (py ''skill '' @ py_repr name @ py '' not found. Available: '' @ listed)))"

definition read_skill_tool :: "(real \<Rightarrow> pystr) \<Rightarrow> filesystem \<Rightarrow> yaml_loader \<Rightarrow> skill_index \<Rightarrow> 'x tool" where
  "read_skill_tool fl fs yaml idx = \<lparr>t_definition = \<lparr>td_name = py ''read_skill'',
     td_description = py ''Load the full instructions for an available skill by name. '' @
       py ''Call this when a task matches a skill's description.'',
     td_parameters = object_schema [(py ''name'', string_property (py ''Skill name exactly as listed.''))] [py ''name'']\<rparr>,
     t_handler = in_time (read_skill_handler fl fs yaml idx)\<rparr>"

section \<open>The tools act for their caller only\<close>

lemma remember_fact_effect:
  "key = arg_str fl args (py ''key'') \<Longrightarrow> key \<noteq> [] \<Longrightarrow>
     snd (remember_fact_handler fl u args w) = Inr (py ''remembered: '' @ key @ py '' = '' @ arg_str fl args (py ''value'')) \<and>
     user_facts (fst (remember_fact_handler fl u args w)) v =
       (if v = u then dict_update (user_facts w u) [(key, JStr (arg_str fl args (py ''value'')))] else user_facts w v)"
  using fm_remember_facts [of u key "arg_str fl args (py ''value'')" w]
  by (auto simp: remember_fact_handler_def Let_def seq_def ret_def split: prod.splits sum.splits)

lemma forget_fact_effect:
  assumes "arg_str fl args (py ''key'') = key" and "key \<noteq> []"
  shows "map_of (user_facts (fst (forget_fact_handler fl u args w)) u) key = None"
    and "v \<noteq> u \<Longrightarrow> user_facts (fst (forget_fact_handler fl u args w)) v = user_facts w v"
    and "snd (forget_fact_handler fl u args w) =
      Inr (if map_of (user_facts w u) key = None then py ''no such fact: '' @ key else py ''forgot: '' @ key)"
proof -
  obtain w' where f: "fm_forget u key w = (w', Inr (map_of (user_facts w u) key \<noteq> None))"
    using fm_forget_facts(1) [of u key w] by (cases "fm_forget u key w") auto
  with fm_forget_facts(2,3) [where u = u and k = key and w = w] assms
  show "map_of (user_facts (fst (forget_fact_handler fl u args w)) u) key = None"
    and "v \<noteq> u \<Longrightarrow> user_facts (fst (forget_fact_handler fl u args w)) v = user_facts w v"
    and "snd (forget_fact_handler fl u args w) =
      Inr (if map_of (user_facts w u) key = None then py ''no such fact: '' @ key else py ''forgot: '' @ key)"
    by (simp_all add: forget_fact_handler_def Let_def seq_Inr ret_apply)
qed

text \<open>A skill the user may not see is never read from disk for him.\<close>

lemma read_skill_hidden:
  assumes "strip (arg_str fl args (py ''name'')) = name"
    and "\<not> skill_visible (sk_allowed_skills (w_skills w) u) name \<or> map_of idx name = None"
  shows "read_skill_handler fl fs yaml idx u args w = read_skill_handler fl fs' yaml' idx u args w"
  using assms
  by (auto simp: read_skill_handler_def skills_allowed_def manager_read_body_def Let_def seq_Inr ret_apply split: option.splits)

end
