(* ===== verification/Context.thy ===== *)
theory Context
  imports Budgeter Working_Memory Native_Tools
begin

text \<open>
  \<open>agent/context.py\<close>: gathering the sources for one user, budgeting them and assembling the messages. The
  skill store always comes with the service; \<open>cb_skills\<close> is the skill manager, if there is one. The
  gathering is \<open>cb_build\<close>, the rest of the same method is \<open>cb_assemble\<close>.
\<close>

record assembled_context =
  ctx_messages :: "message list"
  ctx_tools :: "tool_definition list"
  ctx_episodic_hits :: int
  ctx_buffer_turns :: int
  ctx_used_tokens :: int
  ctx_dropped_turns :: int
  ctx_rolled_summary :: pystr

record 'x context_builder =
  cb_agent_cfg :: agent_config
  cb_episodic :: "'x episodic_memory option"
  cb_registry :: "'x registry"
  cb_context_cfg :: context_config
  cb_estimate :: estimator
  cb_system_prompt_fn :: "(pystr \<Rightarrow> pystr \<Rightarrow> ('x, pystr) wio) option"
  cb_skills :: "skill_index option"
  cb_float_str :: "real \<Rightarrow> pystr"

section \<open>Formatting\<close>

definition format_factual :: "(real \<Rightarrow> pystr) \<Rightarrow> user_profile \<Rightarrow> pystr \<Rightarrow> pystr" where
  "format_factual fl profile header =
     (if facts profile = [] then [] else header @ nl @ fact_lines fl (facts profile))"

definition format_episodic :: "(real \<Rightarrow> pystr) \<Rightarrow> memory_hit list \<Rightarrow> pystr \<Rightarrow> pystr" where
  "format_episodic fl hits header =
     (if hits = [] then []
      else header @ nl @ join nl (map (\<lambda>h. py ''- '' @ arg_str fl (mp_payload (hit_point h)) (py ''text'')) hits))"

definition turn_to_message :: "turn \<Rightarrow> message" where
  "turn_to_message turn =
     (if turn_role turn = py ''assistant''
      then if turn_tool_calls turn \<noteq> [] then MAssistantToolCalls (turn_tool_calls turn) (or_none (turn_text turn))
           else MAssistant (turn_text turn)
      else if turn_role turn = py ''tool''
      then MToolResult (case turn_tool_call_id turn of None \<Rightarrow> [] | Some i \<Rightarrow> i) (turn_text turn)
      else MUser (turn_text turn))"

definition compose_system :: "agent_config \<Rightarrow> pystr \<Rightarrow> pystr \<Rightarrow> pystr \<Rightarrow> pystr \<Rightarrow> pystr \<Rightarrow> pystr" where
  "compose_system cfg dynamic skills_block factual episodic summary =
     join (nl @ nl) ([ac_system_prompt cfg]
       @ (if dynamic \<noteq> [] then [dynamic] else [])
       @ (if skills_block \<noteq> [] then [skills_block] else [])
       @ (if factual \<noteq> [] then [factual] else [])
       @ (if episodic \<noteq> [] then [episodic] else [])
       @ (if summary \<noteq> [] then [ac_summary_block_header cfg @ nl @ summary] else []))"

section \<open>Assembly\<close>

definition budget_inputs_of :: "'x context_builder \<Rightarrow> pystr \<Rightarrow> working_snapshot \<Rightarrow> user_profile \<Rightarrow> memory_hit list
    \<Rightarrow> tool_definition list \<Rightarrow> pystr \<Rightarrow> pystr \<Rightarrow> budget_inputs" where
  "budget_inputs_of b user_message snapshot profile hits tools dynamic_text skills_block =
     \<lparr>in_system_fixed = ac_system_prompt (cb_agent_cfg b)
        @ (if dynamic_text \<noteq> [] then nl @ nl @ dynamic_text else [])
        @ (if skills_block \<noteq> [] then nl @ nl @ skills_block else []),
      in_current_message = user_message,
      in_tool_text = join (py '' '') (map (\<lambda>t. td_name t @ py '' '' @ td_description t) tools),
      in_factual_block = format_factual (cb_float_str b) profile (ac_factual_block_header (cb_agent_cfg b)),
      in_buffer = sn_buffer snapshot, in_summary = sn_summary snapshot, in_episodic = hits\<rparr>"

definition cb_assemble :: "'x context_builder \<Rightarrow> pystr \<Rightarrow> working_snapshot \<Rightarrow> user_profile \<Rightarrow> memory_hit list
    \<Rightarrow> tool_definition list \<Rightarrow> pystr \<Rightarrow> pystr \<Rightarrow> assembled_context res" where
  "cb_assemble b user_message snapshot profile hits tools dynamic_text skills_block =
     (case allocate (cb_estimate b) (cb_context_cfg b)
             (budget_inputs_of b user_message snapshot profile hits tools dynamic_text skills_block) of
        Inl e \<Rightarrow> Inl e
      | Inr bud \<Rightarrow>
          let system_text = compose_system (cb_agent_cfg b) dynamic_text skills_block
                (format_factual (cb_float_str b) profile (ac_factual_block_header (cb_agent_cfg b)))
                (format_episodic (cb_float_str b) (out_episodic bud) (ac_episodic_block_header (cb_agent_cfg b)))
                (out_summary bud)
          in Inr \<lparr>ctx_messages = [MSystem system_text] @ map turn_to_message (out_buffer bud) @ [MUser user_message],
                  ctx_tools = tools, ctx_episodic_hits = int (length (out_episodic bud)),
                  ctx_buffer_turns = int (length (out_buffer bud)), ctx_used_tokens = used_tokens bud,
                  ctx_dropped_turns = int (length (sn_buffer snapshot)) - int (length (out_buffer bud)),
                  ctx_rolled_summary = out_summary bud\<rparr>)"

definition cb_build :: "'x context_builder \<Rightarrow> pystr \<Rightarrow> pystr \<Rightarrow> pystr \<Rightarrow> ('x, assembled_context) wio" where
  "cb_build b user_id conversation_id user_message =
     seq (wm_load conversation_id user_id) (\<lambda>snapshot.
     seq (fm_get user_id) (\<lambda>profile.
     seq (case cb_episodic b of
            None \<Rightarrow> ret []
          | Some episodic \<Rightarrow> em_retrieve episodic user_id user_message (sn_buffer snapshot)) (\<lambda>hits.
     seq (reg_definitions (cb_registry b) user_id) (\<lambda>tools.
     seq (case cb_system_prompt_fn b of None \<Rightarrow> ret [] | Some f \<Rightarrow> f user_id conversation_id) (\<lambda>dynamic_text.
     seq (case cb_skills b of
            None \<Rightarrow> ret []
          | Some idx \<Rightarrow> seq (skills_allowed user_id)
              (\<lambda>allowed. ret (metadata_block idx allowed (ac_skills_block_header (cb_agent_cfg b))))) (\<lambda>skills_block w.
     (w, cb_assemble b user_message snapshot profile hits tools dynamic_text skills_block)))))))"

section \<open>Shape of the result\<close>

lemma cb_assemble_cases:
  assumes "cb_assemble b msg sn p hits tools dyn sk = Inr ctx"
  obtains bud where "allocate (cb_estimate b) (cb_context_cfg b) (budget_inputs_of b msg sn p hits tools dyn sk) = Inr bud"
    and "ctx_messages ctx = [MSystem (compose_system (cb_agent_cfg b) dyn sk
           (format_factual (cb_float_str b) p (ac_factual_block_header (cb_agent_cfg b)))
           (format_episodic (cb_float_str b) (out_episodic bud) (ac_episodic_block_header (cb_agent_cfg b)))
           (out_summary bud))] @ map turn_to_message (out_buffer bud) @ [MUser msg]"
    and "ctx_tools ctx = tools" and "ctx_used_tokens ctx = used_tokens bud"
    and "ctx_dropped_turns ctx = int (length (sn_buffer sn)) - int (length (out_buffer bud))"
    and "ctx_rolled_summary ctx = out_summary bud"
  using assms by (auto simp: cb_assemble_def Let_def split: sum.splits)

text \<open>The messages are the system message, the newest turns of the buffer in order, and the current message.\<close>

lemma assemble_messages:
  assumes "cb_assemble b msg sn p hits tools dyn sk = Inr ctx" and "cb_estimate b = estimate_tokens"
  shows "\<exists>sys evicted kept. sn_buffer sn = evicted @ kept \<and> int (length evicted) = ctx_dropped_turns ctx
    \<and> ctx_messages ctx = [MSystem sys] @ map turn_to_message kept @ [MUser msg]"
  using assms(1)
proof (rule cb_assemble_cases)
  fix bud
  assume al: "allocate (cb_estimate b) (cb_context_cfg b) (budget_inputs_of b msg sn p hits tools dyn sk) = Inr bud"
    and msgs: "ctx_messages ctx = [MSystem (compose_system (cb_agent_cfg b) dyn sk
           (format_factual (cb_float_str b) p (ac_factual_block_header (cb_agent_cfg b)))
           (format_episodic (cb_float_str b) (out_episodic bud) (ac_episodic_block_header (cb_agent_cfg b)))
           (out_summary bud))] @ map turn_to_message (out_buffer bud) @ [MUser msg]"
    and dropped: "ctx_dropped_turns ctx = int (length (sn_buffer sn)) - int (length (out_buffer bud))"
  from al assms(2) obtain evicted where "sn_buffer sn = evicted @ out_buffer bud"
    using default_estimator.allocate_buffer by (force simp: budget_inputs_of_def)
  with msgs dropped show ?thesis by auto
qed

lemma compose_system_parts:
  "x \<in> {dyn, sk, factual, epi} \<Longrightarrow> x \<noteq> [] \<Longrightarrow> sublist x (compose_system cfg dyn sk factual epi summary)"
  unfolding compose_system_def by (rule join_sublist) auto

text \<open>
  The factual block is in the system message whatever the budgeter decided about it: \<open>build\<close> formats the
  profile again instead of using \<open>budget.factual_block\<close>.
\<close>

lemma assemble_factual_always:
  assumes "cb_assemble b msg sn p hits tools dyn sk = Inr ctx" and "facts p \<noteq> []"
  shows "\<exists>sys. hd (ctx_messages ctx) = MSystem sys \<and>
    sublist (format_factual (cb_float_str b) p (ac_factual_block_header (cb_agent_cfg b))) sys"
  using assms(1)
proof (rule cb_assemble_cases)
  fix bud
  assume "ctx_messages ctx = [MSystem (compose_system (cb_agent_cfg b) dyn sk
           (format_factual (cb_float_str b) p (ac_factual_block_header (cb_agent_cfg b)))
           (format_episodic (cb_float_str b) (out_episodic bud) (ac_episodic_block_header (cb_agent_cfg b)))
           (out_summary bud))] @ map turn_to_message (out_buffer bud) @ [MUser msg]"
  moreover have "format_factual (cb_float_str b) p (ac_factual_block_header (cb_agent_cfg b)) \<noteq> []"
    using assms(2) by (simp add: format_factual_def)
  ultimately show ?thesis
    by (auto intro!: compose_system_parts)
qed

section \<open>Only this user's data\<close>

text \<open>What building a context loads, unless it raises.\<close>

lemma build_raises_unauthorized:
  assumes "ss_live (w_sessions w) (w_now w) c = Some st" and "st_user_id st \<noteq> u"
  shows "cb_build b u c msg w = (w, Inl (unauthorized c u))"
  using assms by (simp add: cb_build_def wm_load_def session_load_other seq_Inl)

end
