(* ===== verification/Events.thy ===== *)
theory Events
  imports LLM_Types
begin

text \<open>
  \<open>agent/events.py\<close> and \<open>serving/wire.py\<close>: the events of a turn and their JSON frames, and the frame of
  the conversation listing.
\<close>

datatype agent_event =
    TextDelta pystr
  | ToolCallStarted pystr pystr payload
  | ToolApprovalRequired pystr pystr payload real
  | ToolResult pystr pystr bool pystr
  | TurnComplete token_usage int pystr
  | TurnFailed pystr

definition encode_usage :: "token_usage \<Rightarrow> json" where
  "encode_usage u = JObj [(py ''prompt_tokens'', JInt (prompt_tokens u)),
     (py ''completion_tokens'', JInt (completion_tokens u)), (py ''total_tokens'', JInt (total_tokens u))]"

definition encode_event :: "agent_event \<Rightarrow> payload" where
  "encode_event event = (case event of
       TextDelta txt \<Rightarrow> [(py ''type'', JStr (py ''text'')), (py ''text'', JStr txt)]
     | ToolCallStarted call_id name arguments \<Rightarrow>
         [(py ''type'', JStr (py ''tool_call'')), (py ''call_id'', JStr call_id), (py ''name'', JStr name),
          (py ''arguments'', JObj arguments)]
     | ToolApprovalRequired call_id name arguments timeout_s \<Rightarrow>
         [(py ''type'', JStr (py ''tool_approval_required'')), (py ''call_id'', JStr call_id),
          (py ''name'', JStr name), (py ''arguments'', JObj arguments), (py ''timeout_s'', JFloat timeout_s)]
     | ToolResult call_id name ok content \<Rightarrow>
         [(py ''type'', JStr (py ''tool_result'')), (py ''call_id'', JStr call_id), (py ''name'', JStr name),
          (py ''ok'', JBool ok), (py ''content'', JStr content)]
     | TurnComplete usage iterations stop_reason \<Rightarrow>
         [(py ''type'', JStr (py ''turn_complete'')), (py ''usage'', encode_usage usage),
          (py ''iterations'', JInt iterations), (py ''stop_reason'', JStr stop_reason)]
     | TurnFailed error \<Rightarrow> [(py ''type'', JStr (py ''error'')), (py ''error'', JStr error)])"

definition encode_opt :: "('a \<Rightarrow> json) \<Rightarrow> 'a option \<Rightarrow> json" where
  "encode_opt f x = (case x of None \<Rightarrow> JNull | Some y \<Rightarrow> f y)"

definition encode_conversation :: "conversation_meta \<Rightarrow> payload" where
  "encode_conversation meta =
     [(py ''conversation_id'', JStr (cm_conversation_id meta)), (py ''user_id'', JStr (cm_user_id meta)),
      (py ''created_at'', JFloat (cm_created_at meta)), (py ''updated_at'', JFloat (cm_updated_at meta)),
      (py ''finalized_at'', encode_opt JFloat (cm_finalized_at meta)), (py ''turn_count'', JInt (cm_turn_count meta)),
      (py ''summary_preview'', JStr (cm_summary_preview meta)), (py ''model_name'', encode_opt JStr (cm_model_name meta))]"

section \<open>Decoding, as a client does by the type tag\<close>

definition decode_usage :: "json \<Rightarrow> token_usage option" where
  "decode_usage v = (case v of
       JObj [(_, JInt p), (_, JInt c), (_, JInt t)] \<Rightarrow> Some \<lparr>prompt_tokens = p, completion_tokens = c, total_tokens = t\<rparr>
     | _ \<Rightarrow> None)"

definition get_str :: "payload \<Rightarrow> string \<Rightarrow> pystr" where
  "get_str f k = (case map_of f (py k) of Some (JStr s) \<Rightarrow> s | _ \<Rightarrow> [])"

definition get_obj :: "payload \<Rightarrow> string \<Rightarrow> payload" where
  "get_obj f k = (case map_of f (py k) of Some (JObj o') \<Rightarrow> o' | _ \<Rightarrow> [])"

definition decode_event :: "payload \<Rightarrow> agent_event option" where
  "decode_event f =
     (let tag = get_str f ''type''
      in if tag = py ''text'' then Some (TextDelta (get_str f ''text''))
         else if tag = py ''tool_call''
         then Some (ToolCallStarted (get_str f ''call_id'') (get_str f ''name'') (get_obj f ''arguments''))
         else if tag = py ''tool_approval_required''
         then Some (ToolApprovalRequired (get_str f ''call_id'') (get_str f ''name'') (get_obj f ''arguments'')
                (case map_of f (py ''timeout_s'') of Some (JFloat r) \<Rightarrow> r | _ \<Rightarrow> 0))
         else if tag = py ''tool_result''
         then Some (ToolResult (get_str f ''call_id'') (get_str f ''name'')
                (map_of f (py ''ok'') = Some (JBool True)) (get_str f ''content''))
         else if tag = py ''turn_complete''
         then (case map_of f (py ''usage'') of
                 Some v \<Rightarrow> map_option (\<lambda>u. TurnComplete u
                     (case map_of f (py ''iterations'') of Some (JInt i) \<Rightarrow> i | _ \<Rightarrow> 0) (get_str f ''stop_reason'')) (decode_usage v)
               | None \<Rightarrow> None)
         else if tag = py ''error'' then Some (TurnFailed (get_str f ''error''))
         else None)"

lemma decode_encode_usage [simp]: "decode_usage (encode_usage u) = Some u"
  by (simp add: decode_usage_def encode_usage_def)

lemma decode_encode: "decode_event (encode_event e) = Some e"
  by (cases e) (simp_all add: decode_event_def encode_event_def get_str_def get_obj_def Let_def)

lemma encode_conversation_inject: "encode_conversation m = encode_conversation m' \<longleftrightarrow> m = m'"
  by (auto simp: encode_conversation_def encode_opt_def conversation_meta.equality split: option.splits
      intro!: conversation_meta.equality)

section \<open>The conversation listing\<close>

text \<open>The body of the \<open>/conversations\<close> endpoint of \<open>serving/app.py\<close>, given what the store lists.\<close>

definition list_conversations :: "conversation_meta list \<Rightarrow> pystr option \<Rightarrow> int option \<Rightarrow> payload list" where
  "list_conversations metas status limit =
     (let metas = (if status = Some (py ''active'') then filter (\<lambda>m. cm_finalized_at m = None) metas
                   else if status = Some (py ''finalized'') then filter (\<lambda>m. cm_finalized_at m \<noteq> None) metas
                   else metas);
          metas = (case limit of None \<Rightarrow> metas | Some n \<Rightarrow> slice metas 0 n)
      in map encode_conversation metas)"

end
