(* ===== verification/Tool_Batch.thy ===== *)
theory Tool_Batch
  imports Events Tool_Registry
begin

text \<open>
  \<open>agent/loop.py\<close>, the concurrent execution of the tool calls of one response: \<open>_call_worker\<close>,
  \<open>_execute_tool_calls\<close> and \<open>resolve_approval\<close>, with the approval dictionary of the agent. Each worker is
  an asyncio task that runs without interruption between its awaits; a step of the model is such a
  stretch, and a label names which task runs. The other labels are what the rest of the process may do in
  between: an approval message arrives, the batch of another turn registers or removes an approval, another
  task changes the world, the consumer closes the generator.
\<close>

datatype phase = NotStarted | AwaitingApproval | Running | Finished | Cancelled

datatype queue_item =
    QEvent agent_event
  | QDone nat message "turn list"

text \<open>\<open>bt_pending\<close>: call id to future and conversation; a future is the index of the worker of this batch
  that waits on it, or \<open>None\<close> for one of another batch. \<open>bt_futures\<close> holds the results that were set.\<close>

record 'x batch =
  bt_world :: "'x world_scheme"
  bt_phases :: "phase list"
  bt_futures :: "bool option list"
  bt_pending :: "(pystr \<times> (nat option \<times> pystr)) list"
  bt_queue :: "queue_item list"
  bt_results :: "(message \<times> turn list) option list"
  bt_remaining :: nat
  bt_emitted :: "agent_event list"

record 'x batch_env =
  be_registry :: "'x registry"
  be_user :: pystr
  be_conversation :: pystr
  be_calls :: "tool_call list"

datatype 'x label =
    Start nat
  | Resume nat
  | ApprovalTimeout nat
  | Execute nat
  | Receive
  | Resolve pystr bool pystr
  | ForeignRegister pystr pystr
  | ForeignPop pystr
  | OtherTask "'x world_scheme \<Rightarrow> 'x world_scheme"
  | Close

section \<open>Steps\<close>

definition batch_init :: "'x batch_env \<Rightarrow> 'x world_scheme \<Rightarrow> (pystr \<times> (nat option \<times> pystr)) list \<Rightarrow> 'x batch" where
  "batch_init env w pending =
     \<lparr>bt_world = w, bt_phases = replicate (length (be_calls env)) NotStarted,
      bt_futures = replicate (length (be_calls env)) None, bt_pending = pending, bt_queue = [],
      bt_results = replicate (length (be_calls env)) None, bt_remaining = length (be_calls env), bt_emitted = []\<rparr>"

definition put_items :: "queue_item list \<Rightarrow> 'x batch \<Rightarrow> 'x batch" where
  "put_items items b = b\<lparr>bt_queue := bt_queue b @ items\<rparr>"

definition set_phase :: "nat \<Rightarrow> phase \<Rightarrow> 'x batch \<Rightarrow> 'x batch" where
  "set_phase i p b = b\<lparr>bt_phases := (bt_phases b)[i := p]\<rparr>"

text \<open>\<open>self._pending_approvals.pop(call_id, None)\<close>.\<close>

definition pop_pending :: "pystr \<Rightarrow> 'x batch \<Rightarrow> 'x batch" where
  "pop_pending call_id b = b\<lparr>bt_pending := dict_del call_id (bt_pending b)\<rparr>"

definition approval_policy :: "'x batch_env \<Rightarrow> nat \<Rightarrow> tool_policy option" where
  "approval_policy env i =
     (case reg_get_policy (be_registry env) (tc_name (be_calls env ! i)) of
        Some p \<Rightarrow> if tp_requires_approval p then Some p else None
      | None \<Rightarrow> None)"

definition start_tool :: "'x batch_env \<Rightarrow> nat \<Rightarrow> 'x batch \<Rightarrow> 'x batch" where
  "start_tool env i b = (let call = be_calls env ! i
     in set_phase i Running (put_items [QEvent (ToolCallStarted (tc_id call) (tc_name call) (tc_arguments call))] b))"

text \<open>A worker ends with its tool result and its one \<open>_WorkerDone\<close>.\<close>

definition finish_worker :: "'x batch_env \<Rightarrow> nat \<Rightarrow> bool \<Rightarrow> pystr \<Rightarrow> pystr \<Rightarrow> turn list \<Rightarrow> 'x batch \<Rightarrow> 'x batch" where
  "finish_worker env i ok display observation turns b = (let call = be_calls env ! i
     in set_phase i Finished (put_items [QEvent (ToolResult (tc_id call) (tc_name call) ok display),
          QDone i (MToolResult (tc_id call) observation) turns] b))"

definition worker_start :: "'x batch_env \<Rightarrow> nat \<Rightarrow> 'x batch \<Rightarrow> 'x batch" where
  "worker_start env i b =
     (let call = be_calls env ! i
      in case approval_policy env i of
           Some policy \<Rightarrow>
             set_phase i AwaitingApproval
               (put_items [QEvent (ToolApprovalRequired (tc_id call) (tc_name call) (tc_arguments call) (tp_approval_timeout_s policy))]
                 (b\<lparr>bt_pending := dict_set (tc_id call) (Some i, be_conversation env) (bt_pending b)\<rparr>))
         | None \<Rightarrow> start_tool env i b)"

definition deny :: "'x batch_env \<Rightarrow> nat \<Rightarrow> bool \<Rightarrow> 'x batch \<Rightarrow> 'x batch" where
  "deny env i timed_out b =
     (let reason = py ''tool '' @ py_repr (tc_name (be_calls env ! i)) @
            (if timed_out then py '' '' @ [8212] @ py '' approval request timed out''
             else py '' '' @ [8212] @ py '' user denied approval'')
      in finish_worker env i False reason reason [] b)"

definition worker_resume :: "'x batch_env \<Rightarrow> nat \<Rightarrow> bool \<Rightarrow> 'x batch \<Rightarrow> 'x batch" where
  "worker_resume env i approved b =
     (let b = pop_pending (tc_id (be_calls env ! i)) b
      in if approved then start_tool env i b else deny env i False b)"

definition worker_timeout :: "'x batch_env \<Rightarrow> nat \<Rightarrow> 'x batch \<Rightarrow> 'x batch" where
  "worker_timeout env i b = deny env i True (pop_pending (tc_id (be_calls env ! i)) b)"

text \<open>Running the tool; an exception \<open>execute\<close> lets through is a failed observation too, but a
  cancellation ends the task without its \<open>_WorkerDone\<close>.\<close>

definition worker_execute :: "'x batch_env \<Rightarrow> nat \<Rightarrow> 'x batch \<Rightarrow> 'x batch" where
  "worker_execute env i b =
     (let call = be_calls env ! i
      in case reg_execute (be_registry env) (be_user env) call (bt_world b) of
           (w, Inr ex) \<Rightarrow>
             (let turns = [(new_turn (py ''assistant'') [] (w_now w))\<lparr>turn_tool_calls := [call]\<rparr>,
                           (new_turn (py ''tool'') (ex_display ex) (w_now w))\<lparr>turn_tool_call_id := Some (tc_id call)\<rparr>]
              in finish_worker env i (ex_ok ex) (ex_display ex) (ex_observation ex) turns (b\<lparr>bt_world := w\<rparr>))
         | (w, Inl exc) \<Rightarrow>
             if is_control_flow exc then set_phase i Cancelled (b\<lparr>bt_world := w\<rparr>)
             else let reason = py ''tool '' @ py_repr (tc_name call) @ py '' failed unexpectedly: '' @ exn_str exc
                  in finish_worker env i False reason reason [] (b\<lparr>bt_world := w\<rparr>))"

definition fan_in :: "queue_item \<Rightarrow> 'x batch \<Rightarrow> 'x batch" where
  "fan_in item b = (case item of
       QDone i m ts \<Rightarrow> b\<lparr>bt_results := (bt_results b)[i := Some (m, ts)], bt_remaining := bt_remaining b - 1\<rparr>
     | QEvent e \<Rightarrow> b\<lparr>bt_emitted := bt_emitted b @ [e]\<rparr>)"

definition resolve_approval :: "pystr \<Rightarrow> bool \<Rightarrow> pystr \<Rightarrow> 'x batch \<Rightarrow> 'x batch" where
  "resolve_approval call_id approved conversation_id b =
     (case map_of (bt_pending b) call_id of
        None \<Rightarrow> b
      | Some (fut, owner) \<Rightarrow>
          let b = pop_pending call_id b
          in case fut of
               None \<Rightarrow> b
             | Some i \<Rightarrow> if owner = conversation_id \<and> bt_futures b ! i = None
                         then b\<lparr>bt_futures := (bt_futures b)[i := Some approved]\<rparr> else b)"

text \<open>The \<open>finally\<close> of the fan-in: the unfinished tasks are cancelled, those waiting pop their entry.\<close>

fun cancel_workers :: "'x batch_env \<Rightarrow> nat \<Rightarrow> 'x batch \<Rightarrow> 'x batch" where
  "cancel_workers env 0 b = b"
| "cancel_workers env (Suc i) b =
     (let b = cancel_workers env i b
      in case bt_phases b ! i of
           AwaitingApproval \<Rightarrow> set_phase i Cancelled (pop_pending (tc_id (be_calls env ! i)) b)
         | NotStarted \<Rightarrow> set_phase i Cancelled b
         | Running \<Rightarrow> set_phase i Cancelled b
         | _ \<Rightarrow> b)"

text \<open>One step, if the task the label names can run.\<close>

definition batch_step :: "'x batch_env \<Rightarrow> 'x label \<Rightarrow> 'x batch \<Rightarrow> 'x batch option" where
  "batch_step env lab b = (case lab of
       Start i \<Rightarrow> if i < length (be_calls env) \<and> bt_phases b ! i = NotStarted then Some (worker_start env i b) else None
     | Resume i \<Rightarrow> if i < length (be_calls env) \<and> bt_phases b ! i = AwaitingApproval
         then map_option (\<lambda>approved. worker_resume env i approved b) (bt_futures b ! i) else None
     | ApprovalTimeout i \<Rightarrow> if i < length (be_calls env) \<and> bt_phases b ! i = AwaitingApproval \<and> bt_futures b ! i = None
         then Some (worker_timeout env i b) else None
     | Execute i \<Rightarrow> if i < length (be_calls env) \<and> bt_phases b ! i = Running then Some (worker_execute env i b) else None
     | Receive \<Rightarrow> if bt_remaining b = 0 then None
         else (case bt_queue b of [] \<Rightarrow> None | item # items \<Rightarrow> Some (fan_in item (b\<lparr>bt_queue := items\<rparr>)))
     | Resolve call_id approved conversation_id \<Rightarrow> Some (resolve_approval call_id approved conversation_id b)
     | ForeignRegister call_id conversation_id \<Rightarrow>
         Some (b\<lparr>bt_pending := dict_set call_id (None, conversation_id) (bt_pending b)\<rparr>)
     | ForeignPop call_id \<Rightarrow> Some (pop_pending call_id b)
     | OtherTask f \<Rightarrow> Some (b\<lparr>bt_world := f (bt_world b)\<rparr>)
     | Close \<Rightarrow> Some (cancel_workers env (length (be_calls env)) b))"

fun batch_run :: "'x batch_env \<Rightarrow> 'x label list \<Rightarrow> 'x batch \<Rightarrow> 'x batch option" where
  "batch_run env [] b = Some b"
| "batch_run env (lab # labs) b = (case batch_step env lab b of None \<Rightarrow> None | Some b' \<Rightarrow> batch_run env labs b')"

text \<open>The loop over \<open>results\<close> once \<open>remaining\<close> is 0.\<close>

definition batch_messages :: "'x batch \<Rightarrow> message list" where
  "batch_messages b = map (\<lambda>r. fst (the r)) (bt_results b)"

definition batch_turns :: "'x batch \<Rightarrow> turn list" where
  "batch_turns b = concat (map (\<lambda>r. snd (the r)) (bt_results b))"

inductive batch_reach :: "'x batch_env \<Rightarrow> 'x batch \<Rightarrow> 'x label list \<Rightarrow> 'x batch \<Rightarrow> bool"
  for env :: "'x batch_env" and b0 :: "'x batch" where
  reach_init: "batch_reach env b0 [] b0"
| reach_step: "batch_reach env b0 labs b \<Longrightarrow> batch_step env lab b = Some b' \<Longrightarrow> batch_reach env b0 (labs @ [lab]) b'"

inductive_cases batch_reach_NilE: "batch_reach env b0 [] b"
inductive_cases batch_reach_snocE: "batch_reach env b0 (labs @ [lab]) b"

lemma batch_run_append: "batch_run env (xs @ ys) b = (case batch_run env xs b of None \<Rightarrow> None | Some b' \<Rightarrow> batch_run env ys b')"
  by (induction xs arbitrary: b) (auto split: option.splits)

lemma batch_reach_iff: "batch_reach env b0 labs b \<longleftrightarrow> batch_run env labs b0 = Some b"
proof
  assume "batch_reach env b0 labs b"
  then show "batch_run env labs b0 = Some b"
    by induction (auto simp: batch_run_append split: option.splits)
next
  show "batch_run env labs b0 = Some b \<Longrightarrow> batch_reach env b0 labs b"
  proof (induction labs arbitrary: b rule: rev_induct)
    case Nil
    then show ?case by (auto intro: reach_init)
  next
    case (snoc lab labs)
    then show ?case
      by (auto simp: batch_run_append split: option.splits intro: reach_step)
  qed
qed

end
