(* ===== verification/Tool_Batch_Invariants.thy ===== *)
theory Tool_Batch_Invariants
  imports Tool_Batch
begin

text \<open>
  What holds in every reachable state of a batch of tool calls: each worker reports at most once and
  under its own index, so that the results, however the tasks interleave, come out in the order of the
  calls; the approval dictionary holds an entry of a worker only while that worker waits; a tool that
  requires approval runs only after its own conversation approved it; and a batch can always be driven to
  its end.
\<close>

named_theorems batch_simps \<open>the components of a batch after an elementary operation\<close>

section \<open>Reports\<close>

definition is_done :: "nat \<Rightarrow> queue_item \<Rightarrow> bool" where
  "is_done i item \<longleftrightarrow> (case item of QDone j _ _ \<Rightarrow> j = i | QEvent _ \<Rightarrow> False)"

definition done_count :: "nat \<Rightarrow> queue_item list \<Rightarrow> nat" where
  "done_count i q = length (filter (is_done i) q)"

definition none_count :: "'a option list \<Rightarrow> nat" where
  "none_count rs = length (filter (\<lambda>r. r = None) rs)"

text \<open>A report of worker \<open>i\<close>: the result message of its call, and the two turns of its call or none.\<close>

definition good_report :: "'x batch_env \<Rightarrow> nat \<Rightarrow> message \<times> turn list \<Rightarrow> bool" where
  "good_report env i r \<longleftrightarrow> (\<exists>obs. fst r = MToolResult (tc_id (be_calls env ! i)) obs) \<and>
     (snd r = [] \<or> (\<exists>a t. snd r = [a, t] \<and> turn_role a = py ''assistant'' \<and> turn_text a = [] \<and>
         turn_tool_calls a = [be_calls env ! i] \<and> turn_role t = py ''tool'' \<and>
         turn_tool_call_id t = Some (tc_id (be_calls env ! i))))"

definition batch_inv :: "'x batch_env \<Rightarrow> 'x batch \<Rightarrow> bool" where
  "batch_inv env b \<longleftrightarrow>
     length (bt_phases b) = length (be_calls env) \<and> length (bt_results b) = length (be_calls env)
   \<and> length (bt_futures b) = length (be_calls env)
   \<and> bt_remaining b = none_count (bt_results b)
   \<and> (\<forall>i < length (be_calls env). done_count i (bt_queue b) + of_bool (bt_results b ! i \<noteq> None) = of_bool (bt_phases b ! i = Finished))
   \<and> (\<forall>j m ts. QDone j m ts \<in> set (bt_queue b) \<longrightarrow> j < length (be_calls env) \<and> good_report env j (m, ts))
   \<and> (\<forall>i < length (be_calls env). \<forall>r. bt_results b ! i = Some r \<longrightarrow> good_report env i r)"

lemma done_count_simps [simp]:
  "done_count i [] = 0" "done_count i (QEvent e # q) = done_count i q"
  "done_count i (QDone j m ts # q) = of_bool (i = j) + done_count i q"
  "done_count i (q @ q') = done_count i q + done_count i q'"
  by (auto simp: done_count_def is_done_def)

lemma none_count_update: "i < length rs \<Longrightarrow> rs ! i = None \<Longrightarrow> none_count (rs[i := Some x]) = none_count rs - 1 \<and> 0 < none_count rs"
proof (induction rs arbitrary: i)
  case (Cons r rs)
  then show ?case
    by (cases i) (fastforce simp: none_count_def)+
qed simp

lemma none_count_0: "none_count rs = 0 \<longleftrightarrow> (\<forall>i < length rs. rs ! i \<noteq> None)"
  by (auto simp: none_count_def filter_empty_conv in_set_conv_nth)

lemma none_count_replicate [simp]: "none_count (replicate n None) = n"
  by (simp add: none_count_def)

lemma batch_inv_cong:
  "bt_phases b = bt_phases b' \<Longrightarrow> bt_queue b = bt_queue b' \<Longrightarrow> bt_results b = bt_results b' \<Longrightarrow>
     bt_remaining b = bt_remaining b' \<Longrightarrow> length (bt_futures b) = length (bt_futures b') \<Longrightarrow>
     batch_inv env b = batch_inv env b'"
  by (simp add: batch_inv_def)

lemma batch_inv_frame [simp]:
  "batch_inv env (b\<lparr>bt_world := w\<rparr>) = batch_inv env b" "batch_inv env (b\<lparr>bt_pending := p\<rparr>) = batch_inv env b"
  "batch_inv env (b\<lparr>bt_futures := (bt_futures b)[i := x]\<rparr>) = batch_inv env b"
  "batch_inv env (b\<lparr>bt_emitted := es\<rparr>) = batch_inv env b"
  "batch_inv env (pop_pending c b) = batch_inv env b"
  by (rule batch_inv_cong; simp add: pop_pending_def)+

lemma batch_inv_init: "batch_inv env (batch_init env w p)"
  by (simp add: batch_inv_def batch_init_def)

text \<open>Changing the phase of a worker that has not finished, without finishing it.\<close>

lemma batch_inv_set_phase:
  "batch_inv env b \<Longrightarrow> i < length (be_calls env) \<Longrightarrow> bt_phases b ! i \<noteq> Finished \<Longrightarrow> p \<noteq> Finished \<Longrightarrow>
     batch_inv env (set_phase i p (put_items (map QEvent es) b))"
proof -
  have "done_count j (map QEvent es) = 0" for j
    by (induction es) auto
  moreover assume "batch_inv env b" "i < length (be_calls env)" "bt_phases b ! i \<noteq> Finished" "p \<noteq> Finished"
  ultimately show ?thesis
    unfolding batch_inv_def set_phase_def put_items_def by (auto simp: nth_list_update)
qed

lemma batch_inv_phase:
  assumes "batch_inv env b" and "i < length (be_calls env)" and "bt_phases b ! i \<noteq> Finished" and "p \<noteq> Finished"
  shows "batch_inv env (set_phase i p b)"
  using batch_inv_set_phase [OF assms, of "[]"] by (simp add: put_items_def)

lemma batch_inv_event:
  assumes "batch_inv env b" and "i < length (be_calls env)" and "bt_phases b ! i \<noteq> Finished" and "p \<noteq> Finished"
  shows "batch_inv env (set_phase i p (put_items [QEvent e] b))"
  using batch_inv_set_phase [OF assms, of "[e]"] by simp

lemma batch_inv_finish:
  assumes "batch_inv env b" and "i < length (be_calls env)" and "bt_phases b ! i \<noteq> Finished"
    and "good_report env i (MToolResult (tc_id (be_calls env ! i)) obs, ts)"
  shows "batch_inv env (finish_worker env i ok d obs ts b)"
  using assms unfolding batch_inv_def finish_worker_def set_phase_def put_items_def Let_def
  by (auto simp: nth_list_update split: if_splits)

lemma good_report_deny: "good_report env i (MToolResult (tc_id (be_calls env ! i)) obs, [])"
  by (simp add: good_report_def)

lemma batch_inv_deny: "batch_inv env b \<Longrightarrow> i < length (be_calls env) \<Longrightarrow> bt_phases b ! i \<noteq> Finished \<Longrightarrow>
    batch_inv env (deny env i t b)"
  unfolding deny_def Let_def by (rule batch_inv_finish) (auto simp: good_report_def)

lemma pop_pending_phases [simp]: "bt_phases (pop_pending c b) = bt_phases b" "bt_futures (pop_pending c b) = bt_futures b"
  by (simp_all add: pop_pending_def)

lemma batch_inv_start_tool: "batch_inv env b \<Longrightarrow> i < length (be_calls env) \<Longrightarrow> bt_phases b ! i \<noteq> Finished \<Longrightarrow>
    batch_inv env (start_tool env i b)"
  unfolding start_tool_def Let_def by (rule batch_inv_event) auto

lemma batch_inv_execute:
  assumes "batch_inv env b" and "i < length (be_calls env)" and "bt_phases b ! i = Running"
  shows "batch_inv env (worker_execute env i b)"
proof -
  obtain w r where ex: "reg_execute (be_registry env) (be_user env) (be_calls env ! i) (bt_world b) = (w, r)"
    by fastforce
  have b': "batch_inv env (b\<lparr>bt_world := w\<rparr>)" "bt_phases (b\<lparr>bt_world := w\<rparr>) ! i \<noteq> Finished"
    using assms by simp_all
  show ?thesis
  proof (cases r)
    case (Inl e)
    then show ?thesis
      using b' assms(2) batch_inv_phase [of env "b\<lparr>bt_world := w\<rparr>" i Cancelled]
        batch_inv_finish [OF b'(1) assms(2) b'(2) good_report_deny]
      by (simp add: worker_execute_def ex Let_def)
  next
    case (Inr x)
    then show ?thesis
      using batch_inv_finish [OF b'(1) assms(2) b'(2), of "ex_observation x"]
      by (simp add: worker_execute_def ex Let_def good_report_def new_turn_def)
  qed
qed

lemma batch_inv_fan_in:
  assumes inv: "batch_inv env b" and q: "bt_queue b = item # items"
  shows "batch_inv env (fan_in item (b\<lparr>bt_queue := items\<rparr>))"
proof (cases item)
  case (QEvent e)
  with inv q show ?thesis
    by (simp add: batch_inv_def fan_in_def)
next
  case (QDone j m ts)
  from inv q QDone have j: "j < length (be_calls env)" and good: "good_report env j (m, ts)"
    by (auto simp: batch_inv_def)
  have "done_count j (bt_queue b) + of_bool (bt_results b ! j \<noteq> None) = of_bool (bt_phases b ! j = Finished)"
    using inv j by (simp add: batch_inv_def)
  then have fin: "bt_results b ! j = None" "bt_phases b ! j = Finished" "done_count j items = 0"
    unfolding q QDone by (cases "bt_results b ! j"; cases "bt_phases b ! j = Finished"; simp)+
  have len: "length (bt_results b) = length (be_calls env)"
    using inv by (simp add: batch_inv_def)
  show ?thesis
    using inv q QDone j good fin none_count_update [of j "bt_results b" "(m, ts)"] len
    unfolding batch_inv_def fan_in_def by (auto simp: nth_list_update split: if_splits)
qed

lemma cancel_workers_phases:
  "length (bt_phases (cancel_workers env n b)) = length (bt_phases b)"
  "n \<le> length (bt_phases b) \<Longrightarrow> j < length (bt_phases b) \<Longrightarrow> bt_phases (cancel_workers env n b) ! j =
     (if j < n \<and> bt_phases b ! j \<noteq> Finished then Cancelled else bt_phases b ! j)"
proof (induction n)
  case (Suc n)
  {
    case 1
    with Suc.IH(1) show ?case by (auto simp: Let_def set_phase_def split: phase.splits)
  next
    case 2
    with Suc.IH show ?case
      by (auto simp: Let_def set_phase_def nth_list_update less_Suc_eq split: phase.splits)
  }
qed auto

lemma batch_inv_cancel: "batch_inv env b \<Longrightarrow> n \<le> length (be_calls env) \<Longrightarrow> batch_inv env (cancel_workers env n b)"
proof (induction n)
  case (Suc n)
  then have inv: "batch_inv env (cancel_workers env n b)" by simp
  then have "bt_phases (cancel_workers env n b) ! n \<noteq> Finished \<Longrightarrow>
      batch_inv env (set_phase n Cancelled (cancel_workers env n b))" and
    "bt_phases (cancel_workers env n b) ! n \<noteq> Finished \<Longrightarrow>
      batch_inv env (set_phase n Cancelled (pop_pending c (cancel_workers env n b)))" for c
    using Suc.prems batch_inv_phase [of env _ n Cancelled] by simp_all
  with inv show ?case
    by (auto simp: Let_def split: phase.splits)
qed simp

lemma batch_inv_step:
  assumes inv: "batch_inv env b" and step: "batch_step env lab b = Some b'"
  shows "batch_inv env b'"
proof (cases lab)
  case (Start i)
  with step have i: "i < length (be_calls env)" "bt_phases b ! i = NotStarted" and b': "b' = worker_start env i b"
    by (auto simp: batch_step_def split: if_splits)
  show ?thesis
    unfolding b' worker_start_def Let_def
    using inv i batch_inv_start_tool [of env b i]
      batch_inv_event [of env "b\<lparr>bt_pending := p\<rparr>" i AwaitingApproval for p]
    by (auto split: option.splits)
next
  case (Resume i)
  with step obtain ap where i: "i < length (be_calls env)" "bt_phases b ! i = AwaitingApproval"
    and b': "b' = worker_resume env i ap b"
    by (auto simp: batch_step_def split: if_splits)
  show ?thesis
    unfolding b' worker_resume_def Let_def using inv i by (simp add: batch_inv_start_tool batch_inv_deny)
next
  case (ApprovalTimeout i)
  with step have i: "i < length (be_calls env)" "bt_phases b ! i = AwaitingApproval" and b': "b' = worker_timeout env i b"
    by (auto simp: batch_step_def split: if_splits)
  show ?thesis
    unfolding b' worker_timeout_def using inv i by (simp add: batch_inv_deny)
next
  case (Execute i)
  with step inv show ?thesis
    by (auto simp: batch_step_def batch_inv_execute split: if_splits)
next
  case Receive
  with step inv show ?thesis
    by (auto simp: batch_step_def split: if_splits list.splits intro: batch_inv_fan_in)
next
  case (Resolve c a cid)
  have "batch_inv env (pop_pending c b\<lparr>bt_futures := (bt_futures b)[i := x]\<rparr>)" for i x
    using inv batch_inv_frame(3) [of env "pop_pending c b" i x] by simp
  with Resolve step inv show ?thesis
    by (auto simp: batch_step_def resolve_approval_def Let_def split: option.splits prod.splits if_splits)
next
  case Close
  with step inv show ?thesis
    by (auto simp: batch_step_def batch_inv_cancel)
qed (use step inv in \<open>auto simp: batch_step_def\<close>)

lemma batch_inv_reach: "batch_reach env (batch_init env w p) labs b \<Longrightarrow> batch_inv env b"
  by (induction rule: batch_reach.induct) (auto intro: batch_inv_init batch_inv_step)

text \<open>A batch whose \<open>remaining\<close> is 0 has every report, in the order of the calls.\<close>

lemma batch_complete:
  assumes "batch_inv env b" and "bt_remaining b = 0"
  shows "length (batch_messages b) = length (be_calls env)"
    and "i < length (be_calls env) \<Longrightarrow> \<exists>r. bt_results b ! i = Some r \<and> good_report env i r"
  using assms by (auto simp: batch_inv_def none_count_0 batch_messages_def)

section \<open>Approvals\<close>

text \<open>
  A worker of this batch has an entry in the dictionary only while it waits, under its own call id and
  its own conversation.
\<close>

definition pending_inv :: "'x batch_env \<Rightarrow> 'x batch \<Rightarrow> bool" where
  "pending_inv env b \<longleftrightarrow> (\<forall>k i c. map_of (bt_pending b) k = Some (Some i, c) \<longrightarrow>
     i < length (be_calls env) \<and> bt_phases b ! i = AwaitingApproval \<and> tc_id (be_calls env ! i) = k \<and> c = be_conversation env)"

lemma pending_inv_event: "pending_inv env b \<Longrightarrow> i < length (bt_phases b) \<Longrightarrow>
    map_of (bt_pending b) (tc_id (be_calls env ! i)) = None \<or> bt_phases b ! i \<noteq> AwaitingApproval \<Longrightarrow>
    pending_inv env (set_phase i p (put_items items b))"
  unfolding pending_inv_def set_phase_def put_items_def by (fastforce simp: nth_list_update)

lemma pending_inv_frame [simp]:
  "pending_inv env (b\<lparr>bt_world := w\<rparr>) = pending_inv env b"
  "pending_inv env (b\<lparr>bt_futures := f\<rparr>) = pending_inv env b"
  "pending_inv env (b\<lparr>bt_queue := q\<rparr>) = pending_inv env b"
  by (simp_all add: pending_inv_def)

lemma pending_inv_pop: "pending_inv env b \<Longrightarrow> pending_inv env (pop_pending c b)"
  by (simp add: pending_inv_def pop_pending_def dict_simps)

lemma popped: "map_of (bt_pending (pop_pending c b)) c = None"
  by (simp add: pop_pending_def dict_simps)

lemma pending_inv_finish: "pending_inv env b \<Longrightarrow> i < length (bt_phases b) \<Longrightarrow>
    map_of (bt_pending b) (tc_id (be_calls env ! i)) = None \<or> bt_phases b ! i \<noteq> AwaitingApproval \<Longrightarrow>
    pending_inv env (finish_worker env i ok d obs ts b)"
  unfolding finish_worker_def Let_def by (rule pending_inv_event)

lemma pending_inv_phase: "pending_inv env b \<Longrightarrow> i < length (bt_phases b) \<Longrightarrow>
    map_of (bt_pending b) (tc_id (be_calls env ! i)) = None \<or> bt_phases b ! i \<noteq> AwaitingApproval \<Longrightarrow>
    pending_inv env (set_phase i p b)"
  using pending_inv_event [of env b i p "[]"] by (simp add: put_items_def)

lemma pending_inv_cancel: "pending_inv env b \<Longrightarrow> n \<le> length (bt_phases b) \<Longrightarrow> pending_inv env (cancel_workers env n b)"
proof (induction n)
  case (Suc n)
  then show ?case
    by (auto simp: Let_def cancel_workers_phases(1) popped intro!: pending_inv_phase pending_inv_pop split: phase.splits)
qed simp

lemma pending_inv_step:
  assumes inv: "pending_inv env b" and len: "length (bt_phases b) = length (be_calls env)"
    and step: "batch_step env lab b = Some b'"
  shows "pending_inv env b'"
proof (cases lab)
  case (Start i)
  with step have i: "i < length (be_calls env)" "bt_phases b ! i = NotStarted" and b': "b' = worker_start env i b"
    by (auto simp: batch_step_def split: if_splits)
  show ?thesis
  proof (cases "approval_policy env i")
    case None
    with b' i inv len show ?thesis
      by (simp add: worker_start_def start_tool_def Let_def pending_inv_event)
  next
    case (Some p)
    with b' i inv len show ?thesis
      unfolding pending_inv_def worker_start_def set_phase_def put_items_def Let_def
      by (auto simp: dict_simps nth_list_update)
  qed
next
  case (Resume i)
  with step obtain ap where i: "i < length (be_calls env)" "bt_phases b ! i = AwaitingApproval"
    and b': "b' = worker_resume env i ap b"
    by (auto simp: batch_step_def split: if_splits)
  show ?thesis
    unfolding b' worker_resume_def start_tool_def deny_def Let_def using inv i len
    by (auto simp: popped intro!: pending_inv_event pending_inv_finish pending_inv_pop)
next
  case (ApprovalTimeout i)
  with step have i: "i < length (be_calls env)" "bt_phases b ! i = AwaitingApproval" and b': "b' = worker_timeout env i b"
    by (auto simp: batch_step_def split: if_splits)
  show ?thesis
    unfolding b' worker_timeout_def deny_def Let_def using inv i len
    by (auto simp: popped intro!: pending_inv_finish pending_inv_pop)
next
  case (Execute i)
  with step have i: "i < length (be_calls env)" "bt_phases b ! i = Running" and b': "b' = worker_execute env i b"
    by (auto simp: batch_step_def split: if_splits)
  show ?thesis
    unfolding b' worker_execute_def Let_def using inv i len
    by (auto intro!: pending_inv_finish pending_inv_phase split: prod.splits sum.splits)
next
  case Receive
  with step inv show ?thesis
    by (auto simp: batch_step_def fan_in_def pending_inv_def split: if_splits list.splits queue_item.splits)
next
  case (Resolve c a cid)
  with step inv show ?thesis
    by (auto simp: batch_step_def resolve_approval_def Let_def pending_inv_pop split: option.splits prod.splits if_splits)
next
  case (ForeignRegister k c)
  with step inv show ?thesis
    by (auto simp: batch_step_def pending_inv_def dict_simps split: if_splits)
next
  case Close
  with step inv len show ?thesis
    by (auto simp: batch_step_def pending_inv_cancel)
qed (use step inv in \<open>auto simp: batch_step_def pending_inv_pop\<close>)

lemma pending_inv_reach:
  assumes "batch_reach env (batch_init env w p) labs b" and "\<forall>k i c. map_of p k \<noteq> Some (Some i, c)"
  shows "pending_inv env b"
  using assms(1)
proof induction
  case reach_init
  with assms(2) show ?case by (simp add: pending_inv_def batch_init_def)
next
  case (reach_step labs b lab b')
  then show ?case
    using batch_inv_reach pending_inv_step by (fastforce simp: batch_inv_def)
qed

text \<open>
  The gate: a future holds \<open>True\<close>, and a worker that needs approval runs, only after the approval of its
  call arrived from its conversation.
\<close>

definition gate_inv :: "'x batch_env \<Rightarrow> 'x label list \<Rightarrow> 'x batch \<Rightarrow> bool" where
  "gate_inv env labs b \<longleftrightarrow> (\<forall>i < length (be_calls env).
     (bt_futures b ! i = Some True \<or> (approval_policy env i \<noteq> None \<and> (bt_phases b ! i = Running \<or> Execute i \<in> set labs))
       \<longrightarrow> Resolve (tc_id (be_calls env ! i)) True (be_conversation env) \<in> set labs))"

lemma step_frame:
  assumes "batch_step env lab b = Some b'" and "i < length (bt_phases b)"
    and "lab \<notin> {Start i, Resume i, ApprovalTimeout i, Execute i, Close}"
  shows "bt_phases b' ! i = bt_phases b ! i"
  using assms
  by (cases lab)
    (auto simp: batch_step_def worker_start_def worker_resume_def worker_timeout_def worker_execute_def start_tool_def
       deny_def finish_worker_def set_phase_def put_items_def fan_in_def resolve_approval_def Let_def
       split: if_splits option.splits prod.splits sum.splits list.splits queue_item.splits)

lemma step_futures:
  assumes "batch_step env lab b = Some b'"
  shows "bt_futures b' = bt_futures b \<or> (\<exists>c a cid j. lab = Resolve c a cid \<and>
     map_of (bt_pending b) c = Some (Some j, cid) \<and> bt_futures b' = (bt_futures b)[j := Some a])"
proof -
  have "bt_futures (cancel_workers env n b) = bt_futures b" for n
    by (induction n) (auto simp: Let_def set_phase_def split: phase.splits)
  with assms show ?thesis
    by (cases lab)
      (auto simp: batch_step_def worker_start_def worker_resume_def worker_timeout_def worker_execute_def start_tool_def
         deny_def finish_worker_def set_phase_def put_items_def fan_in_def resolve_approval_def Let_def
         split: if_splits option.splits prod.splits sum.splits list.splits queue_item.splits)
qed

lemma worker_running:
  assumes "batch_step env lab b = Some b'" and "i < length (bt_phases b)" and "length (bt_phases b) = length (be_calls env)"
    and "bt_phases b' ! i = Running" and "approval_policy env i \<noteq> None"
  shows "bt_phases b ! i = Running \<or> (lab = Resume i \<and> bt_futures b ! i = Some True)"
proof (cases "lab \<in> {Start i, Resume i, ApprovalTimeout i, Execute i, Close}")
  case True
  with assms show ?thesis
    by (auto simp: batch_step_def worker_start_def worker_resume_def worker_timeout_def worker_execute_def start_tool_def
         deny_def finish_worker_def set_phase_def put_items_def Let_def cancel_workers_phases(2)
         split: if_splits option.splits prod.splits sum.splits)
next
  case False
  with step_frame [OF assms(1,2)] assms(4) show ?thesis by simp
qed

lemma gate_inv_step:
  assumes gate: "gate_inv env labs b" and pend: "pending_inv env b" and inv: "batch_inv env b"
    and step: "batch_step env lab b = Some b'"
  shows "gate_inv env (labs @ [lab]) b'"
  unfolding gate_inv_def
proof (intro allI impI)
  fix i
  let ?res = "Resolve (tc_id (be_calls env ! i)) True (be_conversation env)"
  assume i: "i < length (be_calls env)"
    and now: "bt_futures b' ! i = Some True \<or> (approval_policy env i \<noteq> None \<and> (bt_phases b' ! i = Running \<or> Execute i \<in> set (labs @ [lab])))"
  have old: "bt_futures b ! i = Some True \<Longrightarrow> ?res \<in> set labs"
    "approval_policy env i \<noteq> None \<Longrightarrow> bt_phases b ! i = Running \<or> Execute i \<in> set labs \<Longrightarrow> ?res \<in> set labs"
    using gate i by (auto simp: gate_inv_def)
  have len: "length (bt_phases b) = length (be_calls env)" "length (bt_futures b) = length (be_calls env)"
    using inv by (auto simp: batch_inv_def)
  from now consider (fut) "bt_futures b' ! i = Some True"
    | (run) "approval_policy env i \<noteq> None" "bt_phases b' ! i = Running"
    | (ex) "approval_policy env i \<noteq> None" "Execute i \<in> set labs \<or> lab = Execute i" by auto
  then show "?res \<in> set (labs @ [lab])"
  proof cases
    case fut
    from step_futures [OF step] show ?thesis
    proof (elim disjE exE conjE)
      fix c a cid j
      assume r: "lab = Resolve c a cid" "map_of (bt_pending b) c = Some (Some j, cid)" "bt_futures b' = (bt_futures b)[j := Some a]"
      from pend r(2) have "tc_id (be_calls env ! j) = c \<and> cid = be_conversation env"
        by (auto simp: pending_inv_def)
      with fut r old(1) len i show ?thesis
        by (cases "i = j") (auto simp: nth_list_update)
    qed (use fut old(1) in auto)
  next
    case run
    with worker_running [OF step] i len old show ?thesis by auto
  next
    case ex
    then show ?thesis
      using old(2) step i by (auto simp: batch_step_def split: if_splits)
  qed
qed

lemma gate_inv_reach:
  assumes "batch_reach env (batch_init env w p) labs b" and "\<forall>k i c. map_of p k \<noteq> Some (Some i, c)"
  shows "gate_inv env labs b"
  using assms(1)
proof induction
  case reach_init
  then show ?case by (simp add: gate_inv_def batch_init_def)
next
  case (reach_step labs b lab b')
  then show ?case
    using batch_inv_reach pending_inv_reach [OF _ assms(2)] gate_inv_step by blast
qed

text \<open>Once no worker waits, no entry of this batch is left in the dictionary.\<close>

lemma no_leak:
  "pending_inv env b \<Longrightarrow> \<forall>i < length (be_calls env). bt_phases b ! i \<noteq> AwaitingApproval \<Longrightarrow>
     map_of (bt_pending b) k \<noteq> Some (Some i, c)"
  by (auto simp: pending_inv_def)

lemma complete_all_finished:
  "batch_inv env b \<Longrightarrow> bt_remaining b = 0 \<Longrightarrow> i < length (be_calls env) \<Longrightarrow> bt_phases b ! i = Finished"
proof -
  assume inv: "batch_inv env b" and "bt_remaining b = 0" and i: "i < length (be_calls env)"
  then have "bt_results b ! i \<noteq> None"
    using batch_complete(2) by fastforce
  moreover have "done_count i (bt_queue b) + of_bool (bt_results b ! i \<noteq> None) = of_bool (bt_phases b ! i = Finished)"
    using inv i by (simp add: batch_inv_def)
  ultimately show "bt_phases b ! i = Finished"
    by (cases "bt_phases b ! i = Finished") simp_all
qed

text \<open>
  A message for the right call but from another conversation consumes the entry: the owner's approval
  that follows changes nothing.
\<close>

lemma resolve_other_conversation:
  "map_of (bt_pending b) call_id = Some (fut, owner) \<Longrightarrow> owner \<noteq> other \<Longrightarrow>
     resolve_approval call_id approved owner (resolve_approval call_id x other b) = pop_pending call_id b"
  by (auto simp: resolve_approval_def popped Let_def split: option.splits)

section \<open>Progress\<close>

definition phase_weight :: "phase \<Rightarrow> nat" where
  "phase_weight p = (case p of NotStarted \<Rightarrow> 9 | AwaitingApproval \<Rightarrow> 6 | Running \<Rightarrow> 3 | Finished \<Rightarrow> 0 | Cancelled \<Rightarrow> 0)"

definition batch_measure :: "'x batch \<Rightarrow> nat" where
  "batch_measure b = sum_list (map phase_weight (bt_phases b)) + length (bt_queue b)"

lemma weight_update: "i < length ps \<Longrightarrow>
    sum_list (map phase_weight (ps[i := p])) + phase_weight (ps ! i) = sum_list (map phase_weight ps) + phase_weight p"
proof (induction ps arbitrary: i)
  case (Cons q ps)
  then show ?case by (cases i) auto
qed simp

lemma measure_set_phase: "i < length (bt_phases b) \<Longrightarrow>
    batch_measure (set_phase i p (put_items items b)) + phase_weight (bt_phases b ! i) =
    batch_measure b + length items + phase_weight p"
  using weight_update [of i "bt_phases b" p] by (simp add: batch_measure_def set_phase_def put_items_def)

lemma measure_decreases:
  assumes "batch_measure b = n" and "bt_phases b ! i = q" and "i < length (bt_phases b)"
    and "length items + phase_weight p < phase_weight q"
  shows "batch_measure (set_phase i p (put_items items b)) < n"
  using measure_set_phase [OF assms(3), of p items] assms(4) unfolding assms(1,2) by linarith

lemma batch_measure_frame [simp]:
  "batch_measure (b\<lparr>bt_world := w\<rparr>) = batch_measure b" "batch_measure (b\<lparr>bt_pending := q\<rparr>) = batch_measure b"
  "batch_measure (pop_pending c b) = batch_measure b"
  by (simp_all add: batch_measure_def pop_pending_def)

definition no_cancelled :: "'x batch \<Rightarrow> bool" where
  "no_cancelled b \<longleftrightarrow> Cancelled \<notin> set (bt_phases b)"

definition own_label :: "'x label \<Rightarrow> bool" where
  "own_label lab \<longleftrightarrow> (case lab of Start _ \<Rightarrow> True | Resume _ \<Rightarrow> True | ApprovalTimeout _ \<Rightarrow> True | Execute _ \<Rightarrow> True
     | Receive \<Rightarrow> True | _ \<Rightarrow> False)"

lemma reg_execute_total:
  assumes "\<forall>(name, t) \<in> set (rg_tools rg). handler_total t"
  obtains w' ex where "reg_execute rg u call w = (w', Inr ex)"
proof -
  obtain ex tag where "snd (reg_run rg u call w) = Inr (ex, tag)"
    using reg_run_total [OF assms] by blast
  then show ?thesis
    using that by (cases "reg_run rg u call w") (auto simp: reg_execute_def seq_Inr ret_apply)
qed

lemma no_cancelled_update: "no_cancelled b \<Longrightarrow> p \<noteq> Cancelled \<Longrightarrow> no_cancelled (set_phase i p b)"
  using set_update_subset_insert by (fastforce simp: no_cancelled_def set_phase_def)

lemma no_cancelled_frame [simp]:
  "no_cancelled (put_items items b) = no_cancelled b" "no_cancelled (pop_pending c b) = no_cancelled b"
  "no_cancelled (b\<lparr>bt_world := w\<rparr>) = no_cancelled b" "no_cancelled (b\<lparr>bt_pending := q\<rparr>) = no_cancelled b"
  "no_cancelled (b\<lparr>bt_futures := f\<rparr>) = no_cancelled b" "no_cancelled (b\<lparr>bt_queue := items'\<rparr>) = no_cancelled b"
  "no_cancelled (b\<lparr>bt_emitted := es\<rparr>) = no_cancelled b"
  "no_cancelled (b\<lparr>bt_results := rs, bt_remaining := n\<rparr>) = no_cancelled b"
  by (simp_all add: no_cancelled_def put_items_def)

text \<open>While reports are missing, some task of the batch can run, and it brings the batch closer to its end.\<close>

lemma batch_progress:
  assumes inv: "batch_inv env b" and nc: "no_cancelled b" and rem: "0 < bt_remaining b"
    and tot: "\<forall>(name, t) \<in> set (rg_tools (be_registry env)). handler_total t"
  shows "\<exists>lab b'. own_label lab \<and> batch_step env lab b = Some b' \<and> batch_measure b' < batch_measure b \<and> no_cancelled b'"
proof -
  have len: "length (bt_phases b) = length (be_calls env)" "length (bt_results b) = length (be_calls env)"
    using inv by (auto simp: batch_inv_def)
  have "none_count (bt_results b) \<noteq> 0"
    using inv rem by (simp add: batch_inv_def)
  then obtain i where i: "i < length (be_calls env)" "bt_results b ! i = None"
    using len unfolding none_count_0 by metis
  show ?thesis
  proof (cases "bt_phases b ! i")
    case NotStarted
    then show ?thesis
      using i len nc
      by (intro exI [of _ "Start i"] exI [of _ "worker_start env i b"])
        (auto simp: own_label_def batch_step_def worker_start_def start_tool_def Let_def phase_weight_def
          intro!: no_cancelled_update measure_decreases split: option.splits)
  next
    case AwaitingApproval
    show ?thesis
    proof (cases "bt_futures b ! i")
      case None
      then show ?thesis
        using AwaitingApproval i len nc
        by (intro exI [of _ "ApprovalTimeout i"] exI [of _ "worker_timeout env i b"])
          (auto simp: own_label_def batch_step_def worker_timeout_def deny_def finish_worker_def Let_def phase_weight_def
            intro!: no_cancelled_update measure_decreases)
    next
      case (Some ap)
      then show ?thesis
        using AwaitingApproval i len nc
        by (intro exI [of _ "Resume i"] exI [of _ "worker_resume env i ap b"])
          (auto simp: own_label_def batch_step_def worker_resume_def start_tool_def deny_def finish_worker_def Let_def
            phase_weight_def intro!: no_cancelled_update measure_decreases)
    qed
  next
    case Running
    obtain w ex where ex: "reg_execute (be_registry env) (be_user env) (be_calls env ! i) (bt_world b) = (w, Inr ex)"
      using reg_execute_total [OF tot] by blast
    show ?thesis
      using Running i len nc
      by (intro exI [of _ "Execute i"] exI [of _ "worker_execute env i b"])
        (auto simp: own_label_def batch_step_def worker_execute_def ex finish_worker_def Let_def phase_weight_def
          intro!: no_cancelled_update measure_decreases)
  next
    case Finished
    have "done_count i (bt_queue b) = 1"
      using inv i Finished by (auto simp: batch_inv_def)
    then obtain item items where q: "bt_queue b = item # items"
      by (cases "bt_queue b") auto
    have "bt_phases (fan_in item (b\<lparr>bt_queue := items\<rparr>)) = bt_phases b"
      and "bt_queue (fan_in item (b\<lparr>bt_queue := items\<rparr>)) = items"
      by (simp_all add: fan_in_def split: queue_item.splits)
    with q rem nc show ?thesis
      by (intro exI [of _ Receive] exI [of _ "fan_in item (b\<lparr>bt_queue := items\<rparr>)"])
        (simp add: own_label_def batch_step_def batch_measure_def no_cancelled_def)
  next
    case Cancelled
    with i(1) len(1) have "Cancelled \<in> set (bt_phases b)"
      by (metis nth_mem)
    with nc show ?thesis by (simp add: no_cancelled_def)
  qed
qed

lemma batch_can_complete:
  assumes "batch_inv env b" and "no_cancelled b" and "\<forall>(name, t) \<in> set (rg_tools (be_registry env)). handler_total t"
  shows "\<exists>labs b'. list_all own_label labs \<and> length labs \<le> batch_measure b \<and> batch_run env labs b = Some b' \<and> bt_remaining b' = 0"
  using assms(1,2)
proof (induction "batch_measure b" arbitrary: b rule: less_induct)
  case less
  show ?case
  proof (cases "bt_remaining b = 0")
    case True
    then show ?thesis by (intro exI [of _ "[]"] exI [of _ b]) simp
  next
    case False
    then obtain lab b1 where s: "own_label lab" "batch_step env lab b = Some b1" "batch_measure b1 < batch_measure b" "no_cancelled b1"
      using batch_progress [OF less.prems _ assms(3)] by blast
    from less.hyps [OF s(3) batch_inv_step [OF less.prems(1) s(2)] s(4)] obtain labs b' where
      "list_all own_label labs" "length labs \<le> batch_measure b1" "batch_run env labs b1 = Some b'" "bt_remaining b' = 0"
      by blast
    with s show ?thesis
      by (intro exI [of _ "lab # labs"] exI [of _ b']) simp
  qed
qed

lemma measure_init: "batch_measure (batch_init env w p) = 9 * length (be_calls env)"
  by (simp add: batch_measure_def batch_init_def phase_weight_def sum_list_replicate)

lemma no_cancelled_init: "no_cancelled (batch_init env w p)"
  by (auto simp: no_cancelled_def batch_init_def)

lemma no_cancelled_step:
  assumes "no_cancelled b" and "batch_step env lab b = Some b'" and "lab \<noteq> Close"
    and tot: "\<forall>(name, t) \<in> set (rg_tools (be_registry env)). handler_total t"
  shows "no_cancelled b'"
proof (cases "\<exists>i. lab = Execute i")
  case True
  then obtain i where i: "lab = Execute i" by blast
  obtain w ex where ex: "reg_execute (be_registry env) (be_user env) (be_calls env ! i) (bt_world b) = (w, Inr ex)"
    using reg_execute_total [OF tot] by blast
  from i assms(1,2) show ?thesis
    by (auto simp: batch_step_def worker_execute_def ex finish_worker_def Let_def split: if_splits intro!: no_cancelled_update)
next
  case False
  with assms(1-3) show ?thesis
    by (cases lab)
      (auto simp: batch_step_def worker_start_def worker_resume_def worker_timeout_def start_tool_def deny_def finish_worker_def
         fan_in_def resolve_approval_def Let_def
         split: if_splits option.splits prod.splits list.splits queue_item.splits intro!: no_cancelled_update)
qed

lemma no_cancelled_run:
  assumes "batch_run env labs b = Some b'" and "Close \<notin> set labs" and "no_cancelled b"
    and "\<forall>(name, t) \<in> set (rg_tools (be_registry env)). handler_total t"
  shows "no_cancelled b'"
  using assms(1-3)
proof (induction labs arbitrary: b)
  case (Cons lab labs)
  then show ?case
    using no_cancelled_step [OF _ _ _ assms(4)] by (auto split: option.splits)
qed simp

text \<open>Approval comes before execution.\<close>

lemma approved_before:
  assumes "batch_run env (xs @ Execute i # ys) (batch_init env w p) = Some b" and "\<forall>k i c. map_of p k \<noteq> Some (Some i, c)"
    and "approval_policy env i \<noteq> None"
  shows "Resolve (tc_id (be_calls env ! i)) True (be_conversation env) \<in> set xs"
proof -
  obtain b1 where b1: "batch_run env xs (batch_init env w p) = Some b1" "batch_step env (Execute i) b1 \<noteq> None"
    using assms(1) by (auto simp: batch_run_append split: option.splits)
  from gate_inv_reach [OF _ assms(2)] b1(1) have "gate_inv env xs b1"
    by (simp add: batch_reach_iff)
  with b1(2) assms(3) show ?thesis
    by (auto simp: gate_inv_def batch_step_def split: if_splits)
qed

text \<open>A finished batch leaves none of its entries among the pending approvals.\<close>

lemma approvals_cleaned_up:
  assumes "batch_run env labs (batch_init env w pending) = Some b" and "bt_remaining b = 0"
    and "\<forall>k i c. map_of pending k \<noteq> Some (Some i, c)"
  shows "map_of (bt_pending b) k \<noteq> Some (Some i, c)"
proof -
  have "batch_inv env b" and "pending_inv env b"
    using assms batch_inv_reach pending_inv_reach [OF _ assms(3)] by (simp_all add: batch_reach_iff)
  then show ?thesis
    using no_leak complete_all_finished [OF _ assms(2)] by (metis phase.distinct(11))
qed

end
