(* ===== verification/Agent_Loop.thy ===== *)
theory Agent_Loop
  imports Context Tool_Batch_Invariants
begin

text \<open>
  \<open>agent/loop.py\<close>: the turn. \<open>run_turn\<close> is an async generator; the model gives the events it yields to a
  consumer that drives it to its end, the world it leaves, the background tasks it enqueues and the
  exception it ends with. The streaming LLM is external: given the messages and the tools it returns the
  events it streamed and the exception the stream ended with, if any. The interleaving of each batch of
  tool calls is a list of labels (\<open>Tool_Batch\<close>), one list per batch; a turn whose labels do not finish a
  batch is still running, and its result is \<open>None\<close>. Telemetry and metrics are left out.
\<close>

type_synonym 'x stream_llm = "message list \<Rightarrow> tool_definition list \<Rightarrow> 'x world_scheme
  \<Rightarrow> 'x world_scheme \<times> stream_event list \<times> exn option"

record 'x agent =
  ag_llm :: "'x stream_llm"
  ag_llm_factory :: "(pystr \<Rightarrow> 'x stream_llm) option"
  ag_builder :: "'x context_builder"
  ag_working :: "'x working_memory"
  ag_episodic :: "'x episodic_memory option"
  ag_factual :: "'x factual_memory"
  ag_cfg :: agent_config

text \<open>What \<open>_enqueue\<close> starts: factual extraction and rollover.\<close>

datatype bg_task =
    FactualExtract pystr pystr pystr
  | WorkingRollover pystr pystr

type_synonym approvals = "(pystr \<times> (nat option \<times> pystr)) list"

record 'x turn_state =
  ts_world :: "'x world_scheme"
  ts_messages :: "message list"
  ts_usage :: token_usage
  ts_iterations :: nat
  ts_texts :: "pystr list"
  ts_tool_turns :: "turn list"
  ts_events :: "agent_event list"
  ts_approvals :: approvals

datatype loop_exit = Stopped pystr | Raised exn | StillRunning

definition accumulate :: "token_usage \<Rightarrow> token_usage \<Rightarrow> token_usage" where
  "accumulate a b = \<lparr>prompt_tokens = prompt_tokens a + prompt_tokens b,
     completion_tokens = completion_tokens a + completion_tokens b, total_tokens = total_tokens a + total_tokens b\<rparr>"

section \<open>The loop\<close>

fun text_deltas :: "stream_event list \<Rightarrow> agent_event list" where
  "text_deltas [] = []"
| "text_deltas (TextChunk txt # es) = (if txt \<noteq> [] then TextDelta txt # text_deltas es else text_deltas es)"
| "text_deltas (_ # es) = text_deltas es"

fun stream_response :: "llm_response option \<Rightarrow> stream_event list \<Rightarrow> llm_response option" where
  "stream_response r [] = r"
| "stream_response r (StreamEnd response # es) = stream_response (Some response) es"
| "stream_response r (_ # es) = stream_response r es"

text \<open>After a response with tool calls: the batch runs under the given labels.\<close>

definition after_batch :: "'x batch \<Rightarrow> 'x turn_state \<Rightarrow> 'x turn_state" where
  "after_batch b s = s\<lparr>ts_world := bt_world b, ts_messages := ts_messages s @ batch_messages b,
     ts_tool_turns := ts_tool_turns s @ batch_turns b, ts_events := ts_events s @ bt_emitted b,
     ts_approvals := bt_pending b\<rparr>"

definition batch_env_of :: "'x agent \<Rightarrow> pystr \<Rightarrow> pystr \<Rightarrow> tool_call list \<Rightarrow> 'x batch_env" where
  "batch_env_of ag user_id conversation_id calls = \<lparr>be_registry = cb_registry (ag_builder ag), be_user = user_id,
     be_conversation = conversation_id, be_calls = calls\<rparr>"

definition execute_tool_calls :: "'x agent \<Rightarrow> pystr \<Rightarrow> pystr \<Rightarrow> tool_call list \<Rightarrow> 'x label list \<Rightarrow> 'x turn_state
    \<Rightarrow> 'x turn_state option" where
  "execute_tool_calls ag user_id conversation_id calls labs s =
     (let env = batch_env_of ag user_id conversation_id calls
      in case batch_run env labs (batch_init env (ts_world s) (ts_approvals s)) of
           None \<Rightarrow> None
         | Some b \<Rightarrow> if bt_remaining b = 0 then Some (after_batch b s) else None)"

text \<open>
  The body of the \<open>for\<close> loop: it leaves the loop (\<open>Inl\<close>) or goes on to the next iteration (\<open>Inr\<close>). The
  labels of the batches to come are \<open>scheds\<close>.
\<close>

definition turn_iteration :: "'x agent \<Rightarrow> 'x stream_llm \<Rightarrow> real option \<Rightarrow> tool_definition list \<Rightarrow> pystr \<Rightarrow> pystr
    \<Rightarrow> 'x label list list \<Rightarrow> 'x turn_state \<Rightarrow> 'x turn_state \<times> loop_exit + 'x turn_state" where
  "turn_iteration ag llm deadline tools user_id conversation_id scheds s0 =
     (let s = s0\<lparr>ts_iterations := ts_iterations s0 + 1\<rparr>
      in if (case deadline of None \<Rightarrow> False | Some d \<Rightarrow> w_monotonic (ts_world s) > d)
         then Inl (s, Stopped (py ''turn_budget_exceeded''))
         else case llm (ts_messages s) tools (ts_world s) of (w, stream, exc) \<Rightarrow>
           (let s = s\<lparr>ts_world := w, ts_events := ts_events s @ text_deltas stream\<rparr>
            in case exc of
                 Some e \<Rightarrow> Inl (s, Raised e)
               | None \<Rightarrow> (case stream_response None stream of
                     None \<Rightarrow> Inl (s, Stopped (py ''no_response''))
                   | Some response \<Rightarrow>
                       let s = s\<lparr>ts_usage := accumulate (ts_usage s) (rs_usage response),
                                ts_texts := ts_texts s @ (if rs_text response \<noteq> [] then [rs_text response] else [])\<rparr>;
                           calls = rs_tool_calls response
                       in if calls = [] then Inl (s, Stopped (py ''completed''))
                          else let s = s\<lparr>ts_messages := ts_messages s @ [MAssistantToolCalls calls (or_none (rs_text response))]\<rparr>
                               in case scheds of
                                    [] \<Rightarrow> Inl (s, StillRunning)
                                  | labs # _ \<Rightarrow>
                                      (case execute_tool_calls ag user_id conversation_id calls labs s of
                                         None \<Rightarrow> Inl (s, StillRunning)
                                       | Some s' \<Rightarrow> Inr s'))))"

text \<open>The loop, with \<open>left\<close> iterations to go; when they run out, its \<open>else\<close>.\<close>

fun turn_loop :: "'x agent \<Rightarrow> 'x stream_llm \<Rightarrow> real option \<Rightarrow> tool_definition list \<Rightarrow> pystr \<Rightarrow> pystr
    \<Rightarrow> nat \<Rightarrow> 'x label list list \<Rightarrow> 'x turn_state \<Rightarrow> 'x turn_state \<times> loop_exit" where
  "turn_loop ag llm deadline tools user_id conversation_id 0 scheds s = (s, Stopped (py ''max_iterations''))"
| "turn_loop ag llm deadline tools user_id conversation_id (Suc left) scheds s =
     (case turn_iteration ag llm deadline tools user_id conversation_id scheds s of
        Inl out \<Rightarrow> out
      | Inr s' \<Rightarrow> turn_loop ag llm deadline tools user_id conversation_id left (tl scheds) s')"

section \<open>Persisting\<close>

definition append_now :: "pystr \<Rightarrow> (real \<Rightarrow> turn) \<Rightarrow> ('x, unit) wio" where
  "append_now conversation_id turn w = wm_append_turn conversation_id (turn (w_now w)) w"

definition final_text :: "pystr list \<Rightarrow> pystr" where
  "final_text assistant_texts = strip (join nl assistant_texts)"

definition persist :: "pystr \<Rightarrow> pystr \<Rightarrow> pystr \<Rightarrow> pystr list \<Rightarrow> turn list \<Rightarrow> ('x, bg_task list) wio" where
  "persist user_id conversation_id user_message assistant_texts tool_turns =
     seq (append_now conversation_id (new_turn (py ''user'') user_message)) (\<lambda>_.
     seq (if final_text assistant_texts \<noteq> []
          then append_now conversation_id (new_turn (py ''assistant'') (final_text assistant_texts)) else ret ()) (\<lambda>_.
     seq (for_each tool_turns (wm_append_turn conversation_id)) (\<lambda>_.
     ret ((if final_text assistant_texts \<noteq> [] then [FactualExtract user_id user_message (final_text assistant_texts)] else [])
          @ [WorkingRollover conversation_id user_id]))))"

section \<open>A turn\<close>

record 'x turn_result =
  tr_world :: "'x world_scheme"
  tr_events :: "agent_event list"
  tr_raised :: "exn option"
  tr_enqueued :: "bg_task list"
  tr_approvals :: approvals

text \<open>The \<open>except Exception\<close> branch: what there is is persisted, the client gets its frame, and the
  exception is raised again.\<close>

definition turn_failed :: "pystr \<Rightarrow> pystr \<Rightarrow> pystr \<Rightarrow> exn \<Rightarrow> 'x turn_state \<Rightarrow> 'x turn_result" where
  "turn_failed user_id conversation_id user_message e s =
     (if is_control_flow e
      then \<lparr>tr_world = ts_world s, tr_events = ts_events s, tr_raised = Some e, tr_enqueued = [], tr_approvals = ts_approvals s\<rparr>
      else case persist user_id conversation_id user_message (ts_texts s) (ts_tool_turns s) (ts_world s) of
          (w, r) \<Rightarrow>
            (case r of
               Inl e' \<Rightarrow> if is_control_flow e'
                 then \<lparr>tr_world = w, tr_events = ts_events s, tr_raised = Some e', tr_enqueued = [], tr_approvals = ts_approvals s\<rparr>
                 else \<lparr>tr_world = w, tr_events = ts_events s @ [TurnFailed (py ''turn failed: '' @ exn_name e @ py '': '' @ exn_str e)],
                       tr_raised = Some e, tr_enqueued = [], tr_approvals = ts_approvals s\<rparr>
             | Inr tasks \<Rightarrow>
                 \<lparr>tr_world = w, tr_events = ts_events s @ [TurnFailed (py ''turn failed: '' @ exn_name e @ py '': '' @ exn_str e)],
                  tr_raised = Some e, tr_enqueued = tasks, tr_approvals = ts_approvals s\<rparr>))"

definition turn_end :: "pystr \<Rightarrow> pystr \<Rightarrow> pystr \<Rightarrow> 'x turn_state \<times> loop_exit \<Rightarrow> 'x turn_result option" where
  "turn_end user_id conversation_id user_message = (\<lambda>(s, x). case x of
       StillRunning \<Rightarrow> None
     | Raised e \<Rightarrow> Some (turn_failed user_id conversation_id user_message e s)
     | Stopped stop_reason \<Rightarrow>
         (case persist user_id conversation_id user_message (ts_texts s) (ts_tool_turns s) (ts_world s) of
            (w, Inl e) \<Rightarrow> Some (turn_failed user_id conversation_id user_message e (s\<lparr>ts_world := w\<rparr>))
          | (w, Inr tasks) \<Rightarrow> Some
              \<lparr>tr_world = w, tr_events = ts_events s @ [TurnComplete (ts_usage s) (int (ts_iterations s)) stop_reason],
               tr_raised = None, tr_enqueued = tasks, tr_approvals = ts_approvals s\<rparr>))"

definition select_llm :: "'x agent \<Rightarrow> pystr \<Rightarrow> pystr \<Rightarrow> ('x, 'x stream_llm) wio" where
  "select_llm ag user_id conversation_id =
     (case ag_llm_factory ag of
        None \<Rightarrow> ret (ag_llm ag)
      | Some factory \<Rightarrow> seq (wm_get_model_name conversation_id user_id) (\<lambda>override.
          ret (case override of None \<Rightarrow> ag_llm ag | Some m \<Rightarrow> if m \<noteq> [] then factory m else ag_llm ag)))"

definition turn_deadline :: "agent_config \<Rightarrow> real \<Rightarrow> real option" where
  "turn_deadline cfg now = (case ac_per_turn_budget_s cfg of
      None \<Rightarrow> None | Some b \<Rightarrow> if b \<noteq> 0 then Some (now + b) else None)"

definition turn_start :: "assembled_context \<Rightarrow> approvals \<Rightarrow> 'x world_scheme \<Rightarrow> 'x turn_state" where
  "turn_start ctx approvals w = \<lparr>ts_world = w, ts_messages = ctx_messages ctx, ts_usage = no_usage, ts_iterations = 0,
     ts_texts = [], ts_tool_turns = [], ts_events = [], ts_approvals = approvals\<rparr>"

definition run_turn :: "'x agent \<Rightarrow> pystr \<Rightarrow> pystr \<Rightarrow> pystr \<Rightarrow> 'x label list list \<Rightarrow> approvals \<Rightarrow> 'x world_scheme
    \<Rightarrow> 'x turn_result option" where
  "run_turn ag user_id conversation_id user_message scheds approvals w =
     (case seq (cb_build (ag_builder ag) user_id conversation_id user_message)
             (\<lambda>ctx. seq (select_llm ag user_id conversation_id) (\<lambda>llm. ret (ctx, llm))) w of
        (w, Inl e) \<Rightarrow> Some \<lparr>tr_world = w, tr_events = [], tr_raised = Some e, tr_enqueued = [], tr_approvals = approvals\<rparr>
      | (w, Inr (ctx, llm)) \<Rightarrow>
          turn_end user_id conversation_id user_message
            (turn_loop ag llm (turn_deadline (ag_cfg ag) (w_monotonic w)) (ctx_tools ctx) user_id conversation_id
               (nat (ac_max_iterations (ag_cfg ag))) scheds (turn_start ctx approvals w)))"

section \<open>Background tasks\<close>

definition run_bg_task :: "'x agent \<Rightarrow> bg_task \<Rightarrow> ('x, unit) wio" where
  "run_bg_task ag t = (case t of
       FactualExtract user_id user_text assistant_text \<Rightarrow> fm_extract (ag_factual ag) user_id user_text assistant_text
     | WorkingRollover conversation_id user_id \<Rightarrow> wm_maybe_rollover (ag_working ag) conversation_id user_id)"

text \<open>\<open>_guard\<close>: failures are logged, cancellation goes on.\<close>

definition guard_task :: "'x agent \<Rightarrow> bg_task \<Rightarrow> ('x, unit) wio" where
  "guard_task ag t = suppress_exception (run_bg_task ag t)"

text \<open>\<open>drain\<close>, for tasks that run one after the other; \<open>gather\<close> returns their exceptions.\<close>

fun drain :: "'x agent \<Rightarrow> bg_task list \<Rightarrow> 'x world_scheme \<Rightarrow> 'x world_scheme" where
  "drain ag [] w = w"
| "drain ag (t # ts) w = drain ag ts (fst (guard_task ag t w))"

section \<open>The end of a conversation\<close>

definition end_conversation :: "'x agent \<Rightarrow> pystr \<Rightarrow> pystr \<Rightarrow> ('x, unit) wio" where
  "end_conversation ag user_id conversation_id w =
     (case wm_peek conversation_id user_id w of
        (w, Inl (UnauthorizedError _)) \<Rightarrow> (w, Inr ())
      | (w, Inl e) \<Rightarrow> (w, Inl e)
      | (w, Inr None) \<Rightarrow> (w, Inr ())
      | (w, Inr (Some snapshot)) \<Rightarrow>
          seq (case ag_episodic ag of
                 None \<Rightarrow> ret ()
               | Some episodic \<Rightarrow> em_write_conversation episodic user_id conversation_id (sn_summary snapshot) (sn_buffer snapshot))
            (\<lambda>_. wm_mark_finalized (ag_working ag) conversation_id) w)"

definition sweep_idle :: "'x agent \<Rightarrow> real \<Rightarrow> ('x, unit) wio" where
  "sweep_idle ag idle_finalize_s =
     seq (wm_due_for_finalize idle_finalize_s) (\<lambda>due.
       for_each due (\<lambda>(conversation_id, user_id). suppress_exception (end_conversation ag user_id conversation_id)))"

end
