(* ===== verification/Turn_Invariants.thy ===== *)
theory Turn_Invariants
  imports Agent_Loop
begin

text \<open>
  What a turn keeps: the history the model sees pairs every tool call with its result, whatever was
  evicted from the buffer and however the batches interleave; the turns are appended to the session in a
  fixed order; the loop is bounded.
\<close>

section \<open>Paired histories\<close>

text \<open>
  \<open>paired pend ms\<close>: the calls \<open>pend\<close> are answered first, in order, each by one result; then every message
  with tool calls is directly followed by the results of its calls, and there is no other result.
\<close>

fun paired :: "pystr list \<Rightarrow> message list \<Rightarrow> bool" where
  "paired pend [] \<longleftrightarrow> pend = []"
| "paired pend (MToolResult i _ # ms) \<longleftrightarrow> pend \<noteq> [] \<and> hd pend = i \<and> paired (tl pend) ms"
| "paired pend (MAssistantToolCalls calls _ # ms) \<longleftrightarrow> pend = [] \<and> paired (map tc_id calls) ms"
| "paired pend (_ # ms) \<longleftrightarrow> pend = [] \<and> paired [] ms"

lemma paired_append: "paired pend xs \<Longrightarrow> paired [] ys \<Longrightarrow> paired pend (xs @ ys)"
  by (induction "pend" xs rule: paired.induct) auto

lemma paired_results:
  "length ms = length calls \<Longrightarrow> \<forall>i < length calls. \<exists>obs. ms ! i = MToolResult (tc_id (calls ! i)) obs \<Longrightarrow>
     paired (map tc_id calls) ms"
proof (induction calls arbitrary: ms)
  case (Cons c calls)
  then obtain m ms' where ms: "ms = m # ms'" by (cases ms) auto
  obtain obs where "m = MToolResult (tc_id c) obs"
    using Cons.prems(2) ms by force
  moreover have "paired (map tc_id calls) ms'"
    using Cons.prems ms by (intro Cons.IH) fastforce+
  ultimately show ?case using ms by simp
qed simp

text \<open>The same of the turns a session keeps: a tool-call turn has one call and no text, and its result follows.\<close>

fun buffer_ok :: "turn list \<Rightarrow> bool" where
  "buffer_ok [] \<longleftrightarrow> True"
| "buffer_ok (t # ts) \<longleftrightarrow>
     (if turn_role t = py ''assistant'' \<and> turn_tool_calls t \<noteq> []
      then case ts of
          [] \<Rightarrow> False
        | u # us \<Rightarrow> length (turn_tool_calls t) = 1 \<and> turn_text t = [] \<and> turn_role u = py ''tool''
            \<and> turn_tool_call_id u = Some (tc_id (hd (turn_tool_calls t))) \<and> buffer_ok us
      else turn_role t \<noteq> py ''tool'' \<and> buffer_ok ts)"

lemma buffer_ok_append: "buffer_ok xs \<Longrightarrow> buffer_ok ys \<Longrightarrow> buffer_ok (xs @ ys)"
  by (induction xs rule: induct_list012) (auto split: if_splits)

lemma buffer_ok_suffix:
  "buffer_ok (xs @ ys) \<Longrightarrow> xs = [] \<or> turn_text (last xs) \<noteq> [] \<Longrightarrow> buffer_ok ys"
proof (induction xs rule: induct_list012)
  case (3 x y zs)
  then show ?case
    by (cases "zs = []") (auto split: if_splits)
qed (auto split: if_splits list.splits)

lemma turn_to_message_tool:
  "turn_role t = py ''tool'' \<Longrightarrow> turn_tool_call_id t = Some i \<Longrightarrow> turn_to_message t = MToolResult i (turn_text t)"
  by (simp add: turn_to_message_def)

lemma buffer_ok_paired: "buffer_ok ts \<Longrightarrow> paired [] (map turn_to_message ts)"
proof (induction ts rule: induct_list012)
  case (2 t)
  then show ?case by (auto simp: turn_to_message_def split: if_splits)
next
  case (3 t u ts)
  show ?case
  proof (cases "turn_role t = py ''assistant'' \<and> turn_tool_calls t \<noteq> []")
    case True
    with 3 show ?thesis
      by (cases "turn_tool_calls t") (auto simp: turn_to_message_tool, auto simp: turn_to_message_def)
  next
    case False
    with 3 have "paired [] (map turn_to_message (u # ts))" by auto
    moreover have "turn_to_message t = MAssistant (turn_text t) \<or> turn_to_message t = MUser (turn_text t)"
      using False 3 by (auto simp: turn_to_message_def)
    ultimately show ?thesis by auto
  qed
qed simp

section \<open>Eviction keeps the pairs\<close>

lemma allocate_buffer_ok:
  assumes "allocate estimate_tokens cfg i = Inr r" and "buffer_ok (in_buffer i)"
  shows "buffer_ok (out_buffer r)"
proof -
  from default_estimator.allocate_buffer [OF assms(1)] obtain evicted where ev: "in_buffer i = evicted @ out_buffer r"
    "evicted \<noteq> [] \<longrightarrow> tier0 estimate_tokens i + estimate_tokens (out_factual_block r) + estimate_tokens (out_summary r)
      + sum_list (map (turn_cost estimate_tokens) (out_buffer r)) + turn_cost estimate_tokens (last evicted) > budget cfg"
    by blast
  have "0 \<le> sum_list (map (hit_cost estimate_tokens) (out_episodic r))"
    by (intro sum_list_nonneg) auto
  with default_estimator.allocate_used [OF assms(1)] ev(2) have "evicted \<noteq> [] \<longrightarrow> 0 < turn_cost estimate_tokens (last evicted)"
    by (auto simp: result_cost_def)
  then have "evicted = [] \<or> turn_text (last evicted) \<noteq> []"
    by (auto simp: turn_cost_def)
  with ev(1) assms(2) show ?thesis
    using buffer_ok_suffix by metis
qed

lemma rollover_buffer_ok:
  assumes split: "split_for_rollover est cfg buffer = (kept, evicted)" and "est [] = 0" and "buffer_ok buffer"
    and newest: "buffer \<noteq> [] \<longrightarrow> est (turn_text (last buffer)) \<le> wc_buffer_token_budget cfg"
  shows "buffer_ok kept"
proof (cases "evicted = []")
  case True
  with split_for_rollover_spec(1) [OF split] assms(3) show ?thesis by simp
next
  case False
  note spec = split_for_rollover_spec [OF split]
  from False spec(1,2) have "kept \<noteq> []" and "last buffer = last kept" and "buffer \<noteq> []" by auto
  then have "buffer_tokens est kept \<le> wc_buffer_token_budget cfg"
    using spec(3) newest by (cases kept) (auto simp: buffer_tokens_def)
  with spec(4) [OF False] assms(2) have "turn_text (last evicted) \<noteq> []"
    by (auto simp: buffer_tokens_def)
  with spec(1) assms(3) show ?thesis
    using buffer_ok_suffix by blast
qed

lemma assemble_paired:
  assumes "cb_assemble b msg sn p hits tools dyn sk = Inr ctx" and "cb_estimate b = estimate_tokens"
    and "buffer_ok (sn_buffer sn)"
  shows "paired [] (ctx_messages ctx)"
  using assms(1)
proof (rule cb_assemble_cases)
  fix bud
  assume al: "allocate (cb_estimate b) (cb_context_cfg b) (budget_inputs_of b msg sn p hits tools dyn sk) = Inr bud"
    and msgs: "ctx_messages ctx = [MSystem (compose_system (cb_agent_cfg b) dyn sk
           (format_factual (cb_float_str b) p (ac_factual_block_header (cb_agent_cfg b)))
           (format_episodic (cb_float_str b) (out_episodic bud) (ac_episodic_block_header (cb_agent_cfg b)))
           (out_summary bud))] @ map turn_to_message (out_buffer bud) @ [MUser msg]"
  have "buffer_ok (out_buffer bud)"
    using al assms(2,3) by (intro allocate_buffer_ok) (auto simp: budget_inputs_of_def)
  with msgs show ?thesis
    by (simp add: paired_append buffer_ok_paired)
qed

section \<open>The loop\<close>

lemma complete_messages:
  assumes "batch_inv env b" and "bt_remaining b = 0"
  shows "paired (map tc_id (be_calls env)) (batch_messages b)"
proof (rule paired_results)
  show "length (batch_messages b) = length (be_calls env)"
    using batch_complete(1) [OF assms] .
  show "\<forall>i < length (be_calls env). \<exists>obs. batch_messages b ! i = MToolResult (tc_id (be_calls env ! i)) obs"
  proof (intro allI impI)
    fix i
    assume i: "i < length (be_calls env)"
    with batch_complete(2) [OF assms i] batch_complete(1) [OF assms]
    show "\<exists>obs. batch_messages b ! i = MToolResult (tc_id (be_calls env ! i)) obs"
      by (auto simp: batch_messages_def good_report_def)
  qed
qed

lemma complete_turns: "batch_inv env b \<Longrightarrow> bt_remaining b = 0 \<Longrightarrow> buffer_ok (batch_turns b)"
proof -
  assume c: "batch_inv env b" "bt_remaining b = 0"
  have "buffer_ok (concat xs)" if "\<forall>x \<in> set xs. buffer_ok x" for xs
    using that by (induction xs) (auto intro: buffer_ok_append)
  moreover have "\<forall>x \<in> set (map (\<lambda>r. snd (the r)) (bt_results b)). buffer_ok x"
  proof
    fix x
    assume "x \<in> set (map (\<lambda>r. snd (the r)) (bt_results b))"
    then obtain i where i: "i < length (bt_results b)" "x = snd (the (bt_results b ! i))"
      by (auto simp: in_set_conv_nth)
    moreover have "length (bt_results b) = length (be_calls env)"
      using c(1) by (simp add: batch_inv_def)
    ultimately obtain r where "bt_results b ! i = Some r" "good_report env i r"
      using batch_complete(2) [OF c] by fastforce
    with i show "buffer_ok x"
      by (auto simp: good_report_def)
  qed
  ultimately show ?thesis
    by (simp add: batch_turns_def)
qed

lemma execute_tool_calls_spec:
  assumes "execute_tool_calls ag u c calls labs s = Some s'"
  obtains b where "batch_inv (batch_env_of ag u c calls) b" and "bt_remaining b = 0" and "s' = after_batch b s"
proof -
  from assms obtain b where b: "batch_run (batch_env_of ag u c calls) labs (batch_init (batch_env_of ag u c calls) (ts_world s) (ts_approvals s)) = Some b"
    "bt_remaining b = 0" "s' = after_batch b s"
    by (auto simp: execute_tool_calls_def Let_def split: option.splits if_splits)
  then have "batch_inv (batch_env_of ag u c calls) b"
    by (auto simp: batch_reach_iff [symmetric] dest: batch_inv_reach)
  with b that show ?thesis by blast
qed

lemma execute_tool_calls_paired:
  assumes "execute_tool_calls ag u c calls labs s = Some s'"
    and "ts_messages s = ms @ [MAssistantToolCalls calls txt]" and "paired [] ms" and "buffer_ok (ts_tool_turns s)"
  shows "paired [] (ts_messages s')" and "buffer_ok (ts_tool_turns s')" and "ts_iterations s' = ts_iterations s"
proof -
  from execute_tool_calls_spec [OF assms(1)] obtain b where
    b: "batch_inv (batch_env_of ag u c calls) b" "bt_remaining b = 0" "s' = after_batch b s" .
  from complete_messages [OF b(1,2)] have "paired [] (MAssistantToolCalls calls txt # batch_messages b)"
    by (simp add: batch_env_of_def)
  with assms(2,3) b(3) show "paired [] (ts_messages s')"
    by (simp add: after_batch_def paired_append)
  from complete_turns [OF b(1,2)] assms(4) b(3) show "buffer_ok (ts_tool_turns s')"
    by (simp add: after_batch_def buffer_ok_append)
  from b(3) show "ts_iterations s' = ts_iterations s"
    by (simp add: after_batch_def)
qed

text \<open>One iteration: it counts itself, keeps the turns well formed, and goes on only with a paired history.\<close>

lemma turn_iteration_goes_on:
  assumes "turn_iteration ag llm deadline tools u c scheds s = Inr s'"
    and "paired [] (ts_messages s)" and "buffer_ok (ts_tool_turns s)"
  shows "paired [] (ts_messages s') \<and> buffer_ok (ts_tool_turns s') \<and> ts_iterations s' = Suc (ts_iterations s)"
proof -
  from assms(1) obtain calls labs tx s1 where
    s1: "execute_tool_calls ag u c calls labs s1 = Some s'"
    "ts_messages s1 = ts_messages s @ [MAssistantToolCalls calls tx]" "ts_tool_turns s1 = ts_tool_turns s"
    "ts_iterations s1 = Suc (ts_iterations s)"
    by (auto simp: turn_iteration_def Let_def split: prod.splits option.splits list.splits if_splits)
  from execute_tool_calls_paired [OF s1(1,2)] s1(3,4) assms(2,3) show ?thesis by simp
qed

lemma turn_iteration_leaves:
  assumes "turn_iteration ag llm deadline tools u c scheds s = Inl (s', x)"
  shows "ts_tool_turns s' = ts_tool_turns s \<and> ts_iterations s' = Suc (ts_iterations s)"
  using assms by (auto simp: turn_iteration_def Let_def split: prod.splits option.splits list.splits if_splits)

text \<open>
  The model is asked only with paired histories: a loop cannot tell apart two language models that
  agree on those.
\<close>

lemma turn_loop_llm_cong:
  assumes "\<And>ms tools w. paired [] ms \<Longrightarrow> llm ms tools w = llm' ms tools w"
    and "paired [] (ts_messages s)" and "buffer_ok (ts_tool_turns s)"
  shows "turn_loop ag llm deadline tools u c n scheds s = turn_loop ag llm' deadline tools u c n scheds s"
  using assms(2,3)
proof (induction n arbitrary: scheds s)
  case (Suc n)
  have "llm (ts_messages s) tools (ts_world s) = llm' (ts_messages s) tools (ts_world s)"
    using assms(1) Suc.prems by blast
  then have "turn_iteration ag llm deadline tools u c scheds s = turn_iteration ag llm' deadline tools u c scheds s"
    by (simp add: turn_iteration_def Let_def)
  then show ?case
    using Suc.IH turn_iteration_goes_on [of ag llm' deadline tools u c scheds s] Suc.prems
    by (auto split: sum.splits)
qed simp

lemma turn_loop_inv:
  assumes "turn_loop ag llm deadline tools u c n scheds s = (s', x)"
    and "paired [] (ts_messages s)" and "buffer_ok (ts_tool_turns s)"
  shows "buffer_ok (ts_tool_turns s') \<and> ts_iterations s' \<le> ts_iterations s + n"
  using assms
proof (induction n arbitrary: scheds s)
  case (Suc n)
  show ?case
  proof (cases "turn_iteration ag llm deadline tools u c scheds s")
    case (Inl out)
    with Suc.prems show ?thesis
      using turn_iteration_leaves [of ag llm deadline tools u c scheds s s' x] by simp
  next
    case (Inr s1)
    with Suc.prems have "turn_loop ag llm deadline tools u c n (tl scheds) s1 = (s', x)" by simp
    from Suc.IH [OF this] turn_iteration_goes_on [OF Inr Suc.prems(2,3)] show ?thesis by simp
  qed
qed simp

text \<open>The loop uses of the agent only its context builder.\<close>

lemma turn_iteration_agent:
  "ag_builder ag = ag_builder ag' \<Longrightarrow> turn_iteration ag llm d tools u c scheds s = turn_iteration ag' llm d tools u c scheds s"
proof -
  assume "ag_builder ag = ag_builder ag'"
  then have "execute_tool_calls ag = execute_tool_calls ag'"
    by (intro ext) (simp add: execute_tool_calls_def batch_env_of_def)
  then show ?thesis
    by (simp only: turn_iteration_def)
qed

lemma turn_loop_agent:
  "ag_builder ag = ag_builder ag' \<Longrightarrow> turn_loop ag llm d tools u c n scheds s = turn_loop ag' llm d tools u c n scheds s"
proof (induction n arbitrary: scheds s)
  case (Suc n)
  then show ?case
    using turn_iteration_agent [OF Suc.prems, of llm d tools u c scheds s] by (simp split: sum.splits)
qed simp

lemma turn_iteration_count:
  assumes "turn_iteration ag llm d tools u c scheds s = Inr s'"
  shows "ts_iterations s' = Suc (ts_iterations s)"
proof -
  from assms obtain calls labs tx s1 where
    s1: "execute_tool_calls ag u c calls labs s1 = Some s'"
    "ts_messages s1 = ts_messages s @ [MAssistantToolCalls calls tx]" "ts_iterations s1 = Suc (ts_iterations s)"
    by (auto simp: turn_iteration_def Let_def split: prod.splits option.splits list.splits if_splits)
  obtain b where "s' = after_batch b s1"
    using execute_tool_calls_spec [OF s1(1)] by blast
  with s1(3) show ?thesis
    by (simp add: after_batch_def)
qed

lemma turn_loop_count:
  "turn_loop ag llm d tools u c n scheds s = (s', x) \<Longrightarrow> ts_iterations s' \<le> ts_iterations s + n \<and>
     (x = Stopped (py ''max_iterations'') \<longrightarrow> ts_iterations s' = ts_iterations s + n)"
proof (induction n arbitrary: scheds s)
  case (Suc n)
  show ?case
  proof (cases "turn_iteration ag llm d tools u c scheds s")
    case (Inl out)
    have "x \<noteq> Stopped (py ''max_iterations'')"
      using Inl Suc.prems
      by (auto simp: turn_iteration_def Let_def split: prod.splits option.splits list.splits if_splits)
    with Inl Suc.prems turn_iteration_leaves [of ag llm d tools u c scheds s s' x] show ?thesis by simp
  next
    case (Inr s1)
    with Suc.prems have "turn_loop ag llm d tools u c n (tl scheds) s1 = (s', x)" by simp
    from Suc.IH [OF this] turn_iteration_count [OF Inr] show ?thesis by simp
  qed
qed simp

text \<open>The history a turn starts with.\<close>

lemma build_paired:
  assumes "cb_build b u c msg w = (w', Inr ctx)" and "cb_estimate b = estimate_tokens"
    and "ss_live (w_sessions w) (w_now w) c = Some st" and "st_user_id st = u" and "buffer_ok (working_buffer st)"
  shows "paired [] (ctx_messages ctx)"
proof -
  have "wm_load c u w = (w, Inr \<lparr>sn_buffer = working_buffer st, sn_summary = rolling_summary st\<rparr>)"
    using assms(3,4) by (simp add: wm_load_def session_load_own seq_Inr ret_apply)
  with assms(1) have "\<exists>p hits tools dyn sk. cb_assemble b msg \<lparr>sn_buffer = working_buffer st, sn_summary = rolling_summary st\<rparr>
      p hits tools dyn sk = Inr ctx"
    unfolding cb_build_def by (elim seq_cases; clarsimp; blast)
  then show ?thesis
    using assemble_paired [OF _ assms(2)] assms(5) by fastforce
qed

lemma run_turn_llm_cong:
  assumes agree: "\<And>ms tools w. paired [] ms \<Longrightarrow> llm ms tools w = llm' ms tools w"
    and est: "cb_estimate (ag_builder ag) = estimate_tokens" and fac: "ag_llm_factory ag = None"
    and live: "ss_live (w_sessions w) (w_now w) c = Some st" "st_user_id st = u" "buffer_ok (working_buffer st)"
  shows "run_turn (ag\<lparr>ag_llm := llm\<rparr>) u c msg scheds ap w = run_turn (ag\<lparr>ag_llm := llm'\<rparr>) u c msg scheds ap w"
proof (cases "cb_build (ag_builder ag) u c msg w")
  case (Pair w' r)
  show ?thesis
  proof (cases r)
    case (Inl e)
    with Pair show ?thesis by (simp add: run_turn_def seq_Inl)
  next
    case (Inr ctx)
    with build_paired [OF _ est live] Pair have "paired [] (ctx_messages ctx)" by blast
    then have "turn_loop ag llm d tools u c n scheds (turn_start ctx ap w') = turn_loop ag llm' d tools u c n scheds (turn_start ctx ap w')"
      for d tools n
      using agree by (intro turn_loop_llm_cong) (auto simp: turn_start_def)
    with Inr Pair fac show ?thesis
      using turn_loop_agent [of "ag\<lparr>ag_llm := llm\<rparr>" ag] turn_loop_agent [of "ag\<lparr>ag_llm := llm'\<rparr>" ag]
      by (simp add: run_turn_def select_llm_def seq_Inr ret_apply)
  qed
qed

end
