(* ===== verification/Conversation_End.thy ===== *)
theory Conversation_End
  imports Turn_Invariants
begin

text \<open>
  The writes of a turn and of the end of a conversation, seen in the session store: what a turn appends,
  whom \<open>end_conversation\<close> serves, and that a sweep leaves nothing due.
\<close>

section \<open>Appending the turns\<close>

text \<open>The other conversations are as they were.\<close>

definition same_others :: "pystr \<Rightarrow> session_store \<Rightarrow> session_store \<Rightarrow> real \<Rightarrow> bool" where
  "same_others c s s' now \<longleftrightarrow> (\<forall>c'. c' \<noteq> c \<longrightarrow> ss_live s' now c' = ss_live s now c')"

definition appended :: "pystr \<Rightarrow> turn list \<Rightarrow> session_state \<Rightarrow> 'x world_scheme \<Rightarrow> 'x world_scheme \<Rightarrow> bool" where
  "appended c ts st w w' \<longleftrightarrow> (\<exists>s'. w' = w\<lparr>w_sessions := s'\<rparr> \<and> ss_ok s' \<and> same_others c (w_sessions w) s' (w_now w)
     \<and> ss_live s' (w_now w) c = Some (st\<lparr>working_buffer := working_buffer st @ ts, updated_at := w_now w, finalized_at := None\<rparr>))"

lemma append_appended:
  assumes "ss_ok (w_sessions w)" and "ss_live (w_sessions w) (w_now w) c = Some st"
  shows "\<exists>w'. wm_append_turn c t w = (w', Inr ()) \<and> appended c [t] st w w'"
proof -
  have "fst (ss_append_turn (w_sessions w) c t (w_now w)) = Inr ()"
    and "\<And>c'. ss_live (snd (ss_append_turn (w_sessions w) c t (w_now w))) (w_now w) c' =
      (if c' = c then Some (st\<lparr>working_buffer := working_buffer st @ [t], updated_at := w_now w, finalized_at := None\<rparr>)
       else ss_live (w_sessions w) (w_now w) c')"
    and "ss_ok (snd (ss_append_turn (w_sessions w) c t (w_now w)))"
    using mem_sessions.append_live [OF assms] mem_sessions.ok_ops(3) [OF assms(1)] by blast+
  then show ?thesis
    by (auto simp: wm_append_turn_def session_append_def appended_def same_others_def split: prod.splits)
qed

lemma appended_trans:
  assumes a: "appended c ts st w w1"
    and b: "appended c us (st\<lparr>working_buffer := working_buffer st @ ts, updated_at := w_now w, finalized_at := None\<rparr>) w1 w2"
  shows "appended c (ts @ us) st w w2"
proof -
  from a obtain s1 where s1: "w1 = w\<lparr>w_sessions := s1\<rparr>" "same_others c (w_sessions w) s1 (w_now w)"
    by (auto simp: appended_def)
  from b [unfolded appended_def] s1(1) obtain s2 where s2: "w2 = w1\<lparr>w_sessions := s2\<rparr>" "ss_ok s2"
    "same_others c s1 s2 (w_now w)"
    "ss_live s2 (w_now w) c = Some (st\<lparr>working_buffer := working_buffer st @ ts @ us, updated_at := w_now w, finalized_at := None\<rparr>)"
    by auto
  with s1 show ?thesis
    unfolding appended_def by (intro exI [of _ s2]) (simp add: same_others_def)
qed

lemma appended_next:
  "appended c ts st w w1 \<Longrightarrow> ss_ok (w_sessions w1) \<and> w_now w1 = w_now w \<and> ss_live (w_sessions w1) (w_now w1) c =
     Some (st\<lparr>working_buffer := working_buffer st @ ts, updated_at := w_now w, finalized_at := None\<rparr>)"
  by (auto simp: appended_def)

lemma append_all_appended:
  assumes "ss_ok (w_sessions w)" and "ss_live (w_sessions w) (w_now w) c = Some st"
  shows "ts \<noteq> [] \<longrightarrow> (\<exists>w'. for_each ts (wm_append_turn c) w = (w', Inr ()) \<and> appended c ts st w w')"
  using assms
proof (induction ts arbitrary: w st)
  case (Cons t ts)
  obtain w1 where w1: "wm_append_turn c t w = (w1, Inr ())" "appended c [t] st w w1"
    using append_appended [OF Cons.prems] by blast
  show ?case
  proof (cases "ts = []")
    case True
    with w1 show ?thesis by (simp add: seq_Inr)
  next
    case False
    with Cons.IH [of w1] appended_next [OF w1(2)] obtain w2 where "for_each ts (wm_append_turn c) w1 = (w2, Inr ())"
      "appended c ts (st\<lparr>working_buffer := working_buffer st @ [t], updated_at := w_now w, finalized_at := None\<rparr>) w1 w2"
      by blast
    with w1 appended_trans [OF w1(2)] show ?thesis by (simp add: seq_Inr)
  qed
qed simp

text \<open>The turns a completed turn leaves in the session: the message, the answer if there is one, the tool turns.\<close>

definition persisted_turns :: "pystr \<Rightarrow> pystr list \<Rightarrow> turn list \<Rightarrow> real \<Rightarrow> turn list" where
  "persisted_turns user_message assistant_texts tool_turns now =
     [new_turn (py ''user'') user_message now]
     @ (if final_text assistant_texts \<noteq> [] then [new_turn (py ''assistant'') (final_text assistant_texts) now] else [])
     @ tool_turns"

lemma persist_appended:
  assumes "ss_ok (w_sessions w)" and "ss_live (w_sessions w) (w_now w) c = Some st"
  shows "\<exists>w'. persist u c msg texts tool_turns w =
       (w', Inr ((if final_text texts \<noteq> [] then [FactualExtract u msg (final_text texts)] else []) @ [WorkingRollover c u]))
     \<and> appended c (persisted_turns msg texts tool_turns (w_now w)) st w w'"
proof -
  obtain w1 where w1: "wm_append_turn c (new_turn (py ''user'') msg (w_now w)) w = (w1, Inr ())"
    "appended c [new_turn (py ''user'') msg (w_now w)] st w w1"
    using append_appended [OF assms] by blast
  note n1 = appended_next [OF w1(2)]
  let ?answer = "if final_text texts \<noteq> [] then [new_turn (py ''assistant'') (final_text texts) (w_now w)] else []"
  have "\<exists>w2. (if final_text texts \<noteq> [] then append_now c (new_turn (py ''assistant'') (final_text texts)) else ret ()) w1 = (w2, Inr ())
      \<and> appended c ([new_turn (py ''user'') msg (w_now w)] @ ?answer) st w w2"
  proof (cases "final_text texts = []")
    case True
    with w1 show ?thesis by (simp add: ret_apply)
  next
    case False
    obtain w2 where "wm_append_turn c (new_turn (py ''assistant'') (final_text texts) (w_now w1)) w1 = (w2, Inr ())"
      "appended c [new_turn (py ''assistant'') (final_text texts) (w_now w1)]
         (st\<lparr>working_buffer := working_buffer st @ [new_turn (py ''user'') msg (w_now w)], updated_at := w_now w, finalized_at := None\<rparr>) w1 w2"
      using append_appended n1 by blast
    with False appended_trans [OF w1(2)] n1 show ?thesis
      by (auto simp: append_now_def)
  qed
  then obtain w2 where w2: "(if final_text texts \<noteq> [] then append_now c (new_turn (py ''assistant'') (final_text texts)) else ret ()) w1 = (w2, Inr ())"
    "appended c ([new_turn (py ''user'') msg (w_now w)] @ ?answer) st w w2"
    by blast
  have "\<exists>w3. for_each tool_turns (wm_append_turn c) w2 = (w3, Inr ()) \<and>
      appended c (persisted_turns msg texts tool_turns (w_now w)) st w w3"
  proof (cases "tool_turns = []")
    case True
    with w2 show ?thesis by (simp add: persisted_turns_def)
  next
    case False
    with append_all_appended [of w2 c] appended_next [OF w2(2)] obtain w3 where
      "for_each tool_turns (wm_append_turn c) w2 = (w3, Inr ())"
      "appended c tool_turns (st\<lparr>working_buffer := working_buffer st @ [new_turn (py ''user'') msg (w_now w)] @ ?answer,
          updated_at := w_now w, finalized_at := None\<rparr>) w2 w3"
      by blast
    with appended_trans [OF w2(2)] show ?thesis
      by (simp add: persisted_turns_def)
  qed
  then obtain w3 where "for_each tool_turns (wm_append_turn c) w2 = (w3, Inr ())"
    "appended c (persisted_turns msg texts tool_turns (w_now w)) st w w3" by blast
  with w1 w2 show ?thesis
    unfolding persist_def
    by (intro exI [of _ w3]) (simp add: seq_def append_now_def ret_def)
qed

lemma persisted_turns_ok: "buffer_ok tool_turns \<Longrightarrow> buffer_ok (persisted_turns msg texts tool_turns now)"
  by (simp add: persisted_turns_def new_turn_def)

section \<open>Ending a conversation\<close>

lemma end_conversation_other:
  assumes "ss_live (w_sessions w) (w_now w) c = Some st" and "st_user_id st \<noteq> u"
  shows "end_conversation ag u c w = (w, Inr ())"
  using assms by (simp add: end_conversation_def wm_peek_def session_load_other seq_Inl unauthorized_def)

lemma end_conversation_absent:
  assumes "ss_live (w_sessions w) (w_now w) c = None"
  shows "end_conversation ag u c w = (w\<lparr>w_sessions := snd (ss_load (w_sessions w) c u (w_now w))\<rparr>, Inr ())"
  using assms by (simp add: end_conversation_def wm_peek_def session_load_none seq_Inr ret_apply)

lemma end_conversation_own:
  assumes "ss_live (w_sessions w) (w_now w) c = Some st" and "st_user_id st = u"
  shows "end_conversation ag u c w =
    seq (case ag_episodic ag of
           None \<Rightarrow> ret ()
         | Some episodic \<Rightarrow> em_write_conversation episodic u c (rolling_summary st) (working_buffer st))
      (\<lambda>_. wm_mark_finalized (ag_working ag) c) w"
  using assms by (simp add: end_conversation_def wm_peek_def session_load_own seq_Inr ret_apply split: option.splits)

lemma wm_mark_apply:
  "0 \<le> max_retries (wm_store_retry m) \<Longrightarrow> wm_mark_finalized m c w =
     (w\<lparr>w_sessions := ss_mark_finalized (w_sessions w) c (w_now w)\<rparr>, Inr ())"
  unfolding wm_mark_finalized_def by (rule retried_write_ok) (simp_all add: session_mark_def)

section \<open>The sweep\<close>

text \<open>Services that leave the session store and the clock alone and always answer.\<close>

definition quiet :: "('x, 'a) wio \<Rightarrow> bool" where
  "quiet m \<longleftrightarrow> (\<forall>w. \<exists>x. snd (m w) = Inr x \<and> w_sessions (fst (m w)) = w_sessions w \<and> w_now (fst (m w)) = w_now w)"

lemma quietD:
  fixes m :: "('x, unit) wio"
  assumes "quiet m"
  obtains w' where "m w = (w', Inr ())" and "w_sessions w' = w_sessions w" and "w_now w' = w_now w"
proof -
  from assms have "\<exists>x. snd (m w) = Inr x \<and> w_sessions (fst (m w)) = w_sessions w \<and> w_now (fst (m w)) = w_now w"
    unfolding quiet_def by blast
  then show ?thesis
    by (intro that [of "fst (m w)"]) (auto intro: prod_eqI)
qed

lemma quiet_ret [simp]: "quiet (ret x)"
  by (simp add: quiet_def ret_def)

lemma quiet_seq: "quiet m \<Longrightarrow> (\<And>x. quiet (k x)) \<Longrightarrow> quiet (seq m k)"
  unfolding quiet_def
proof (intro allI)
  fix w
  assume m: "\<forall>w. \<exists>x. snd (m w) = Inr x \<and> w_sessions (fst (m w)) = w_sessions w \<and> w_now (fst (m w)) = w_now w"
    and k: "\<And>x. \<forall>w. \<exists>y. snd (k x w) = Inr y \<and> w_sessions (fst (k x w)) = w_sessions w \<and> w_now (fst (k x w)) = w_now w"
  obtain w1 x where "m w = (w1, Inr x)" "w_sessions w1 = w_sessions w" "w_now w1 = w_now w"
    using m by (metis prod.collapse)
  with k [of x] show "\<exists>y. snd (seq m k w) = Inr y \<and> w_sessions (fst (seq m k w)) = w_sessions w \<and> w_now (fst (seq m k w)) = w_now w"
    by (metis seq_Inr)
qed

lemma quiet_add: "0 \<le> max_retries p \<Longrightarrow> quiet (retried_write p rnd op (vectors_add ps))"
proof -
  assume p: "0 \<le> max_retries p"
  have "retried_write p rnd op (vectors_add ps) w = (w\<lparr>w_vectors := vs_add (w_vectors w) ps\<rparr>, Inr ())" for w :: "'a world_scheme"
    by (rule retried_write_ok [OF p]) (simp add: vectors_add_def)
  then show ?thesis by (simp add: quiet_def)
qed

lemma quiet_fun: "(\<And>w. quiet (f w)) \<Longrightarrow> quiet (\<lambda>w. f w w)"
  by (simp add: quiet_def)

text \<open>An episodic memory whose embedder is quiet, with moments off.\<close>

definition quiet_episodic :: "'x episodic_memory \<Rightarrow> bool" where
  "quiet_episodic m \<longleftrightarrow> (\<forall>txt. quiet (em_embed_one m txt)) \<and> 0 \<le> max_retries (em_store_retry m)
     \<and> (\<not> ec_flagged_moments_enabled (em_cfg m) \<or> em_llm_moments m = None)"

lemma quiet_write:
  assumes "quiet_episodic m"
  shows "quiet (em_write_conversation m u c summary turns)"
proof -
  define tx where "tx = compose_conversation summary turns"
  have moments: "write_moments m u c tx = ret ()"
    using assms by (intro ext) (simp add: quiet_episodic_def write_moments_off ret_apply)
  have embed: "quiet (em_embed_one m tx)" and policy: "0 \<le> max_retries (em_store_retry m)"
    using assms by (simp_all add: quiet_episodic_def)
  have "quiet (seq (retried_write (em_store_retry m) (em_rnd m) op (vectors_add ps)) (\<lambda>_. ret ()))" for op ps
    by (rule quiet_seq [OF quiet_add [OF policy]]) simp
  then have "quiet (\<lambda>w. seq (retried_write (em_store_retry m) (em_rnd m) op (vectors_add (ps (w_now w)))) (\<lambda>_. ret ()) w)" for op ps
    by (rule quiet_fun)
  then have "quiet (\<lambda>w. seq (retried_write (em_store_retry m) (em_rnd m) op
      (vectors_add [conversation_point u c tx vec (w_now w)])) (\<lambda>_. ret ()) w)" for op vec
    by this
  then have "quiet (seq (em_embed_one m tx) (\<lambda>vec w. seq (retried_write (em_store_retry m) (em_rnd m) op
      (vectors_add [conversation_point u c tx vec (w_now w)])) (\<lambda>_. ret ()) w))" for op
    by (intro quiet_seq [OF embed])
  then show ?thesis
    by (simp add: em_write_conversation_def tx_def [symmetric] moments Let_def)
qed

text \<open>What ending one conversation does to the sessions when the services are quiet.\<close>

definition ended_sessions :: "session_store \<Rightarrow> pystr \<Rightarrow> real \<Rightarrow> session_store \<Rightarrow> bool" where
  "ended_sessions s c now s' \<longleftrightarrow>
     (\<forall>c'. c' \<noteq> c \<longrightarrow> map_of (sessions s') c' = map_of (sessions s) c') \<and>
     (\<forall>st. map_of (sessions s') c = Some st \<longrightarrow> finalized_at st \<noteq> None) \<and> (ss_ok s \<longrightarrow> ss_ok s')"

definition quiet_agent :: "'x agent \<Rightarrow> bool" where
  "quiet_agent ag \<longleftrightarrow> 0 \<le> max_retries (wm_store_retry (ag_working ag)) \<and>
     (case ag_episodic ag of None \<Rightarrow> True | Some m \<Rightarrow> quiet_episodic m)"

lemma end_conversation_ended:
  assumes "quiet_agent ag" and "\<forall>st. map_of (sessions (w_sessions w)) c = Some st \<longrightarrow> st_user_id st = u"
  obtains w' where "end_conversation ag u c w = (w', Inr ())" and "w_now w' = w_now w"
    and "ended_sessions (w_sessions w) c (w_now w) (w_sessions w')"
proof (cases "ss_live (w_sessions w) (w_now w) c")
  case None
  have "ended_sessions (w_sessions w) c (w_now w) (snd (ss_load (w_sessions w) c u (w_now w)))"
    unfolding ended_sessions_def
  proof (intro conjI impI)
    show "ss_ok (w_sessions w) \<Longrightarrow> ss_ok (snd (ss_load (w_sessions w) c u (w_now w)))"
      by simp
  qed (use None in \<open>auto simp: ss_load_def ss_live_def dict_simps split: option.splits if_splits\<close>)
  with end_conversation_absent [OF None] that show ?thesis by simp
next
  case (Some st)
  with assms(2) have own: "st_user_id st = u"
    by (auto simp: ss_live_def split: option.splits if_splits)
  have q: "quiet (case ag_episodic ag of None \<Rightarrow> ret () | Some e \<Rightarrow> em_write_conversation e u c (rolling_summary st) (working_buffer st))"
    using assms(1) by (auto simp: quiet_agent_def quiet_write split: option.splits)
  obtain w1 where w1: "(case ag_episodic ag of None \<Rightarrow> ret () | Some e \<Rightarrow> em_write_conversation e u c (rolling_summary st) (working_buffer st)) w = (w1, Inr ())"
    "w_sessions w1 = w_sessions w" "w_now w1 = w_now w"
    by (rule quietD [OF q, of w])
  have "0 \<le> max_retries (wm_store_retry (ag_working ag))"
    using assms(1) by (simp add: quiet_agent_def)
  with w1 have e: "end_conversation ag u c w =
      (w1\<lparr>w_sessions := ss_mark_finalized (w_sessions w) c (w_now w)\<rparr>, Inr ())"
    by (simp add: end_conversation_own [OF Some own] seq_Inr wm_mark_apply)
  have "ended_sessions (w_sessions w) c (w_now w) (ss_mark_finalized (w_sessions w) c (w_now w))"
    unfolding ended_sessions_def
  proof (intro conjI impI)
    show "ss_ok (w_sessions w) \<Longrightarrow> ss_ok (ss_mark_finalized (w_sessions w) c (w_now w))"
      by simp
  qed (auto simp: ss_mark_finalized_def dict_simps split: option.splits)
  with e w1 that show ?thesis by simp
qed

text \<open>The conversations a sweep has still to end.\<close>

definition due_ids :: "session_store \<Rightarrow> real \<Rightarrow> real \<Rightarrow> pystr set" where
  "due_ids s idle now = {c. \<exists>st. map_of (sessions s) c = Some st \<and> finalized_at st = None \<and> now - updated_at st \<ge> idle}"

lemma due_list:
  assumes "ss_ok s"
  shows "fst ` set (ss_due_for_finalize s idle now) = due_ids s idle now"
    and "(c, u) \<in> set (ss_due_for_finalize s idle now) \<Longrightarrow> map_of (sessions s) c = Some st \<Longrightarrow> st_user_id st = u"
    and "distinct (map fst (ss_due_for_finalize s idle now))"
proof -
  show "fst ` set (ss_due_for_finalize s idle now) = due_ids s idle now"
    by (force simp: due_ids_def ss_due_for_finalize_def image_iff ss_mem [OF assms])
  show "(c, u) \<in> set (ss_due_for_finalize s idle now) \<Longrightarrow> map_of (sessions s) c = Some st \<Longrightarrow> st_user_id st = u"
    by (auto simp: ss_due_for_finalize_def ss_mem [OF assms])
  have "map fst (ss_due_for_finalize s idle now) =
      map fst (filter (\<lambda>(_, state). finalized_at state = None \<and> now - updated_at state \<ge> idle) (sessions s))"
    by (auto simp: ss_due_for_finalize_def)
  moreover have "distinct (map fst (sessions s))"
    using assms unfolding ss_ok_def by blast
  ultimately show "distinct (map fst (ss_due_for_finalize s idle now))"
    by (simp only: distinct_map_filter)
qed

lemma due_ids_empty: "ss_ok s \<Longrightarrow> due_ids s idle now = {} \<Longrightarrow> ss_due_for_finalize s idle now = []"
  using due_list(1) [of s idle now] by simp

lemma sweep_loop:
  assumes "quiet_agent ag" and "ss_ok (w_sessions w)" and "due_ids (w_sessions w) idle (w_now w) \<subseteq> fst ` set due"
    and "\<forall>(c, u) \<in> set due. \<forall>st. map_of (sessions (w_sessions w)) c = Some st \<longrightarrow> st_user_id st = u"
    and "distinct (map fst due)"
  shows "\<exists>w'. for_each due (\<lambda>(c, u). suppress_exception (end_conversation ag u c)) w = (w', Inr ())
    \<and> due_ids (w_sessions w') idle (w_now w') = {} \<and> ss_ok (w_sessions w') \<and> w_now w' = w_now w"
  using assms(2-5)
proof (induction due arbitrary: w)
  case Nil
  then show ?case by simp
next
  case (Cons cu due)
  obtain c u where cu: "cu = (c, u)" by fastforce
  have "\<forall>st. map_of (sessions (w_sessions w)) c = Some st \<longrightarrow> st_user_id st = u"
    using Cons.prems(3) cu by auto
  from end_conversation_ended [OF assms(1) this] obtain w1 where w1: "end_conversation ag u c w = (w1, Inr ())" "w_now w1 = w_now w"
    "ended_sessions (w_sessions w) c (w_now w) (w_sessions w1)" .
  have ok: "ss_ok (w_sessions w1)"
    using w1(3) Cons.prems(1) by (simp add: ended_sessions_def)
  have due: "due_ids (w_sessions w1) idle (w_now w1) \<subseteq> fst ` set due"
  proof
    fix d
    assume d: "d \<in> due_ids (w_sessions w1) idle (w_now w1)"
    with w1(3) have "d \<noteq> c" by (auto simp: due_ids_def ended_sessions_def)
    moreover from this d w1(2,3) have "d \<in> due_ids (w_sessions w) idle (w_now w)"
      by (auto simp: due_ids_def ended_sessions_def)
    ultimately show "d \<in> fst ` set due"
      using Cons.prems(2) cu by auto
  qed
  have own: "\<forall>(c', u') \<in> set due. \<forall>st. map_of (sessions (w_sessions w1)) c' = Some st \<longrightarrow> st_user_id st = u'"
  proof (clarify)
    fix c' u' st
    assume m: "(c', u') \<in> set due" "map_of (sessions (w_sessions w1)) c' = Some st"
    with Cons.prems(4) cu have "c' \<noteq> c" by (auto simp: image_iff)
    with m w1(3) have "map_of (sessions (w_sessions w)) c' = Some st" by (simp add: ended_sessions_def)
    with m(1) Cons.prems(3) show "st_user_id st = u'" by auto
  qed
  have dist: "distinct (map fst due)"
    using Cons.prems(4) by simp
  have "suppress_exception (end_conversation ag u c) w = (w1, Inr ())"
    using w1(1) by (simp add: suppress_exception_def except_exception_def)
  with Cons.IH [OF ok due own dist] w1(2) show ?case
    by (simp add: cu seq_Inr)
qed

lemma sweep_clears:
  assumes "quiet_agent ag" and "ss_ok (w_sessions w)"
  shows "\<exists>w'. sweep_idle ag idle w = (w', Inr ()) \<and> ss_due_for_finalize (w_sessions w') idle (w_now w') = []"
proof -
  have "\<exists>w'. for_each (ss_due_for_finalize (w_sessions w) idle (w_now w)) (\<lambda>(c, u). suppress_exception (end_conversation ag u c)) w = (w', Inr ())
    \<and> due_ids (w_sessions w') idle (w_now w') = {} \<and> ss_ok (w_sessions w') \<and> w_now w' = w_now w"
    using due_list [OF assms(2)] by (intro sweep_loop [OF assms]) auto
  then show ?thesis
    by (auto simp: sweep_idle_def wm_due_for_finalize_def session_due_def seq_def due_ids_empty)
qed

end
