(* ===== verification/MCP.thy ===== *)
theory MCP
  imports Tool_Registry
begin

text \<open>
  \<open>tools/mcp.py\<close>. The \<open>mcp\<close> SDK's session is external: its \<open>list_tools\<close> and \<open>call_tool\<close> act on the
  world; opening the transports is the parameter of \<open>mcp_connect\<close>. A client (\<open>McpClient\<close>) is the record
  of its operations; one that exceeds \<open>asyncio.timeout\<close> raises \<open>TimeoutError\<close> in the operation it was
  in. Logging is left out.
\<close>

definition NAMESPACE_SEP :: pystr where
  "NAMESPACE_SEP = py ''__''"

definition namespaced :: "pystr \<Rightarrow> pystr \<Rightarrow> pystr" where
  "namespaced server tool = server @ NAMESPACE_SEP @ tool"

section \<open>One server\<close>

record mcp_tool_spec =
  spec_name :: pystr
  spec_description :: pystr
  spec_input_schema :: payload

text \<open>A block of a tool's result: its text, if it has one.\<close>

record mcp_call_result =
  cr_content :: "pystr option list"
  cr_is_error :: bool

record 'x mcp_session =
  se_list_tools :: "('x, mcp_tool_spec list) wio"
  se_call_tool :: "pystr \<Rightarrow> payload \<Rightarrow> real \<Rightarrow> 'x world_scheme \<Rightarrow> 'x world_scheme \<times> mcp_call_result res option"

text \<open>The checks of \<open>connect\<close> before it opens the transport.\<close>

definition mcp_connect :: "mcp_server_config \<Rightarrow> ('x, 'x mcp_session) wio \<Rightarrow> ('x, 'x mcp_session) wio" where
  "mcp_connect srv open_transport =
     (case ms_transport srv of
        STDIO \<Rightarrow> if ms_command srv = None \<or> ms_command srv = Some []
          then throw (ValueError (py ''mcp server '' @ py_repr (ms_name srv) @ py '': stdio transport requires '' @ [39] @ py ''command'' @ [39])) else open_transport
      | HTTP \<Rightarrow> if ms_url srv = None \<or> ms_url srv = Some []
          then throw (ValueError (py ''mcp server '' @ py_repr (ms_name srv) @ py '': http transport requires '' @ [39] @ py ''url'' @ [39])) else open_transport
      | SSE \<Rightarrow> if ms_url srv = None \<or> ms_url srv = Some []
          then throw (ValueError (py ''mcp server '' @ py_repr (ms_name srv) @ py '': sse transport requires '' @ [39] @ py ''url'' @ [39])) else open_transport)"

definition result_text :: "mcp_call_result \<Rightarrow> pystr" where
  "result_text r = join nl (concat (map (\<lambda>b. case b of None \<Rightarrow> [] | Some t \<Rightarrow> [t]) (cr_content r)))"

definition mcp_call :: "'x mcp_session \<Rightarrow> pystr \<Rightarrow> payload \<Rightarrow> real \<Rightarrow> 'x world_scheme \<Rightarrow> 'x world_scheme \<times> pystr res option" where
  "mcp_call session tool arguments timeout w =
     (case se_call_tool session tool arguments timeout w of
        (w', None) \<Rightarrow> (w', None)
      | (w', Some (Inl e)) \<Rightarrow> (w', Some (Inl e))
      | (w', Some (Inr result)) \<Rightarrow>
          (let txt = result_text result
           in if cr_is_error result
              then (w', Some (Inl (RuntimeError (if txt \<noteq> [] then txt
                     else py ''mcp tool '' @ py_repr tool @ py '' returned an error''))))
              else (w', Some (Inr txt))))"

text \<open>\<open>_make_handler\<close>: the handler forwards the original name and ignores the user.\<close>

definition mcp_handler :: "'x mcp_session \<Rightarrow> pystr \<Rightarrow> pystr \<Rightarrow> payload \<Rightarrow> real \<Rightarrow> 'x world_scheme \<Rightarrow> 'x world_scheme \<times> pystr res option" where
  "mcp_handler session tool user_id args timeout = mcp_call session tool args timeout"

definition empty_schema :: payload where
  "empty_schema = [(py ''type'', JStr (py ''object'')), (py ''properties'', JObj [])]"

definition mcp_tool :: "pystr \<Rightarrow> 'x mcp_session \<Rightarrow> mcp_tool_spec \<Rightarrow> 'x tool" where
  "mcp_tool server session spec = \<lparr>t_definition = \<lparr>td_name = namespaced server (spec_name spec),
       td_description = spec_description spec,
       td_parameters = (if spec_input_schema spec = [] then empty_schema else spec_input_schema spec)\<rparr>,
     t_handler = mcp_handler session (spec_name spec)\<rparr>"

definition mcp_discover :: "pystr \<Rightarrow> 'x mcp_session \<Rightarrow> ('x, 'x tool list) wio" where
  "mcp_discover server session = seq (se_list_tools session) (\<lambda>specs. ret (map (mcp_tool server session) specs))"

section \<open>The manager\<close>

record 'x mcp_client =
  cl_name :: pystr
  cl_auto_allow :: bool
  cl_connect :: "('x, unit) wio"
  cl_discover :: "('x, 'x tool list) wio"
  cl_aclose :: "('x, unit) wio"

definition connect_and_discover :: "'x mcp_client \<Rightarrow> ('x, 'x tool list) wio" where
  "connect_and_discover client = seq (cl_connect client) (\<lambda>_. cl_discover client)"

text \<open>\<open>start\<close>: the tools and the auto-allowed names, and the clients that stay connected.\<close>

fun mcp_start :: "'x mcp_client list \<Rightarrow> ('x, 'x tool list \<times> pystr set \<times> 'x mcp_client list) wio" where
  "mcp_start [] w = (w, Inr ([], {}, []))"
| "mcp_start (client # clients) w =
     (case connect_and_discover client w of
        (w1, Inl e) \<Rightarrow>
          if is_control_flow e then (w1, Inl e)
          else seq (suppress_exception (cl_aclose client)) (\<lambda>_. mcp_start clients) w1
      | (w1, Inr discovered) \<Rightarrow>
          seq (mcp_start clients) (\<lambda>(tools, auto_allowed, alive).
            ret (discovered @ tools,
                 (if cl_auto_allow client then tool_name ` set discovered else {}) \<union> auto_allowed,
                 client # alive)) w1)"

definition mcp_aclose :: "'x mcp_client list \<Rightarrow> ('x, unit) wio" where
  "mcp_aclose clients = for_each clients (\<lambda>client. suppress_exception (cl_aclose client))"

section \<open>Namespacing\<close>

lemma namespaced_name: "tool_name (mcp_tool server session spec) = namespaced server (spec_name spec)"
  by (simp add: tool_name_def mcp_tool_def)

lemma namespaced_same_server [simp]: "namespaced s t = namespaced s t' \<longleftrightarrow> t = t'"
  by (simp add: namespaced_def)

text \<open>Server names for which the namespacing is unambiguous: no separator inside, no underscore at the end.\<close>

definition plain_server :: "pystr \<Rightarrow> bool" where
  "plain_server s \<longleftrightarrow> \<not> sublist NAMESPACE_SEP s \<and> (s = [] \<or> last s \<noteq> 95)"

lemma namespaced_prefix:
  assumes "namespaced s t = namespaced s' t'" and "plain_server s'" and "s' = s @ u"
  shows "u = []"
proof (rule ccontr)
  assume "u \<noteq> []"
  have "95 # 95 # t = u @ 95 # 95 # t'"
    using assms(1,3) by (simp add: namespaced_def NAMESPACE_SEP_def py_def)
  with \<open>u \<noteq> []\<close> consider "u = [95]" | v where "u = 95 # 95 # v"
    by (cases u; cases "tl u") auto
  then show False
  proof cases
    case 1
    with assms(2,3) show False by (simp add: plain_server_def)
  next
    case 2
    then have "s' = s @ NAMESPACE_SEP @ v"
      using assms(3) by (simp add: NAMESPACE_SEP_def py_def)
    with assms(2) show False
      unfolding plain_server_def sublist_def by blast
  qed
qed

lemma namespaced_inject:
  assumes "plain_server s" and "plain_server s'"
  shows "namespaced s t = namespaced s' t' \<longleftrightarrow> s = s' \<and> t = t'"
proof
  assume eq: "namespaced s t = namespaced s' t'"
  then obtain u where "s = s' @ u \<or> s' = s @ u"
    unfolding namespaced_def append_eq_append_conv2 by auto
  then have "s = s'"
  proof
    assume "s = s' @ u"
    with namespaced_prefix [OF eq [symmetric] assms(1)] show ?thesis by simp
  next
    assume "s' = s @ u"
    with namespaced_prefix [OF eq assms(2)] show ?thesis by simp
  qed
  with eq show "s = s' \<and> t = t'" by simp
qed simp

section \<open>Starting is best effort\<close>

text \<open>What \<open>start\<close> asks of the clients: they let no cancellation escape.\<close>

definition client_total :: "'x mcp_client \<Rightarrow> bool" where
  "client_total c \<longleftrightarrow> (\<forall>w e. snd (cl_connect c w) = Inl e \<longrightarrow> \<not> is_control_flow e)
     \<and> (\<forall>w e. snd (cl_discover c w) = Inl e \<longrightarrow> \<not> is_control_flow e)
     \<and> (\<forall>w e. snd (cl_aclose c w) = Inl e \<longrightarrow> \<not> is_control_flow e)"

lemma connect_and_discover_total:
  assumes "client_total c" and "connect_and_discover c w = (w', Inl e)"
  shows "\<not> is_control_flow e"
  using assms(2) unfolding connect_and_discover_def
proof (cases rule: seq_cases)
  case (raised e')
  then have "snd (cl_connect c w) = Inl e" by simp
  with assms(1) show ?thesis unfolding client_total_def by blast
next
  case (continued x w1)
  then have "snd (cl_discover c w1) = Inl e" by simp
  with assms(1) show ?thesis unfolding client_total_def by blast
qed

lemma suppress_total:
  assumes "\<And>w e. snd (m w) = Inl e \<Longrightarrow> \<not> is_control_flow e"
  shows "\<exists>w'. suppress_exception m w = (w', Inr ())"
proof -
  obtain w' r where m: "m w = (w', r)" by fastforce
  with assms [of w] show ?thesis
    by (cases r) (auto simp: suppress_exception_def except_exception_def ret_def)
qed

lemma mcp_start_total:
  assumes "\<forall>c \<in> set clients. client_total c"
  shows "\<exists>w' tools auto alive. mcp_start clients w = (w', Inr (tools, auto, alive))
    \<and> set alive \<subseteq> set clients
    \<and> auto \<subseteq> tool_name ` set tools \<and> ((\<forall>c \<in> set clients. \<not> cl_auto_allow c) \<longrightarrow> auto = {})"
  using assms
proof (induction clients arbitrary: w)
  case (Cons c clients)
  then have IH: "\<And>w. \<exists>w' tools auto alive. mcp_start clients w = (w', Inr (tools, auto, alive))
      \<and> set alive \<subseteq> set clients \<and> auto \<subseteq> tool_name ` set tools \<and> ((\<forall>c \<in> set clients. \<not> cl_auto_allow c) \<longrightarrow> auto = {})"
    and c: "client_total c" by auto
  obtain w1 r where r: "connect_and_discover c w = (w1, r)" by fastforce
  show ?case
  proof (cases r)
    case (Inl e)
    with r c have e: "\<not> is_control_flow e" using connect_and_discover_total by blast
    obtain w2 where "suppress_exception (cl_aclose c) w1 = (w2, Inr ())"
      using suppress_total [of "cl_aclose c" w1] c by (auto simp: client_total_def)
    with Inl r e IH [of w2] show ?thesis by (auto simp: seq_Inr)
  next
    case (Inr discovered)
    from IH [of w1] obtain w' tools auto alive where "mcp_start clients w1 = (w', Inr (tools, auto, alive))"
      and "set alive \<subseteq> set clients" and "auto \<subseteq> tool_name ` set tools"
      and "(\<forall>c \<in> set clients. \<not> cl_auto_allow c) \<longrightarrow> auto = {}"
      by blast
    with r Inr show ?thesis
      by (simp add: seq_Inr ret_apply image_Un) blast
  qed
qed simp

text \<open>
  Names without a double underscore inside and an underscore at the end never clash, while two servers of other names can
  offer tools of the same name, of which the registry keeps the one registered last.
\<close>

lemma mcp_namespacing:
  "(plain_server s \<and> plain_server s' \<longrightarrow> (namespaced s t = namespaced s' t' \<longleftrightarrow> s = s' \<and> t = t'))
    \<and> namespaced (py ''a_'') (py ''b'') = namespaced (py ''a'') (py ''_b'')"
  using namespaced_inject by (auto simp: namespaced_def NAMESPACE_SEP_def py_def)

end
