(* ===== verification/Service.thy ===== *)
theory Service
  imports Conversation_End MCP
begin

text \<open>
  \<open>service.py\<close>, \<open>stores/factory.py\<close> and the transport logic of \<open>serving/app.py\<close>: how the parts are put
  together, the per-conversation model, and what the two transports do with approvals. The clients of
  llm_kit, the file system and the other external functions are the record \<open>externals\<close>.
\<close>

section \<open>Store factory\<close>

datatype session_impl = MemorySessions session_store | RedisSessions pystr "int option"
datatype profile_impl = MemoryProfiles profile_store | SqliteProfiles pystr
datatype vector_impl = MemoryVectors vector_store | QdrantVectors qdrant_config
datatype permission_impl = MemoryPermissions perm_store | SqlitePermissions pystr "pystr list"

record stores =
  sr_session :: session_impl
  sr_profile :: profile_impl
  sr_vectors :: vector_impl
  sr_permissions :: permission_impl
  sr_skills :: skill_store

definition backend_name :: "store_backend \<Rightarrow> pystr" where
  "backend_name b = (case b of MEMORY \<Rightarrow> py ''memory'' | REDIS \<Rightarrow> py ''redis'' | SQLITE \<Rightarrow> py ''sqlite'' | QDRANT \<Rightarrow> py ''qdrant'')"

definition build_session :: "'app harness_kit_config \<Rightarrow> session_impl res" where
  "build_session cfg = (case sc_session_backend (hk_stores cfg) of
       MEMORY \<Rightarrow> Inr (MemorySessions (ss_init (Some (wc_ttl_s (mc_working (hk_memory cfg))))))
     | REDIS \<Rightarrow> Inr (RedisSessions (sc_redis_url (hk_stores cfg)) (Some (wc_ttl_s (mc_working (hk_memory cfg)))))
     | b \<Rightarrow> Inl (ValueError (py ''unsupported session backend: '' @ backend_name b)))"

definition build_profile :: "'app harness_kit_config \<Rightarrow> profile_impl res" where
  "build_profile cfg = (case sc_profile_backend (hk_stores cfg) of
       MEMORY \<Rightarrow> Inr (MemoryProfiles Map.empty)
     | SQLITE \<Rightarrow> Inr (SqliteProfiles (sc_sqlite_url (hk_stores cfg)))
     | b \<Rightarrow> Inl (ValueError (py ''unsupported profile backend: '' @ backend_name b)))"

definition build_vectors :: "'app harness_kit_config \<Rightarrow> vector_impl res" where
  "build_vectors cfg = (case sc_vector_backend (hk_stores cfg) of
       MEMORY \<Rightarrow> Inr (MemoryVectors [])
     | QDRANT \<Rightarrow> Inr (QdrantVectors (sc_qdrant (hk_stores cfg)))
     | b \<Rightarrow> Inl (ValueError (py ''unsupported vector backend: '' @ backend_name b)))"

definition build_permissions :: "'app harness_kit_config \<Rightarrow> pystr list \<Rightarrow> permission_impl res" where
  "build_permissions cfg extra_default_allowed =
     (let default = tc_default_allowed (hk_tools cfg) @ extra_default_allowed
      in case sc_permission_backend (hk_stores cfg) of
           MEMORY \<Rightarrow> Inr (MemoryPermissions (pm_init default))
         | SQLITE \<Rightarrow> Inr (SqlitePermissions (sc_sqlite_url (hk_stores cfg)) default)
         | b \<Rightarrow> Inl (ValueError (py ''unsupported permission backend: '' @ backend_name b)))"

definition build_stores :: "'app harness_kit_config \<Rightarrow> pystr list \<Rightarrow> stores res" where
  "build_stores cfg extra_default_allowed =
     (case build_session cfg of Inl e \<Rightarrow> Inl e | Inr session \<Rightarrow>
      case build_profile cfg of Inl e \<Rightarrow> Inl e | Inr profile \<Rightarrow>
      case build_vectors cfg of Inl e \<Rightarrow> Inl e | Inr vectors \<Rightarrow>
      case build_permissions cfg extra_default_allowed of Inl e \<Rightarrow> Inl e | Inr permissions \<Rightarrow>
        Inr \<lparr>sr_session = session, sr_profile = profile, sr_vectors = vectors, sr_permissions = permissions,
             sr_skills = sk_init\<rparr>)"

section \<open>The service\<close>

record 'x externals =
  xt_stream :: "'x stream_llm"
  xt_factory :: "(pystr \<Rightarrow> 'x stream_llm) option"
  xt_summary :: "message list \<Rightarrow> ('x, pystr option) wio"
  xt_facts :: "message list \<Rightarrow> ('x, (pystr \<times> pystr) list option) wio"
  xt_query :: "message list \<Rightarrow> ('x, pystr option) wio"
  xt_moments :: "message list \<Rightarrow> ('x, pystr list option) wio"
  xt_embed_one :: "pystr \<Rightarrow> ('x, real list) wio"
  xt_numpy :: numpy
  xt_rnd :: "nat \<Rightarrow> real"
  xt_float_str :: "real \<Rightarrow> pystr"
  xt_score_str :: "real \<Rightarrow> pystr"
  xt_filesystem :: filesystem
  xt_yaml :: yaml_loader
  xt_system_prompt_fn :: "(pystr \<Rightarrow> pystr \<Rightarrow> ('x, pystr) wio) option"

definition retry_policy_of :: "store_retry_config \<Rightarrow> retry_policy" where
  "retry_policy_of c = \<lparr>max_retries = sr_max_retries c, backoff_base_seconds = sr_backoff_base_seconds c,
     backoff_max_seconds = sr_backoff_max_seconds c, jitter_seconds = sr_jitter_seconds c\<rparr>"

text \<open>The tools seeded in the default allowlist, and the manager of the discovered skills.\<close>

definition build_skill_manager :: "'app harness_kit_config \<Rightarrow> 'x externals \<Rightarrow> skill_index option res" where
  "build_skill_manager cfg ext =
     (if hk_skills_paths cfg = [] then Inr None
      else case discover_skills (xt_float_str ext) (xt_filesystem ext) (xt_yaml ext) (map (\<lambda>p. [p]) (hk_skills_paths cfg)) of
          Inl e \<Rightarrow> Inl e
        | Inr metas \<Rightarrow> Inr (Some (skill_manager_init metas)))"

definition extra_default_tools :: "'app harness_kit_config \<Rightarrow> skill_index option \<Rightarrow> pystr list" where
  "extra_default_tools cfg skills =
     (if ec_enabled (mc_episodic (hk_memory cfg)) then [py ''forget_memory''] else [])
     @ (case skills of None \<Rightarrow> [] | Some idx \<Rightarrow> if skills_list_all idx \<noteq> [] then [py ''read_skill''] else [])"

definition build_episodic :: "'app harness_kit_config \<Rightarrow> 'x externals \<Rightarrow> 'x episodic_memory option" where
  "build_episodic cfg ext =
     (if ec_enabled (mc_episodic (hk_memory cfg))
      then Some \<lparr>em_cfg = mc_episodic (hk_memory cfg), em_numpy = xt_numpy ext, em_embed_one = xt_embed_one ext,
             em_llm_query = Some (xt_query ext), em_llm_moments = Some (xt_moments ext),
             em_store_retry = retry_policy_of (mc_store_retry (hk_memory cfg)), em_rnd = xt_rnd ext\<rparr>
      else None)"

definition service_tools :: "'app harness_kit_config \<Rightarrow> 'x externals \<Rightarrow> skill_index option \<Rightarrow> 'x tool list \<Rightarrow> 'x tool list" where
  "service_tools cfg ext skills extra_tools =
     [remember_fact_tool (xt_float_str ext) (ec_enabled (mc_episodic (hk_memory cfg))),
      forget_fact_tool (xt_float_str ext), list_facts_tool (xt_float_str ext)]
     @ (case build_episodic cfg ext of
          None \<Rightarrow> []
        | Some episodic \<Rightarrow> [recall_tool (xt_float_str ext) (xt_score_str ext) episodic, forget_memory_tool (xt_float_str ext) episodic])
     @ (case skills of
          None \<Rightarrow> []
        | Some idx \<Rightarrow> if skills_list_all idx \<noteq> []
            then [read_skill_tool (xt_float_str ext) (xt_filesystem ext) (xt_yaml ext) idx] else [])
     @ extra_tools"

definition build_registry :: "'app harness_kit_config \<Rightarrow> 'x externals \<Rightarrow> skill_index option \<Rightarrow> 'x tool list \<Rightarrow> 'x registry" where
  "build_registry cfg ext skills extra_tools =
     reg_init (service_tools cfg ext skills extra_tools) (ac_per_tool_timeout_s (hk_agent cfg))
       (tc_definitions (hk_tools cfg)) (xt_float_str ext)"

definition build_agent :: "'app harness_kit_config \<Rightarrow> 'x externals \<Rightarrow> skill_index option \<Rightarrow> 'x registry \<Rightarrow> 'x agent" where
  "build_agent cfg ext skills registry =
     (let store_retry = retry_policy_of (mc_store_retry (hk_memory cfg));
          builder = \<lparr>cb_agent_cfg = hk_agent cfg, cb_episodic = build_episodic cfg ext, cb_registry = registry,
             cb_context_cfg = hk_context cfg, cb_estimate = estimate_tokens,
             cb_system_prompt_fn = xt_system_prompt_fn ext, cb_skills = skills, cb_float_str = xt_float_str ext\<rparr>
      in \<lparr>ag_llm = xt_stream ext, ag_llm_factory = xt_factory ext, ag_builder = builder,
          ag_working = \<lparr>wm_cfg = mc_working (hk_memory cfg), wm_llm = Some (xt_summary ext), wm_estimate = estimate_tokens,
             wm_store_retry = store_retry, wm_rnd = xt_rnd ext\<rparr>,
          ag_episodic = build_episodic cfg ext,
          ag_factual = \<lparr>fm_cfg = mc_factual (hk_memory cfg), fm_llm = Some (xt_facts ext),
             fm_store_retry = store_retry, fm_rnd = xt_rnd ext\<rparr>,
          ag_cfg = hk_agent cfg\<rparr>)"

definition build_service :: "'app harness_kit_config \<Rightarrow> 'x externals \<Rightarrow> 'x tool list \<Rightarrow> (stores \<times> 'x agent) res" where
  "build_service cfg ext extra_tools =
     (case build_skill_manager cfg ext of
        Inl e \<Rightarrow> Inl e
      | Inr skills \<Rightarrow>
          (case build_stores cfg (extra_default_tools cfg skills) of
             Inl e \<Rightarrow> Inl e
           | Inr sts \<Rightarrow> Inr (sts, build_agent cfg ext skills (build_registry cfg ext skills extra_tools))))"

text \<open>\<open>_make_llm\<close>: one client per model name, kept in a bounded cache.\<close>

definition make_llm :: "(pystr \<Rightarrow> 'c) \<Rightarrow> pystr \<Rightarrow> (pystr, 'c) lru \<Rightarrow> 'c \<times> (pystr, 'c) lru" where
  "make_llm new_client model cache =
     (case lru_get cache model of
        (Some client, cache) \<Rightarrow> (client, cache)
      | (None, cache) \<Rightarrow> (new_client model, lru_set cache model (new_client model)))"

definition set_conversation_model :: "'x agent \<Rightarrow> pystr \<Rightarrow> pystr \<Rightarrow> pystr option \<Rightarrow> ('x, unit) wio" where
  "set_conversation_model ag conversation_id user_id model =
     (case ag_llm_factory ag of
        None \<Rightarrow> throw (ValueError (py ''set_conversation_model requires the service to manage its own LLM '' @
           py ''client (not available when LLM was externally injected)''))
      | Some _ \<Rightarrow> seq (session_load conversation_id user_id) (\<lambda>state w.
          (let state = (case state of None \<Rightarrow> new_session user_id (w_now w) | Some st \<Rightarrow> st)
           in session_save conversation_id (state\<lparr>model_name := model\<rparr>) w)))"

fun register_all :: "'x registry \<Rightarrow> 'x tool list \<Rightarrow> 'x registry" where
  "register_all rg [] = rg"
| "register_all rg (t # ts) = register_all (reg_register rg t) ts"

definition astart :: "'x registry \<Rightarrow> 'x mcp_client list \<Rightarrow> ('x, 'x registry \<times> 'x mcp_client list) wio" where
  "astart rg clients =
     seq (mcp_start clients) (\<lambda>(tools, auto_allowed, alive).
       seq (if auto_allowed \<noteq> {} then permissions_extend auto_allowed else ret ())
         (\<lambda>_. ret (register_all rg tools, alive)))"

section \<open>Transports\<close>

text \<open>
  What a WebSocket message makes the receiver do; a missing key ends the connection with \<open>KeyError\<close>. The ids a client
  sends are strings: another value under their keys, which the code would carry on, is refused here.
\<close>

datatype ws_action =
    WsResolve pystr bool
  | WsSetModel pystr "pystr option"
  | WsTurn pystr payload

definition payload_str :: "payload \<Rightarrow> pystr \<Rightarrow> pystr res" where
  "payload_str p k = (case map_of p k of
      None \<Rightarrow> Inl (KeyError k) | Some (JStr s) \<Rightarrow> Inr s | Some _ \<Rightarrow> Inl (TypeError k))"

definition ws_receive :: "payload \<Rightarrow> ws_action res" where
  "ws_receive p =
     (if map_of p (py ''type'') = Some (JStr (py ''approval''))
      then (case payload_str p (py ''call_id'') of
              Inl e \<Rightarrow> Inl e
            | Inr call_id \<Rightarrow> Inr (WsResolve call_id (case map_of p (py ''approved'') of None \<Rightarrow> False | Some v \<Rightarrow> json_truthy v)))
      else if map_of p (py ''type'') = Some (JStr (py ''set_model''))
      then (case payload_str p (py ''user_id'') of
              Inl e \<Rightarrow> Inl e
            | Inr u \<Rightarrow> Inr (WsSetModel u (case map_of p (py ''model'') of Some (JStr m) \<Rightarrow> Some m | _ \<Rightarrow> None)))
      else (case payload_str p (py ''user_id'') of Inl e \<Rightarrow> Inl e | Inr u \<Rightarrow> Inr (WsTurn u p)))"

text \<open>The frame for an exception that a turn raised.\<close>

definition error_frame :: "exn \<Rightarrow> payload" where
  "error_frame e = [(py ''type'', JStr (py ''error'')),
     (py ''error'', JStr (case e of UnauthorizedError m \<Rightarrow> m | _ \<Rightarrow> py ''unexpected error: '' @ exn_name e))]"

text \<open>SSE: every event is a frame, and an approval request is denied when it is sent.\<close>

definition sse_label :: "pystr \<Rightarrow> agent_event \<Rightarrow> 'x label list" where
  "sse_label conversation_id event = (case event of
       ToolApprovalRequired call_id name args timeout \<Rightarrow> [Resolve call_id False conversation_id]
     | _ \<Rightarrow> [])"

definition sse_frames :: "'x turn_result \<Rightarrow> payload list" where
  "sse_frames r = map encode_event (tr_events r) @
     (case tr_raised r of
        None \<Rightarrow> []
      | Some e \<Rightarrow>
          if is_control_flow e then []
          else [error_frame e])"

text \<open>One round of \<open>_idle_sweep_loop\<close>, after its sleep.\<close>

definition sweep_round :: "'x agent \<Rightarrow> working_memory_config \<Rightarrow> 'x world_scheme \<Rightarrow> 'x world_scheme" where
  "sweep_round ag cfg w = fst (suppress_exception (sweep_idle ag (of_int (wc_idle_finalize_s cfg))) w)"

section \<open>Lemmas\<close>

lemma make_llm_get_or_make: "make_llm new_client m c = lru.get_or_make (new_client m) c m"
  by (auto simp: make_llm_def lru.get_or_make_def split: prod.splits option.splits)

lemma register_all_ok: "registry_ok rg \<Longrightarrow> registry_ok (register_all rg ts)"
  by (induction rg ts rule: register_all.induct) (auto intro: registry_ok_register)

lemma set_model_own:
  assumes "ag_llm_factory ag = Some f" and "ss_live (w_sessions w) (w_now w) c = Some st" and "st_user_id st = u"
  shows "set_conversation_model ag c u model w =
    (w\<lparr>w_sessions := ss_save (w_sessions w) c (st\<lparr>model_name := model\<rparr>) (w_now w)\<rparr>, Inr ())"
  using assms by (simp add: set_conversation_model_def session_load_own seq_Inr session_save_def)

lemma set_model_other:
  assumes "ag_llm_factory ag = Some f" and "ss_live (w_sessions w) (w_now w) c = Some st" and "st_user_id st \<noteq> u"
  shows "set_conversation_model ag c u model w = (w, Inl (unauthorized c u))"
  using assms by (simp add: set_conversation_model_def session_load_other seq_Inl)

lemma foreign_conversation_untouched:
  assumes "ss_live (w_sessions w) (w_now w) c = Some st" and "st_user_id st \<noteq> u" and "ag_llm_factory ag = Some factory"
  shows "end_conversation ag u c w = (w, Inr ()) \<and> set_conversation_model ag c u model w = (w, Inl (unauthorized c u))"
  using end_conversation_other [OF assms(1,2)] set_model_other [OF assms(3,1,2)] by simp

end
