(* ===== verification/Websocket.thy ===== *)
theory Websocket
  imports Service
begin

text \<open>
  The WebSocket connection of \<open>serving/app.py\<close>: the two tasks \<open>_receive\<close> and \<open>_run_turns\<close> with the queue
  between them, and the end of the conversation when their \<open>gather\<close> ends. A step is one task's progress to its
  next await; a run is any interleaving. The events of a turn, the answers of the service and whether a frame could be
  sent are chosen by the environment.
\<close>

section \<open>The connection\<close>

datatype receiver = ReceiverActive | ReceiverDone | ReceiverFailed exn

text \<open>A turn has frames left to send and ends with an exception or not; then an error frame may be left to send.\<close>

datatype runner =
    RunnerIdle
  | RunnerSending "payload list" "exn option"
  | RunnerReporting payload
  | RunnerDone
  | RunnerFailed exn

text \<open>What the connection makes the service do.\<close>

datatype ws_effect =
    ResolveApproval pystr bool
  | SetModel pystr "pystr option"
  | EndConversation pystr

text \<open>
  \<open>None\<close> in the queue is the sentinel. The turns received and started, and \<open>wsc_broken\<close>, whether a frame of a
  turn could not be sent, are there for the statements.
\<close>

record ws_conn =
  wsc_queue :: "payload option list"
  wsc_last_user :: "pystr option"
  wsc_receiver :: receiver
  wsc_runner :: runner
  wsc_sent :: "payload list"
  wsc_effects :: "ws_effect list"
  wsc_closed :: bool
  wsc_received :: "(pystr \<times> payload) list"
  wsc_started :: "payload list"
  wsc_broken :: bool

definition ws_init :: ws_conn where
  "ws_init = \<lparr>wsc_queue = [], wsc_last_user = None, wsc_receiver = ReceiverActive, wsc_runner = RunnerIdle, wsc_sent = [],
     wsc_effects = [], wsc_closed = False, wsc_received = [], wsc_started = [], wsc_broken = False\<rparr>"

text \<open>
  The steps: a text frame with what \<open>json.loads\<close> makes of it, and the outcome of \<open>set_conversation_model\<close> should
  it be one; the disconnect; the runner's \<open>get\<close>, with the events and the end of the turn should there be one; a
  send, which may find the client gone (\<open>WebSocketDisconnect\<close>) or raise something else; the end of a turn; the cancellation of the handler; the end of \<open>gather\<close>.
\<close>

datatype send_outcome = Sent | Disconnected | SendRaised exn

datatype ws_label =
    WsText "json res" "unit res"
  | WsDisconnect
  | WsTake "agent_event list" "exn option"
  | WsSend send_outcome
  | WsTurnOver
  | WsCancel
  | WsClose

definition ws_dispatch :: "payload \<Rightarrow> unit res \<Rightarrow> ws_conn \<Rightarrow> ws_conn" where
  "ws_dispatch p answer c =
     (case ws_receive p of
        Inl e \<Rightarrow> c\<lparr>wsc_receiver := ReceiverFailed e\<rparr>
      | Inr (WsResolve call_id approved) \<Rightarrow> c\<lparr>wsc_effects := wsc_effects c @ [ResolveApproval call_id approved]\<rparr>
      | Inr (WsSetModel user_id model) \<Rightarrow>
          (case answer of
             Inl e \<Rightarrow> c\<lparr>wsc_effects := wsc_effects c @ [SetModel user_id model], wsc_receiver := ReceiverFailed e\<rparr>
           | Inr _ \<Rightarrow> c\<lparr>wsc_effects := wsc_effects c @ [SetModel user_id model]\<rparr>)
      | Inr (WsTurn user_id payload) \<Rightarrow>
          c\<lparr>wsc_last_user := Some user_id, wsc_queue := wsc_queue c @ [Some payload], wsc_received := wsc_received c @ [(user_id, payload)]\<rparr>)"

text \<open>\<open>except Exception\<close> reports; what it does not catch ends the task.\<close>

definition turn_over :: "exn option \<Rightarrow> runner" where
  "turn_over raised = (case raised of None \<Rightarrow> RunnerIdle | Some e \<Rightarrow> if is_control_flow e then RunnerFailed e else RunnerReporting (error_frame e))"

definition runner_active :: "runner \<Rightarrow> bool" where
  "runner_active r \<longleftrightarrow> (case r of RunnerDone \<Rightarrow> False | RunnerFailed _ \<Rightarrow> False | _ \<Rightarrow> True)"

text \<open>\<open>gather\<close> ends when both tasks are done or one of them has failed; the other one goes on then.\<close>

definition gather_ended :: "ws_conn \<Rightarrow> bool" where
  "gather_ended c \<longleftrightarrow> (wsc_receiver c = ReceiverDone \<and> wsc_runner c = RunnerDone)
     \<or> (\<exists>e. wsc_receiver c = ReceiverFailed e) \<or> (\<exists>e. wsc_runner c = RunnerFailed e)"

lemma gather_ended_code [code]:
  "gather_ended c = ((case wsc_receiver c of ReceiverFailed _ \<Rightarrow> True | ReceiverDone \<Rightarrow> wsc_runner c = RunnerDone | _ \<Rightarrow> False)
     \<or> (case wsc_runner c of RunnerFailed _ \<Rightarrow> True | _ \<Rightarrow> False))"
  by (auto simp: gather_ended_def split: receiver.splits runner.splits)

fun ws_step :: "ws_label \<Rightarrow> ws_conn \<Rightarrow> ws_conn option" where
  "ws_step (WsText frame answer) c =
     (if wsc_receiver c \<noteq> ReceiverActive then None
      else Some (case frame of
          Inl e \<Rightarrow> c\<lparr>wsc_receiver := ReceiverFailed e\<rparr>
        | Inr (JObj p) \<Rightarrow> ws_dispatch p answer c
        | Inr _ \<Rightarrow> c\<lparr>wsc_receiver := ReceiverFailed (BackendError (py ''no attribute get''))\<rparr>))"
| "ws_step WsDisconnect c =
     (if wsc_receiver c \<noteq> ReceiverActive then None
      else Some (c\<lparr>wsc_queue := wsc_queue c @ [None], wsc_receiver := ReceiverDone\<rparr>))"
| "ws_step (WsTake events raised) c =
     (if wsc_runner c \<noteq> RunnerIdle then None
      else case wsc_queue c of
          [] \<Rightarrow> None
        | None # q \<Rightarrow> Some (c\<lparr>wsc_queue := q, wsc_runner := RunnerDone\<rparr>)
        | Some p # q \<Rightarrow> Some (c\<lparr>wsc_queue := q, wsc_started := wsc_started c @ [p],
            wsc_runner := (if map_of p (py ''message'') = None then RunnerSending [] (Some (KeyError (py ''message'')))
              else RunnerSending (map encode_event events) raised)\<rparr>))"
| "ws_step (WsSend outcome) c =
     (case wsc_runner c of
        RunnerSending (f # fs) raised \<Rightarrow>
          Some (case outcome of
              Sent \<Rightarrow> c\<lparr>wsc_sent := wsc_sent c @ [f], wsc_runner := RunnerSending fs raised\<rparr>
            | Disconnected \<Rightarrow> c\<lparr>wsc_runner := RunnerDone, wsc_broken := True\<rparr>
            | SendRaised e \<Rightarrow> c\<lparr>wsc_runner := turn_over (Some e), wsc_broken := True\<rparr>)
      | RunnerReporting f \<Rightarrow>
          Some (case outcome of
              Sent \<Rightarrow> c\<lparr>wsc_sent := wsc_sent c @ [f], wsc_runner := RunnerIdle\<rparr>
            | Disconnected \<Rightarrow> c\<lparr>wsc_runner := RunnerIdle\<rparr>
            | SendRaised e \<Rightarrow> c\<lparr>wsc_runner := (if is_control_flow e then RunnerFailed e else RunnerIdle)\<rparr>)
      | _ \<Rightarrow> None)"
| "ws_step WsTurnOver c =
     (case wsc_runner c of RunnerSending [] raised \<Rightarrow> Some (c\<lparr>wsc_runner := turn_over raised\<rparr>) | _ \<Rightarrow> None)"
| "ws_step WsCancel c =
     (if wsc_closed c then None
      else Some (c\<lparr>wsc_receiver := (if wsc_receiver c = ReceiverActive then ReceiverFailed CancelledError else wsc_receiver c),
             wsc_runner := (if runner_active (wsc_runner c) then RunnerFailed CancelledError else wsc_runner c)\<rparr>))"
| "ws_step WsClose c =
     (if wsc_closed c \<or> \<not> gather_ended c then None
      else Some (c\<lparr>wsc_closed := True,
             wsc_effects := wsc_effects c @ (case wsc_last_user c of None \<Rightarrow> [] | Some u \<Rightarrow> [EndConversation u])\<rparr>))"

fun ws_run :: "ws_label list \<Rightarrow> ws_conn \<Rightarrow> ws_conn option" where
  "ws_run [] c = Some c"
| "ws_run (l # ls) c = (case ws_step l c of None \<Rightarrow> None | Some c' \<Rightarrow> ws_run ls c')"

lemma ws_run_append: "ws_run (ls @ ls') c = (case ws_run ls c of None \<Rightarrow> None | Some c' \<Rightarrow> ws_run ls' c')"
  by (induction ls arbitrary: c) (auto split: option.splits)

section \<open>Invariants\<close>

definition ws_pending :: "ws_conn \<Rightarrow> payload list" where
  "ws_pending c = concat (map (\<lambda>x. case x of None \<Rightarrow> [] | Some p \<Rightarrow> [p]) (wsc_queue c))"

fun ended_user :: "ws_effect \<Rightarrow> pystr list" where
  "ended_user (EndConversation u) = [u]"
| "ended_user _ = []"

definition ws_ended :: "ws_conn \<Rightarrow> pystr list" where
  "ws_ended c = concat (map ended_user (wsc_effects c))"

text \<open>
  The turns are started in the order they were received, none is lost; the sentinel comes after them, once the receiver
  is done; the conversation ends with the connection, for the user of the last turn received.
\<close>

definition ws_inv :: "ws_conn \<Rightarrow> bool" where
  "ws_inv c \<longleftrightarrow> map snd (wsc_received c) = wsc_started c @ ws_pending c
     \<and> ((None \<notin> set (wsc_queue c) \<and> (wsc_receiver c = ReceiverDone \<longrightarrow> \<not> runner_active (wsc_runner c)))
        \<or> (\<exists>q. wsc_queue c = q @ [None] \<and> None \<notin> set q \<and> wsc_receiver c = ReceiverDone))
     \<and> (wsc_runner c = RunnerDone \<and> \<not> wsc_broken c \<longrightarrow> wsc_queue c = [] \<and> wsc_receiver c = ReceiverDone)
     \<and> wsc_last_user c = (if wsc_received c = [] then None else Some (fst (last (wsc_received c))))
     \<and> (ws_ended c = [] \<or> (wsc_closed c \<and> (\<exists>r \<in> set (wsc_received c). ws_ended c = [fst r])))"

lemma ws_pending_simps [simp]:
  "wsc_queue c = [] \<Longrightarrow> ws_pending c = []"
  "ws_pending (c\<lparr>wsc_queue := q @ [Some p]\<rparr>) = ws_pending (c\<lparr>wsc_queue := q\<rparr>) @ [p]"
  "ws_pending (c\<lparr>wsc_queue := q @ [None]\<rparr>) = ws_pending (c\<lparr>wsc_queue := q\<rparr>)"
  by (simp_all add: ws_pending_def)

lemma ws_inv_init: "ws_inv ws_init"
  by (simp add: ws_inv_def ws_init_def ws_pending_def ws_ended_def)

lemma ws_inv_failed: "ws_inv c \<Longrightarrow> wsc_receiver c = ReceiverActive \<Longrightarrow> ws_inv (c\<lparr>wsc_receiver := ReceiverFailed e\<rparr>)"
  by (auto simp: ws_inv_def ws_pending_def ws_ended_def)

lemma ws_inv_effect:
  "ws_inv c \<Longrightarrow> ended_user x = [] \<Longrightarrow> ws_inv (c\<lparr>wsc_effects := wsc_effects c @ [x]\<rparr>)"
  by (simp add: ws_inv_def ws_pending_def ws_ended_def del: concat_eq_Nil_conv)

lemma ws_inv_turn:
  "ws_inv c \<Longrightarrow> wsc_receiver c = ReceiverActive \<Longrightarrow>
     ws_inv (c\<lparr>wsc_last_user := Some u, wsc_queue := wsc_queue c @ [Some p], wsc_received := wsc_received c @ [(u, p)]\<rparr>)"
  by (auto simp: ws_inv_def ws_pending_def ws_ended_def simp del: concat_eq_Nil_conv)

lemma ws_inv_dispatch:
  assumes "ws_inv c" and "wsc_receiver c = ReceiverActive"
  shows "ws_inv (ws_dispatch p answer c)"
proof -
  have e: "ws_inv (c\<lparr>wsc_effects := wsc_effects c @ [SetModel u m]\<rparr>)" for u m
    by (rule ws_inv_effect [OF assms(1)]) simp
  from ws_inv_failed [OF e] have "ws_inv (c\<lparr>wsc_effects := wsc_effects c @ [SetModel u m], wsc_receiver := ReceiverFailed x\<rparr>)" for u m x
    using assms(2) by simp
  with e show ?thesis
    unfolding ws_dispatch_def
    by (simp add: ws_inv_failed ws_inv_effect ws_inv_turn assms split: sum.split ws_action.split)
qed

lemma ws_inv_runner:
  assumes "ws_inv c" and "runner_active (wsc_runner c)" 
  shows "r \<noteq> RunnerDone \<Longrightarrow> ws_inv (c\<lparr>wsc_sent := fs, wsc_runner := r\<rparr>)"
    and "ws_inv (c\<lparr>wsc_runner := RunnerDone, wsc_broken := True\<rparr>)"
    and "r \<noteq> RunnerDone \<Longrightarrow> ws_inv (c\<lparr>wsc_runner := r, wsc_sent := fs\<rparr>)"
    and "r \<noteq> RunnerDone \<Longrightarrow> ws_inv (c\<lparr>wsc_runner := r\<rparr>)"
    and "r \<noteq> RunnerDone \<Longrightarrow> ws_inv (c\<lparr>wsc_runner := r, wsc_broken := True\<rparr>)"
  using assms by (simp_all add: ws_inv_def ws_pending_def ws_ended_def del: concat_eq_Nil_conv) blast+

lemma ws_inv_step:
  assumes "ws_inv c" and "ws_step l c = Some c'"
  shows "ws_inv c'"
proof (cases l)
  case (WsText frame answer)
  with assms show ?thesis
    by (auto simp: ws_inv_dispatch ws_inv_failed split: if_splits sum.splits json.splits)
next
  case WsDisconnect
  with assms show ?thesis
    by (auto simp: ws_inv_def ws_pending_def ws_ended_def split: if_splits intro: rev_bexI)
next
  case (WsTake events raised)
  from assms(2) WsTake obtain x q where q: "wsc_runner c = RunnerIdle" "wsc_queue c = x # q"
    by (auto split: if_splits list.splits)
  show ?thesis
  proof (cases x)
    case None
    with assms WsTake q show ?thesis
      by (auto simp: ws_inv_def ws_pending_def ws_ended_def runner_active_def Cons_eq_append_conv intro: rev_bexI)
  next
    case (Some p)
    with assms WsTake q show ?thesis
      by (cases "map_of p (py ''message'')") (auto simp: ws_inv_def ws_pending_def ws_ended_def runner_active_def Cons_eq_append_conv intro: rev_bexI)
  qed
next
  case (WsSend outcome)
  with assms(2) show ?thesis
    by (auto intro!: ws_inv_runner [OF assms(1)] simp: runner_active_def turn_over_def
        split: runner.splits list.splits if_splits send_outcome.splits)
next
  case WsTurnOver
  with assms(2) have "runner_active (wsc_runner c)" "\<exists>raised. c' = c\<lparr>wsc_runner := turn_over raised\<rparr>"
    by (auto simp: runner_active_def split: runner.splits list.splits)
  then show ?thesis
    by (auto intro!: ws_inv_runner(4) [OF assms(1)] simp: turn_over_def split: option.splits)
next
  case WsCancel
  with assms(2) have "c' = c\<lparr>wsc_receiver := (if wsc_receiver c = ReceiverActive then ReceiverFailed CancelledError else wsc_receiver c),
      wsc_runner := (if runner_active (wsc_runner c) then RunnerFailed CancelledError else wsc_runner c)\<rparr>"
    by (auto split: if_splits)
  moreover have "ws_inv (c\<lparr>wsc_receiver := (if wsc_receiver c = ReceiverActive then ReceiverFailed CancelledError else wsc_receiver c)\<rparr>)"
    using ws_inv_failed [OF assms(1)] assms(1) by (cases "wsc_receiver c = ReceiverActive") simp_all
  from ws_inv_runner(4) [OF this, of "RunnerFailed CancelledError"] this
  have "ws_inv (c\<lparr>wsc_receiver := (if wsc_receiver c = ReceiverActive then ReceiverFailed CancelledError else wsc_receiver c),
      wsc_runner := (if runner_active (wsc_runner c) then RunnerFailed CancelledError else wsc_runner c)\<rparr>)"
    by simp
  ultimately show ?thesis by simp
next
  case WsClose
  with assms show ?thesis
    by (auto simp: ws_inv_def ws_pending_def ws_ended_def split: if_splits option.splits)
qed

lemma ws_inv_run: "ws_inv c \<Longrightarrow> ws_run ls c = Some c' \<Longrightarrow> ws_inv c'"
  by (induction ls arbitrary: c) (auto dest: ws_inv_step split: option.splits)

section \<open>Closing\<close>

text \<open>How much the runner still has to do once nothing more is received.\<close>

definition frames_of :: "runner \<Rightarrow> nat" where
  "frames_of r = (case r of RunnerSending fs _ \<Rightarrow> 3 + length fs | RunnerReporting _ \<Rightarrow> 1 | _ \<Rightarrow> 0)"

text \<open>The runner's next step, when the turns it starts are empty.\<close>

definition runner_next :: "ws_conn \<Rightarrow> ws_label" where
  "runner_next c = (case wsc_runner c of RunnerIdle \<Rightarrow> WsTake [] None | RunnerSending [] _ \<Rightarrow> WsTurnOver | _ \<Rightarrow> WsSend Sent)"

lemma runner_step:
  assumes "ws_inv c" and "wsc_receiver c = ReceiverDone" and "runner_active (wsc_runner c)"
  obtains c' where "ws_step (runner_next c) c = Some c'" and "wsc_receiver c' = ReceiverDone"
    and "5 * length (wsc_queue c') + frames_of (wsc_runner c') < 5 * length (wsc_queue c) + frames_of (wsc_runner c)"
    and "wsc_closed c' = wsc_closed c" and "wsc_last_user c' = wsc_last_user c" and "wsc_effects c' = wsc_effects c"
proof -
  have q: "wsc_queue c \<noteq> []" using assms by (auto simp: ws_inv_def)
  have "\<exists>c'. ws_step (runner_next c) c = Some c' \<and> wsc_receiver c' = ReceiverDone
    \<and> 5 * length (wsc_queue c') + frames_of (wsc_runner c') < 5 * length (wsc_queue c) + frames_of (wsc_runner c)
    \<and> wsc_closed c' = wsc_closed c \<and> wsc_last_user c' = wsc_last_user c \<and> wsc_effects c' = wsc_effects c"
  proof (cases "wsc_runner c")
    case RunnerIdle
    with q assms(2) show ?thesis
      by (cases "wsc_queue c") (auto simp: runner_next_def frames_of_def split: option.splits)
  next
    case (RunnerSending fs raised)
    with assms(2) show ?thesis
      by (cases fs) (auto simp: runner_next_def frames_of_def turn_over_def split: option.splits)
  next
    case (RunnerReporting f)
    with assms(2) show ?thesis by (simp add: runner_next_def frames_of_def)
  qed (use assms(3) in \<open>simp_all add: runner_active_def\<close>)
  then show thesis using that by blast
qed

lemma ws_can_close:
  assumes "ws_inv c" and "wsc_receiver c = ReceiverDone" and "\<not> wsc_closed c"
  shows "\<exists>ls c'. ws_run ls c = Some c' \<and> wsc_closed c' \<and> ws_ended c' = (case wsc_last_user c of None \<Rightarrow> [] | Some u \<Rightarrow> [u])"
  using assms
proof (induction "5 * length (wsc_queue c) + frames_of (wsc_runner c)" arbitrary: c rule: less_induct)
  case less
  show ?case
  proof (cases "runner_active (wsc_runner c)")
    case True
    obtain c' where c': "ws_step (runner_next c) c = Some c'" "wsc_receiver c' = ReceiverDone"
      "5 * length (wsc_queue c') + frames_of (wsc_runner c') < 5 * length (wsc_queue c) + frames_of (wsc_runner c)"
      "wsc_closed c' = wsc_closed c" "wsc_last_user c' = wsc_last_user c"
      by (rule runner_step [OF less.prems(1,2) True])
    have "\<exists>ls c''. ws_run ls c' = Some c'' \<and> wsc_closed c'' \<and> ws_ended c'' = (case wsc_last_user c' of None \<Rightarrow> [] | Some u \<Rightarrow> [u])"
      using less.hyps [OF c'(3) ws_inv_step [OF less.prems(1) c'(1)] c'(2)] c'(4) less.prems(3) by simp
    then obtain ls c'' where "ws_run ls c' = Some c''" "wsc_closed c''" "ws_ended c'' = (case wsc_last_user c of None \<Rightarrow> [] | Some u \<Rightarrow> [u])"
      unfolding c'(5) by blast
    with c'(1) show ?thesis
      by (intro exI [of _ "runner_next c # ls"] exI [of _ c'']) simp
  next
    case False
    with less.prems(2) have "gather_ended c"
      by (auto simp: gather_ended_def runner_active_def split: runner.splits)
    moreover have "ws_ended c = []" using less.prems by (auto simp: ws_inv_def)
    ultimately show ?thesis
      using less.prems(3) by (intro exI [of _ "[WsClose]"]) (auto simp: ws_ended_def split: option.split)
  qed
qed

text \<open>
  A message the receiver fails on ends the connection, and the conversation with it, while the turn that is running goes on.
\<close>

lemma ws_turn_outlives_connection:
  assumes "wsc_receiver c = ReceiverActive" and "wsc_runner c = RunnerSending (f # fs) raised" and "\<not> wsc_closed c" and "wsc_last_user c = Some u"
  shows "\<exists>c'. ws_run [WsText (Inl e) answer, WsClose, WsSend Sent] c = Some c' \<and> wsc_closed c'
    \<and> last (wsc_effects c') = EndConversation u \<and> wsc_runner c' = RunnerSending fs raised \<and> wsc_sent c' = wsc_sent c @ [f]"
  using assms by (simp add: gather_ended_def)

end
