(* ===== verification/Telemetry.thy ===== *)
theory Telemetry
  imports Effects Config LLM_Types
begin

text \<open>
  \<open>telemetry.py\<close>, \<open>metrics.py\<close> and the tracing wrappers of \<open>llm.py\<close>. The Langfuse client and the Prometheus
  instruments are other programs': the model records the calls they get, which return nothing and raise nothing.
  The other theories leave spans and metrics out; what is proved here is that this changes nothing they say.
\<close>

section \<open>Tracing\<close>

datatype span_input = NoInput | TextInput pystr | MessagesInput "message list"

text \<open>
  The calls on the client: observations that are current or not, with name, type, input and metadata, their updates and
  end.
\<close>

datatype trace_call =
    StartObservation bool pystr pystr span_input "payload option"
  | Propagate pystr pystr
  | UpdateMetadata payload
  | UpdateOutput json
  | UpdateError pystr
  | UpdateGeneration "pystr option" "payload option" json
  | EndObservation
  | Flush
  | ShutdownClient

record langfuse =
  lf_environment :: "pystr option"
  lf_release :: "pystr option"
  lf_sample_rate :: real

text \<open>The module's \<open>_client\<close>, and the calls so far.\<close>

record telemetry =
  tm_client :: "langfuse option"
  tm_calls :: "trace_call list"

definition emit :: "trace_call \<Rightarrow> telemetry \<Rightarrow> telemetry" where
  "emit c t = t\<lparr>tm_calls := tm_calls t @ [c]\<rparr>"

definition tracing_enabled :: "telemetry \<Rightarrow> bool" where
  "tracing_enabled t \<longleftrightarrow> tm_client t \<noteq> None"

definition configure_tracing :: "bool \<Rightarrow> telemetry_config \<Rightarrow> telemetry \<Rightarrow> telemetry" where
  "configure_tracing installed cfg t =
     (if tracing_enabled t \<or> \<not> tl_enabled cfg then t
      else if \<not> installed then t
      else t\<lparr>tm_client := Some \<lparr>lf_environment = or_none (tl_environment cfg), lf_release = or_none (tl_release cfg),
             lf_sample_rate = tl_sample_rate cfg\<rparr>\<rparr>)"

definition tracing_flush :: "telemetry \<Rightarrow> telemetry" where
  "tracing_flush t = (if tracing_enabled t then emit Flush t else t)"

text \<open>The client is dropped whether its shutdown raises or not.\<close>

definition tracing_shutdown :: "exn option \<Rightarrow> telemetry \<Rightarrow> telemetry \<times> unit res" where
  "tracing_shutdown raised t =
     (if tracing_enabled t
      then ((emit ShutdownClient t)\<lparr>tm_client := None\<rparr>, case raised of None \<Rightarrow> Inr () | Some e \<Rightarrow> Inl e)
      else (t, Inr ()))"

text \<open>\<open>_clean\<close> drops what is \<open>None\<close>.\<close>

definition clean :: "payload \<Rightarrow> payload" where
  "clean attrs = filter (\<lambda>(k, v). v \<noteq> JNull) attrs"

definition usage_details :: "token_usage option \<Rightarrow> payload option" where
  "usage_details usage = (case usage of None \<Rightarrow> None | Some u \<Rightarrow>
     (let details = (if prompt_tokens u \<noteq> 0 then [(py ''input'', JInt (prompt_tokens u))] else [])
        @ (if completion_tokens u \<noteq> 0 then [(py ''output'', JInt (completion_tokens u))] else [])
        @ (if total_tokens u \<noteq> 0 then [(py ''total'', JInt (total_tokens u))] else [])
      in if details = [] then None else Some details))"

text \<open>A \<open>SpanHandle\<close> has an observation or none.\<close>

type_synonym span_handle = bool

definition set_attributes :: "span_handle \<Rightarrow> payload \<Rightarrow> telemetry \<Rightarrow> telemetry" where
  "set_attributes h attrs t = (if h \<and> clean attrs \<noteq> [] then emit (UpdateMetadata (clean attrs)) t else t)"

definition set_output :: "span_handle \<Rightarrow> json \<Rightarrow> telemetry \<Rightarrow> telemetry" where
  "set_output h out t = (if h then emit (UpdateOutput out) t else t)"

definition set_error :: "span_handle \<Rightarrow> exn \<Rightarrow> telemetry \<Rightarrow> telemetry" where
  "set_error h e t = (if h then emit (UpdateError (exn_name e @ py '': '' @ exn_str e)) t else t)"

definition record_generation :: "span_handle \<Rightarrow> pystr option \<Rightarrow> token_usage option \<Rightarrow> json \<Rightarrow> telemetry \<Rightarrow> telemetry" where
  "record_generation h model usage out t = (if h then emit (UpdateGeneration model (usage_details usage) out) t else t)"

definition end_handle :: "span_handle \<Rightarrow> telemetry \<Rightarrow> telemetry" where
  "end_handle h t = (if h then emit EndObservation t else t)"

definition or_no_metadata :: "payload \<Rightarrow> payload option" where
  "or_no_metadata attrs = (if clean attrs = [] then None else Some (clean attrs))"

text \<open>\<open>with span(..) as handle: body\<close>. Leaving the client's context manager ends the observation.\<close>

definition span_end :: "(telemetry \<times> 'w) \<times> 'a res \<Rightarrow> (telemetry \<times> 'w) \<times> 'a res" where
  "span_end r = (case r of
       ((t, w), Inl e) \<Rightarrow> ((emit EndObservation (set_error True e t), w), Inl e)
     | ((t, w), Inr x) \<Rightarrow> ((emit EndObservation t, w), Inr x))"

definition span :: "pystr \<Rightarrow> pystr \<Rightarrow> span_input \<Rightarrow> payload \<Rightarrow> (span_handle \<Rightarrow> (telemetry \<times> 'w, 'a) io) \<Rightarrow> (telemetry \<times> 'w, 'a) io" where
  "span name kind inp attrs body s =
     (if \<not> tracing_enabled (fst s) then body False s
      else span_end (body True (emit (StartObservation True name kind inp (or_no_metadata attrs)) (fst s), snd s)))"

definition turn_span :: "pystr \<Rightarrow> pystr \<Rightarrow> pystr \<Rightarrow> span_input \<Rightarrow> payload \<Rightarrow> (span_handle \<Rightarrow> (telemetry \<times> 'w, 'a) io) \<Rightarrow> (telemetry \<times> 'w, 'a) io" where
  "turn_span name user_id conversation_id inp attrs body s =
     (if \<not> tracing_enabled (fst s) then body False s
      else span_end (body True (emit (Propagate user_id conversation_id)
        (emit (StartObservation True name (py ''span'') inp (or_no_metadata attrs)) (fst s)), snd s)))"

definition start_generation :: "pystr \<Rightarrow> pystr \<Rightarrow> span_input \<Rightarrow> telemetry \<Rightarrow> span_handle \<times> telemetry" where
  "start_generation name kind inp t =
     (if \<not> tracing_enabled t then (False, t) else (True, emit (StartObservation False name kind inp None) t))"

section \<open>The wrappers of the model and the embedder\<close>

definition response_output :: "llm_response \<Rightarrow> json" where
  "response_output resp =
     (if rs_tool_calls resp \<noteq> []
      then JObj [(py ''text'', JStr (rs_text resp)), (py ''tool_calls'', JList (map (\<lambda>c. JStr (tc_name c)) (rs_tool_calls resp)))]
      else JStr (rs_text resp))"

text \<open>\<open>getattr(response, "model", None) or self._model\<close>; the attribute of llm_kit's response is a parameter.\<close>

definition model_of :: "(llm_response \<Rightarrow> pystr option) \<Rightarrow> pystr option \<Rightarrow> llm_response \<Rightarrow> pystr option" where
  "model_of attr own resp = (case attr resp of Some m \<Rightarrow> if m = [] then own else Some m | None \<Rightarrow> own)"

definition record_response :: "(llm_response \<Rightarrow> pystr option) \<Rightarrow> pystr option \<Rightarrow> span_handle \<Rightarrow> llm_response \<Rightarrow> telemetry \<Rightarrow> telemetry" where
  "record_response attr own h resp t = record_generation h (model_of attr own resp) (Some (rs_usage resp)) (response_output resp) t"

text \<open>What the wrapped call does to the rest of the world.\<close>

definition untraced :: "('w, 'a) io \<Rightarrow> (telemetry \<times> 'w, 'a) io" where
  "untraced m s = (case m (snd s) of (w, r) \<Rightarrow> ((fst s, w), r))"

definition traced_invoke :: "(llm_response \<Rightarrow> pystr option) \<Rightarrow> pystr option \<Rightarrow> (message list \<Rightarrow> ('w, llm_response) io) \<Rightarrow> message list
    \<Rightarrow> (telemetry \<times> 'w, llm_response) io" where
  "traced_invoke attr own inner messages =
     span (py ''llm.invoke'') (py ''generation'') (MessagesInput messages) []
       (\<lambda>gen. seq (untraced (inner messages)) (\<lambda>resp s. ((record_response attr own gen resp (fst s), snd s), Inr resp)))"

text \<open>An embedding with its usage.\<close>

definition traced_embed_one :: "pystr option \<Rightarrow> (pystr \<Rightarrow> ('w, real list \<times> token_usage option) io) \<Rightarrow> pystr
    \<Rightarrow> (telemetry \<times> 'w, real list \<times> token_usage option) io" where
  "traced_embed_one own inner txt =
     span (py ''embed_one'') (py ''embedding'') (TextInput txt) []
       (\<lambda>gen. seq (untraced (inner txt)) (\<lambda>resp s. ((record_generation gen own (snd resp) JNull (fst s), snd s), Inr resp)))"

text \<open>
  A stream is its events and the exception that ends it, if any. The consumer reads all of it or closes the generator
  after some events; a generator that is suspended at a \<open>yield\<close> is ended by \<open>GeneratorExit\<close>, one that was not
  started does nothing.
\<close>

datatype consumer = ReadAll | CloseAfter nat

definition events_read :: "stream_event list \<Rightarrow> consumer \<Rightarrow> stream_event list" where
  "events_read events c = (case c of ReadAll \<Rightarrow> events | CloseAfter n \<Rightarrow> take n events)"

definition closed_early :: "stream_event list \<Rightarrow> consumer \<Rightarrow> bool" where
  "closed_early events c \<longleftrightarrow> (case c of ReadAll \<Rightarrow> False | CloseAfter n \<Rightarrow> n \<le> length events)"

text \<open>The wrapped stream by itself: what is yielded and what the consumer sees raised.\<close>

definition bare_stream :: "stream_event list \<Rightarrow> exn option \<Rightarrow> consumer \<Rightarrow> stream_event list \<times> exn option" where
  "bare_stream events raised c = (events_read events c, if closed_early events c then None else raised)"

fun last_response :: "stream_event list \<Rightarrow> llm_response option \<Rightarrow> llm_response option" where
  "last_response [] r = r"
| "last_response (StreamEnd resp # es) r = last_response es (Some resp)"
| "last_response (e # es) r = last_response es r"

definition traced_stream :: "(llm_response \<Rightarrow> pystr option) \<Rightarrow> pystr option \<Rightarrow> message list \<Rightarrow> stream_event list \<Rightarrow> exn option
    \<Rightarrow> consumer \<Rightarrow> telemetry \<Rightarrow> (stream_event list \<times> exn option) \<times> telemetry" where
  "traced_stream attr own messages events raised c t =
     (if c = CloseAfter 0 then (([], None), t)
      else if \<not> tracing_enabled t then (bare_stream events raised c, t)
      else let (gen, t) = start_generation (py ''llm.invoke_stream'') (py ''generation'') (MessagesInput messages) t;
               t = (if closed_early events c then emit (UpdateError (py ''GeneratorExit: '')) t
                    else case raised of None \<Rightarrow> t | Some e \<Rightarrow> set_error gen e t);
               t = (case last_response (events_read events c) None of None \<Rightarrow> t | Some resp \<Rightarrow> record_response attr own gen resp t)
           in (bare_stream events raised c, end_handle gen t))"

section \<open>Metrics\<close>

text \<open>The observations each instrument got.\<close>

record instruments =
  mi_ttft :: "real list"
  mi_turn_latency :: "real list"
  mi_turn_iterations :: "int list"
  mi_tool_calls :: "(pystr \<times> pystr) list"
  mi_retrieval_hits :: "int list"

definition configure_metrics :: "bool \<Rightarrow> metrics_config \<Rightarrow> instruments option \<Rightarrow> instruments option" where
  "configure_metrics installed cfg i =
     (if i \<noteq> None \<or> \<not> mt_enabled cfg then i
      else if \<not> installed then i
      else Some \<lparr>mi_ttft = [], mi_turn_latency = [], mi_turn_iterations = [], mi_tool_calls = [], mi_retrieval_hits = []\<rparr>)"

definition record_ttft :: "real \<Rightarrow> instruments option \<Rightarrow> instruments option" where
  "record_ttft seconds i = map_option (\<lambda>m. m\<lparr>mi_ttft := mi_ttft m @ [seconds]\<rparr>) i"

definition record_turn :: "real \<Rightarrow> int \<Rightarrow> instruments option \<Rightarrow> instruments option" where
  "record_turn seconds iterations i = map_option (\<lambda>m. m\<lparr>mi_turn_latency := mi_turn_latency m @ [seconds],
     mi_turn_iterations := mi_turn_iterations m @ [iterations]\<rparr>) i"

definition record_tool_call :: "pystr \<Rightarrow> pystr \<Rightarrow> instruments option \<Rightarrow> instruments option" where
  "record_tool_call name outcome i = map_option (\<lambda>m. m\<lparr>mi_tool_calls := mi_tool_calls m @ [(name, outcome)]\<rparr>) i"

definition record_retrieval :: "int \<Rightarrow> instruments option \<Rightarrow> instruments option" where
  "record_retrieval hits i = map_option (\<lambda>m. m\<lparr>mi_retrieval_hits := mi_retrieval_hits m @ [hits]\<rparr>) i"

text \<open>The exposition format of Prometheus is a parameter.\<close>

definition metrics_output :: "(instruments \<Rightarrow> pystr \<times> pystr) \<Rightarrow> instruments option \<Rightarrow> pystr \<times> pystr" where
  "metrics_output generate_latest i = (case i of None \<Rightarrow> ([], []) | Some m \<Rightarrow> generate_latest m)"

text \<open>The route \<open>/metrics\<close>: status, content type and body.\<close>

definition metrics_route :: "(instruments \<Rightarrow> pystr \<times> pystr) \<Rightarrow> instruments option \<Rightarrow> int \<times> pystr \<times> pystr" where
  "metrics_route generate_latest i =
     (case metrics_output generate_latest i of (body, content_type) \<Rightarrow>
        if body = [] then (501, py ''application/json'', py ''{\"status\":\"not_implemented\"}'') else (200, content_type, body))"

section \<open>Lemmas\<close>

text \<open>
  A traced operation is the operation: same result, same effect on everything else; it only adds calls, and none when
  tracing is off. \<open>h\<close> says whether it is on.
\<close>

definition traced_as :: "bool \<Rightarrow> (telemetry \<times> 'w, 'a) io \<Rightarrow> ('w, 'a) io \<Rightarrow> bool" where
  "traced_as h f m \<longleftrightarrow> (\<forall>t w. tracing_enabled t = h \<longrightarrow>
     (\<exists>cs. f (t, w) = ((t\<lparr>tm_calls := tm_calls t @ cs\<rparr>, fst (m w)), snd (m w)) \<and> (\<not> h \<longrightarrow> cs = [])))"

definition transparent :: "(telemetry \<times> 'w, 'a) io \<Rightarrow> ('w, 'a) io \<Rightarrow> bool" where
  "transparent f m \<longleftrightarrow> (\<forall>h. traced_as h f m)"

lemma enabled_calls [simp]: "tracing_enabled (t\<lparr>tm_calls := cs\<rparr>) = tracing_enabled t" "tracing_enabled (emit c t) = tracing_enabled t"
  by (simp_all add: tracing_enabled_def emit_def)

lemma traced_asE:
  assumes "traced_as h f m" and "tracing_enabled t = h"
  obtains cs where "f (t, w) = ((t\<lparr>tm_calls := tm_calls t @ cs\<rparr>, fst (m w)), snd (m w))" and "\<not> h \<Longrightarrow> cs = []"
  using assms unfolding traced_as_def by blast

text \<open>A call on the client through the handle of an open span.\<close>

lemma traced_as_call:
  assumes "\<And>t. (h \<longrightarrow> (\<exists>cs. f t = t\<lparr>tm_calls := tm_calls t @ cs\<rparr>)) \<and> (\<not> h \<longrightarrow> f t = t)"
  shows "traced_as h (\<lambda>s. ((f (fst s), snd s), Inr x)) (ret x)"
  unfolding traced_as_def ret_def
proof (intro allI impI)
  fix t w
  from assms [of t] obtain cs where "f t = t\<lparr>tm_calls := tm_calls t @ cs\<rparr>" "\<not> h \<Longrightarrow> cs = []"
    by (cases h) (auto intro: that [of "[]"])
  then show "\<exists>cs. ((f (fst (t, w)), snd (t, w)), Inr x) = ((t\<lparr>tm_calls := tm_calls t @ cs\<rparr>, fst (w, Inr x)), snd (w, Inr x)) \<and> (\<not> h \<longrightarrow> cs = [])"
    by auto
qed

lemma handle_calls:
  "(h \<longrightarrow> (\<exists>cs. set_attributes h attrs t = t\<lparr>tm_calls := tm_calls t @ cs\<rparr>)) \<and> (\<not> h \<longrightarrow> set_attributes h attrs t = t)"
  "(h \<longrightarrow> (\<exists>cs. set_output h out t = t\<lparr>tm_calls := tm_calls t @ cs\<rparr>)) \<and> (\<not> h \<longrightarrow> set_output h out t = t)"
  "(h \<longrightarrow> (\<exists>cs. record_generation h model usage out t = t\<lparr>tm_calls := tm_calls t @ cs\<rparr>)) \<and> (\<not> h \<longrightarrow> record_generation h model usage out t = t)"
  "(h \<longrightarrow> (\<exists>cs. record_response attr own h resp t = t\<lparr>tm_calls := tm_calls t @ cs\<rparr>)) \<and> (\<not> h \<longrightarrow> record_response attr own h resp t = t)"
  by (auto simp: set_attributes_def set_output_def record_generation_def record_response_def emit_def intro: exI [of _ "[]"])

lemmas traced_handle_calls = handle_calls [THEN traced_as_call]

lemma traced_as_untraced: "traced_as h (untraced m) m"
  unfolding traced_as_def untraced_def by (auto simp: case_prod_unfold intro!: exI [of _ "[]"])

lemma traced_as_seq:
  assumes "traced_as h f m" and "\<And>x. traced_as h (g x) (k x)"
  shows "traced_as h (seq f g) (seq m k)"
  unfolding traced_as_def
proof (intro allI impI)
  fix t w
  assume t: "tracing_enabled t = h"
  obtain cs where cs: "f (t, w) = ((t\<lparr>tm_calls := tm_calls t @ cs\<rparr>, fst (m w)), snd (m w))" "\<not> h \<Longrightarrow> cs = []"
    using traced_asE [OF assms(1) t, of w] by blast
  show "\<exists>cs. seq f g (t, w) = ((t\<lparr>tm_calls := tm_calls t @ cs\<rparr>, fst (seq m k w)), snd (seq m k w)) \<and> (\<not> h \<longrightarrow> cs = [])"
  proof (cases "m w")
    case (Pair w' r)
    show ?thesis
    proof (cases r)
      case (Inl e)
      with cs Pair show ?thesis by (auto simp: seq_def)
    next
      case (Inr x)
      obtain ds where ds: "g x (t\<lparr>tm_calls := tm_calls t @ cs\<rparr>, w') =
          ((t\<lparr>tm_calls := tm_calls t @ cs\<rparr>\<lparr>tm_calls := tm_calls (t\<lparr>tm_calls := tm_calls t @ cs\<rparr>) @ ds\<rparr>, fst (k x w')), snd (k x w'))" "\<not> h \<Longrightarrow> ds = []"
        by (rule traced_asE [OF assms(2) [of x], of "t\<lparr>tm_calls := tm_calls t @ cs\<rparr>" w']) (simp_all add: t)
      with cs Pair Inr show ?thesis
        by (intro exI [of _ "cs @ ds"]) (simp add: seq_def)
    qed
  qed
qed

lemma span_end_calls:
  "\<exists>ds. span_end ((t\<lparr>tm_calls := cs\<rparr>, w), r) = ((t\<lparr>tm_calls := cs @ ds\<rparr>, w), r) \<and> last ds = EndObservation \<and> ds \<noteq> []"
  by (cases r) (auto simp: span_end_def set_error_def emit_def intro: exI [of _ "[UpdateError x, EndObservation]" for x] exI [of _ "[EndObservation]"])

lemma transparent_spans:
  assumes "\<And>h. traced_as h (body h) m"
  shows "transparent (span name kind inp attrs body) m" and "transparent (turn_span name u c inp attrs body) m"
proof -
  have started: "\<exists>cs. span_end (body True (t\<lparr>tm_calls := tm_calls t @ bs\<rparr>, w)) = ((t\<lparr>tm_calls := tm_calls t @ cs\<rparr>, fst (m w)), snd (m w))"
    if t: "tracing_enabled t" for t w bs
  proof -
    obtain cs where "body True (t\<lparr>tm_calls := tm_calls t @ bs\<rparr>, w) = ((t\<lparr>tm_calls := tm_calls t @ bs @ cs\<rparr>, fst (m w)), snd (m w))"
      by (rule traced_asE [OF assms [of True], of "t\<lparr>tm_calls := tm_calls t @ bs\<rparr>" w]) (simp_all add: t)
    then show ?thesis
      using span_end_calls [where t = t and cs = "tm_calls t @ bs @ cs" and w = "fst (m w)" and r = "snd (m w)"] by auto
  qed
  have off: "body False (t, w) = ((t, fst (m w)), snd (m w))" if "\<not> tracing_enabled t" for t w
    by (rule traced_asE [OF assms [of False], of t w]) (use that in auto)
  show "transparent (span name kind inp attrs body) m"
    using started [of _ "[_]"] off unfolding transparent_def traced_as_def span_def by (auto simp: emit_def)
  show "transparent (turn_span name u c inp attrs body) m"
    using started [of _ "[_, _]"] off unfolding transparent_def traced_as_def turn_span_def by (auto simp: emit_def)
qed

lemma seq_ret_right: "seq m ret = m"
  by (rule ext) (auto simp: seq_def ret_def split: prod.splits sum.splits)

lemma traced_as_then: "(\<And>x. traced_as h (g x) (ret x)) \<Longrightarrow> traced_as h (seq (untraced m) g) m"
  using traced_as_seq [OF traced_as_untraced, of h g ret m] by (simp add: seq_ret_right)

lemma traced_wrappers:
  "transparent (traced_invoke attr own inner messages) (inner messages)"
  "transparent (traced_embed_one own emb txt) (emb txt)"
  unfolding traced_invoke_def traced_embed_one_def
  by (rule transparent_spans traced_as_then traced_handle_calls)+

text \<open>The stream is passed on event by event; with tracing on, one observation starts before and ends after it.\<close>

lemma last_response_None: "last_response es r = None \<longleftrightarrow> r = None \<and> (\<forall>resp. StreamEnd resp \<notin> set es)"
  by (induction es r rule: last_response.induct) auto

lemma traced_stream_yields: "fst (traced_stream attr own messages events raised c t) = bare_stream events raised c"
  by (auto simp: traced_stream_def bare_stream_def events_read_def closed_early_def Let_def case_prod_unfold)

lemma traced_stream_off: "\<not> tracing_enabled t \<Longrightarrow> snd (traced_stream attr own messages events raised c t) = t"
  by (simp add: traced_stream_def)

lemma traced_stream_calls:
  assumes "tracing_enabled t" and "c \<noteq> CloseAfter 0"
  shows "\<exists>mid. snd (traced_stream attr own messages events raised c t) =
      t\<lparr>tm_calls := tm_calls t @ StartObservation False (py ''llm.invoke_stream'') (py ''generation'') (MessagesInput messages) None # mid @ [EndObservation]\<rparr>
    \<and> ((\<exists>m u out. UpdateGeneration m u out \<in> set mid) \<longleftrightarrow> (\<exists>resp. StreamEnd resp \<in> set (events_read events c)))
    \<and> ((\<exists>msg. UpdateError msg \<in> set mid) \<longleftrightarrow> closed_early events c \<or> raised \<noteq> None)
    \<and> (\<forall>x \<in> set mid. (\<exists>m u out. x = UpdateGeneration m u out) \<or> (\<exists>msg. x = UpdateError msg))"
proof -
  let ?err = "if closed_early events c then [UpdateError (py ''GeneratorExit: '')]
    else case raised of None \<Rightarrow> [] | Some e \<Rightarrow> [UpdateError (exn_name e @ py '': '' @ exn_str e)]"
  let ?gen = "case last_response (events_read events c) None of None \<Rightarrow> []
    | Some resp \<Rightarrow> [UpdateGeneration (model_of attr own resp) (usage_details (Some (rs_usage resp))) (response_output resp)]"
  have "snd (traced_stream attr own messages events raised c t) =
      t\<lparr>tm_calls := tm_calls t @ StartObservation False (py ''llm.invoke_stream'') (py ''generation'') (MessagesInput messages) None # (?err @ ?gen) @ [EndObservation]\<rparr>"
    using assms by (simp add: traced_stream_def start_generation_def Let_def set_error_def record_response_def record_generation_def
        end_handle_def emit_def split: option.split)
  moreover have "(\<exists>m u out. UpdateGeneration m u out \<in> set (?err @ ?gen)) \<longleftrightarrow> (\<exists>resp. StreamEnd resp \<in> set (events_read events c))"
    using last_response_None [of "events_read events c" None] by (auto split: option.splits)
  moreover have "(\<exists>msg. UpdateError msg \<in> set (?err @ ?gen)) \<longleftrightarrow> closed_early events c \<or> raised \<noteq> None"
    by (auto split: option.splits)
  moreover have "\<forall>x \<in> set (?err @ ?gen). (\<exists>m u out. x = UpdateGeneration m u out) \<or> (\<exists>msg. x = UpdateError msg)"
    by (auto split: option.splits)
  ultimately show ?thesis by blast
qed

text \<open>Both configurations take effect once; recording without instruments does nothing.\<close>

lemma configure_once:
  "configure_tracing i cfg (configure_tracing i cfg t) = configure_tracing i cfg t"
  "configure_metrics i mcfg (configure_metrics i mcfg m) = configure_metrics i mcfg m"
  by (auto simp: configure_tracing_def tracing_enabled_def configure_metrics_def)

lemma metrics_disabled:
  "record_ttft s None = None" "record_turn s n None = None" "record_tool_call name out None = None" "record_retrieval n None = None"
  "fst (metrics_route g None) = 501"
  by (simp_all add: record_ttft_def record_turn_def record_tool_call_def record_retrieval_def metrics_route_def metrics_output_def)

end
