(* ===== verification/Application.thy ===== *)
theory Application
  imports Websocket Telemetry
begin

text \<open>
  The outer layer: which clients \<open>AgentService.build\<close> makes and closes, the service's shutdown, and the HTTP routes of
  \<open>serving/app.py\<close>. The clients are llm_kit's, closing one is a parameter.
\<close>

section \<open>Clients and their closing\<close>

datatype cleanup = CloseLlm | CloseEmbedder | CloseSharedClient | ShutdownTracing

text \<open>
  \<open>build\<close>: the shared HTTP client if one of the two is not injected, the cleanups in their order, whether model and
  embedder are wrapped for tracing, and whether there is a factory for models.
\<close>

record service_clients =
  sv_shared_client :: bool
  sv_cleanups :: "cleanup list"
  sv_traced :: bool
  sv_llm_factory :: bool

definition build_clients :: "bool \<Rightarrow> bool \<Rightarrow> bool \<Rightarrow> service_clients" where
  "build_clients llm_injected embedder_injected tracing =
     (let shared = (\<not> llm_injected \<or> \<not> embedder_injected)
      in \<lparr>sv_shared_client = shared,
          sv_cleanups = (if llm_injected then [] else [CloseLlm]) @ (if embedder_injected then [] else [CloseEmbedder])
            @ (if shared then [CloseSharedClient] else []) @ (if tracing then [ShutdownTracing] else []),
          sv_traced = tracing, sv_llm_factory = \<not> llm_injected\<rparr>)"

text \<open>Tracing and metrics are configured before anything is built.\<close>

definition configure_observability :: "bool \<Rightarrow> bool \<Rightarrow> 'app harness_kit_config \<Rightarrow> telemetry \<Rightarrow> instruments option
    \<Rightarrow> telemetry \<times> instruments option" where
  "configure_observability langfuse_installed prometheus_installed cfg t i =
     (configure_tracing langfuse_installed (hk_telemetry cfg) t, configure_metrics prometheus_installed (hk_metrics cfg) i)"

text \<open>\<open>aclose\<close>: the background tasks, the MCP servers, then the cleanups one after the other.\<close>

definition service_aclose :: "'x agent \<Rightarrow> bg_task list \<Rightarrow> 'x mcp_client list \<Rightarrow> (cleanup \<Rightarrow> ('x, unit) wio) \<Rightarrow> cleanup list
    \<Rightarrow> ('x, unit) wio" where
  "service_aclose ag tasks clients close cleanups w =
     seq (mcp_aclose clients) (\<lambda>_. for_each cleanups close) (drain ag tasks w)"

section \<open>Routes\<close>

definition healthz :: payload where
  "healthz = [(py ''status'', JStr (py ''ok''))]"

definition conversations_route :: "pystr \<Rightarrow> pystr option \<Rightarrow> int option \<Rightarrow> ('x, payload) wio" where
  "conversations_route user_id status limit w =
     (w, Inr [(py ''conversations'', JList (map JObj (list_conversations (ss_list (w_sessions w) user_id (w_now w)) status limit)))])"

definition set_model_route :: "'x agent \<Rightarrow> pystr \<Rightarrow> pystr \<Rightarrow> pystr option \<Rightarrow> ('x, payload) wio" where
  "set_model_route ag conversation_id user_id model =
     seq (set_conversation_model ag conversation_id user_id model)
       (\<lambda>_. ret [(py ''conversation_id'', JStr conversation_id), (py ''model'', encode_opt JStr model)])"

text \<open>
  The lifespan of the application: MCP servers are connected before anything is served; when serving ends, also with an
  exception, the sweeper is cancelled and the service closed. \<open>serve\<close> is what the server and the sweeper do in
  between. An exception of the closing replaces that of the serving.
\<close>

definition lifespan :: "'x registry \<Rightarrow> 'x mcp_client list \<Rightarrow> ('x registry \<Rightarrow> 'x mcp_client list \<Rightarrow> ('x, unit) wio) \<Rightarrow>
    ('x registry \<Rightarrow> 'x mcp_client list \<Rightarrow> ('x, unit) wio) \<Rightarrow> ('x, unit) wio" where
  "lifespan rg clients serve aclose =
     seq (astart rg clients) (\<lambda>(rg, alive). ensuring (serve rg alive) (aclose rg alive))"

section \<open>Lemmas\<close>

text \<open>The shared client is closed after the clients that use it, and tracing is shut down last.\<close>

lemma shared_client_last:
  "sv_cleanups (build_clients l e t) = xs @ CloseSharedClient # ys \<Longrightarrow> set ys \<subseteq> {ShutdownTracing}"
  by (cases l; cases e; cases t) (auto simp: build_clients_def Cons_eq_append_conv)

text \<open>A cleanup that raises keeps the later ones from running.\<close>

lemma cleanup_stops:
  "close c w = (w', Inl e) \<Longrightarrow> for_each (c # cleanups) close w = (w', Inl e)"
  by (simp add: seq_Inl)

text \<open>The service is closed whenever it was started, also after serving failed; if the start fails it is not.\<close>

lemma lifespan_closes:
  assumes "astart rg clients w = (w0, Inr (rg', alive))" and "serve rg' alive w0 = (w1, r)"
  shows "fst (lifespan rg clients serve aclose w) = fst (aclose rg' alive w1)"
    and "snd (aclose rg' alive w1) = Inr () \<Longrightarrow> snd (lifespan rg clients serve aclose w) = r"
  using assms by (auto simp: lifespan_def seq_Inr ensuring_def split: prod.splits sum.splits)

lemma lifespan_start_fails:
  "astart rg clients w = (w0, Inl e) \<Longrightarrow> lifespan rg clients serve aclose w = (w0, Inl e)"
  by (simp add: lifespan_def seq_Inl)

end
