(* ===== verification/MCP_Lifecycle.thy ===== *)
theory MCP_Lifecycle
  imports MCP
begin

text \<open>
  The life of the connections of \<open>tools/mcp.py\<close>: \<open>MCPServerClient\<close> with the \<open>AsyncExitStack\<close> it keeps once
  \<open>connect\<close> has returned, under the manager of \<open>MCP\<close>. The contexts that were entered and not left are recorded in
  the world. A server answers each of the calls that start or end its connection once, so its answers are a function
  of the call; what a call does to the rest of the world is a parameter. A context that is left with an exception in
  flight passes it on, as those of the SDK do; contexts dropped without being left, which the garbage collector may
  finalize some time, count as open.
\<close>

section \<open>The server and the client\<close>

datatype mcp_context = TransportContext | SessionContext

datatype mcp_await = EnterContext mcp_context | Initialize | ListTools | ExitContext mcp_context

record 'x mcp_sdk =
  sd_answer :: "mcp_await \<Rightarrow> exn option"
  sd_effect :: "mcp_await \<Rightarrow> 'x world_scheme \<Rightarrow> 'x world_scheme"
  sd_tools :: "mcp_tool_spec list"
  sd_call_tool :: "pystr \<Rightarrow> payload \<Rightarrow> real \<Rightarrow> 'x world_scheme \<Rightarrow> 'x world_scheme \<times> mcp_call_result res option"

text \<open>Clients are numbered; \<open>mp_stack\<close> is \<open>_stack\<close>, set together with \<open>_session\<close>.\<close>

record mcp_process = world +
  mp_open :: "(nat \<times> mcp_context) set"
  mp_stack :: "nat \<Rightarrow> mcp_context list option"

type_synonym ('y, 'a) mio = "('y mcp_process_ext, 'a) wio"

definition sdk_await :: "'x mcp_sdk \<Rightarrow> mcp_await \<Rightarrow> ('x, unit) wio" where
  "sdk_await sdk a w = (sd_effect sdk a w, case sd_answer sdk a of None \<Rightarrow> Inr () | Some e \<Rightarrow> Inl e)"

definition sdk_session :: "'x mcp_sdk \<Rightarrow> 'x mcp_session" where
  "sdk_session sdk = \<lparr>se_list_tools = seq (sdk_await sdk ListTools) (\<lambda>_. ret (sd_tools sdk)), se_call_tool = sd_call_tool sdk\<rparr>"

definition enter_context :: "nat \<Rightarrow> 'y mcp_process_ext mcp_sdk \<Rightarrow> mcp_context \<Rightarrow> ('y, unit) mio" where
  "enter_context i sdk x = seq (sdk_await sdk (EnterContext x)) (\<lambda>_ w. (w\<lparr>mp_open := insert (i, x) (mp_open w)\<rparr>, Inr ()))"

definition client_connect :: "nat \<Rightarrow> mcp_server_config \<Rightarrow> 'y mcp_process_ext mcp_sdk \<Rightarrow> ('y, unit) mio" where
  "client_connect i srv sdk =
     seq (mcp_connect srv
       (seq (enter_context i sdk TransportContext) (\<lambda>_.
        seq (enter_context i sdk SessionContext) (\<lambda>_.
        seq (sdk_await sdk Initialize) (\<lambda>_. ret (sdk_session sdk))))))
     (\<lambda>session w. (w\<lparr>mp_stack := (mp_stack w)(i \<mapsto> [TransportContext, SessionContext])\<rparr>, Inr ()))"

text \<open>\<open>AsyncExitStack.aclose\<close>: the contexts are left last first, all of them; the last exception is raised.\<close>

fun exit_contexts :: "nat \<Rightarrow> 'y mcp_process_ext mcp_sdk \<Rightarrow> mcp_context list \<Rightarrow> ('y, unit) mio" where
  "exit_contexts i sdk [] w = (w, Inr ())"
| "exit_contexts i sdk (x # xs) w =
     (case sdk_await sdk (ExitContext x) w of (w, r) \<Rightarrow>
        (case exit_contexts i sdk xs (w\<lparr>mp_open := mp_open w - {(i, x)}\<rparr>) of
           (w, Inl e) \<Rightarrow> (w, Inl e)
         | (w, Inr _) \<Rightarrow> (w, r)))"

definition client_aclose :: "nat \<Rightarrow> 'y mcp_process_ext mcp_sdk \<Rightarrow> ('y, unit) mio" where
  "client_aclose i sdk w =
     (case mp_stack w i of
        None \<Rightarrow> (w, Inr ())
      | Some contexts \<Rightarrow> seq (suppress_exception (exit_contexts i sdk (rev contexts)))
          (\<lambda>_ w. (w\<lparr>mp_stack := (mp_stack w)(i := None)\<rparr>, Inr ())) w)"

definition server_client :: "nat \<times> mcp_server_config \<times> 'y mcp_process_ext mcp_sdk \<Rightarrow> 'y mcp_process_ext mcp_client" where
  "server_client = (\<lambda>(i, srv, sdk). \<lparr>cl_name = ms_name srv, cl_auto_allow = ms_auto_allow srv,
     cl_connect = client_connect i srv sdk, cl_discover = mcp_discover (ms_name srv) (sdk_session sdk),
     cl_aclose = client_aclose i sdk\<rparr>)"

definition mcp_init :: "(mcp_server_config \<times> 'y mcp_process_ext mcp_sdk) list \<Rightarrow> 'y mcp_process_ext mcp_client list" where
  "mcp_init servers = map server_client (zip [0 ..< length servers] servers)"

section \<open>One server\<close>

text \<open>How far \<open>connect\<close> comes: the contexts it entered, and whether it and the discovery succeed.\<close>

definition usable :: "mcp_server_config \<Rightarrow> bool" where
  "usable srv \<longleftrightarrow> (case ms_transport srv of
       STDIO \<Rightarrow> \<not> (ms_command srv = None \<or> ms_command srv = Some [])
     | _ \<Rightarrow> \<not> (ms_url srv = None \<or> ms_url srv = Some []))"

definition entered :: "mcp_server_config \<Rightarrow> 'x mcp_sdk \<Rightarrow> mcp_context set" where
  "entered srv sdk =
     (if \<not> usable srv \<or> sd_answer sdk (EnterContext TransportContext) \<noteq> None then {}
      else if sd_answer sdk (EnterContext SessionContext) \<noteq> None then {TransportContext}
      else {TransportContext, SessionContext})"

definition connects :: "mcp_server_config \<Rightarrow> 'x mcp_sdk \<Rightarrow> bool" where
  "connects srv sdk \<longleftrightarrow> entered srv sdk = {TransportContext, SessionContext} \<and> sd_answer sdk Initialize = None"

definition discovers :: "mcp_server_config \<Rightarrow> 'x mcp_sdk \<Rightarrow> bool" where
  "discovers srv sdk \<longleftrightarrow> connects srv sdk \<and> sd_answer sdk ListTools = None"

text \<open>What the calls leave alone.\<close>

definition quiet_sdk :: "'y mcp_process_ext mcp_sdk \<Rightarrow> bool" where
  "quiet_sdk sdk \<longleftrightarrow> (\<forall>a w. mp_open (sd_effect sdk a w) = mp_open w \<and> mp_stack (sd_effect sdk a w) = mp_stack w)
     \<and> (\<forall>a e. sd_answer sdk a = Some e \<longrightarrow> \<not> is_control_flow e)"

lemma quiet_effect [simp]:
  "quiet_sdk sdk \<Longrightarrow> mp_open (sd_effect sdk a w) = mp_open w" "quiet_sdk sdk \<Longrightarrow> mp_stack (sd_effect sdk a w) = mp_stack w"
  "quiet_sdk sdk \<Longrightarrow> sd_answer sdk a = Some e \<Longrightarrow> \<not> is_control_flow e"
  by (auto simp: quiet_sdk_def)

lemma connect_usable: "usable srv \<Longrightarrow> mcp_connect srv k = k"
  by (auto simp: usable_def mcp_connect_def split: mcp_transport.splits)

lemma client_connect_effect:
  assumes "quiet_sdk sdk"
  shows "\<exists>w' r. client_connect i srv sdk w = (w', r) \<and> mp_open w' = mp_open w \<union> Pair i ` entered srv sdk
    \<and> (if connects srv sdk then r = Inr () \<and> mp_stack w' = (mp_stack w)(i \<mapsto> [TransportContext, SessionContext])
       else (\<exists>e. r = Inl e \<and> \<not> is_control_flow e) \<and> mp_stack w' = mp_stack w)"
proof (cases "usable srv")
  case False
  then obtain m where "\<And>k :: ('a mcp_process_ext, 'a mcp_process_ext mcp_session) wio. mcp_connect srv k = throw (ValueError m)"
    by (auto simp: usable_def mcp_connect_def split: mcp_transport.splits)
  with False show ?thesis
    by (simp add: client_connect_def seq_def throw_def entered_def connects_def is_control_flow_def)
next
  case True
  with assms show ?thesis
    by (auto simp: client_connect_def connect_usable seq_def enter_context_def sdk_await_def ret_def entered_def connects_def
        split: option.splits)
qed

lemma exit_contexts_effect:
  assumes "quiet_sdk sdk"
  shows "\<exists>w' r. exit_contexts i sdk xs w = (w', r) \<and> mp_open w' = mp_open w - Pair i ` set xs \<and> mp_stack w' = mp_stack w
    \<and> (\<forall>e. r = Inl e \<longrightarrow> \<not> is_control_flow e)"
proof (induction xs arbitrary: w)
  case (Cons x xs)
  let ?w = "sd_effect sdk (ExitContext x) w"
  from Cons.IH [of "?w\<lparr>mp_open := mp_open ?w - {(i, x)}\<rparr>"] assms show ?case
    by (auto simp: sdk_await_def split: option.splits sum.splits)
qed simp

text \<open>Closing leaves exactly the contexts on the stack, whatever their exits raise.\<close>

lemma client_aclose_effect:
  assumes "quiet_sdk sdk"
  shows "\<exists>w'. client_aclose i sdk w = (w', Inr ()) \<and> mp_stack w' = (mp_stack w)(i := None)
    \<and> mp_open w' = mp_open w - Pair i ` (case mp_stack w i of None \<Rightarrow> {} | Some xs \<Rightarrow> set xs)"
proof (cases "mp_stack w i")
  case None
  then show ?thesis by (auto simp: client_aclose_def)
next
  case (Some xs)
  from exit_contexts_effect [OF assms, of i "rev xs" w] obtain w' r where "exit_contexts i sdk (rev xs) w = (w', r)"
    "mp_open w' = mp_open w - Pair i ` set xs" "mp_stack w' = mp_stack w" "\<forall>e. r = Inl e \<longrightarrow> \<not> is_control_flow e"
    by auto
  with Some show ?thesis
    by (cases r) (simp_all add: client_aclose_def seq_def suppress_exception_def except_exception_def ret_def)
qed

section \<open>The manager\<close>

text \<open>The contexts an attempt to start a server leaves open although the server is skipped.\<close>

definition left_open :: "mcp_server_config \<Rightarrow> 'x mcp_sdk \<Rightarrow> mcp_context set" where
  "left_open srv sdk = (if connects srv sdk then {} else entered srv sdk)"

definition unconnected :: "nat \<Rightarrow> 'y mcp_process_ext world_scheme \<Rightarrow> bool" where
  "unconnected i w \<longleftrightarrow> mp_stack w i = None \<and> (\<forall>x. (i, x) \<notin> mp_open w)"

lemma unconnected_other:
  "unconnected j w \<Longrightarrow> j \<noteq> i \<Longrightarrow> mp_open w1 \<subseteq> mp_open w \<union> Pair i ` UNIV \<Longrightarrow> mp_stack w1 j = mp_stack w j \<Longrightarrow> unconnected j w1"
  by (auto simp: unconnected_def)

lemma attempt_connected:
  assumes "quiet_sdk sdk" and "discovers srv sdk"
  shows "\<exists>w' ts. connect_and_discover (server_client (i, srv, sdk)) w = (w', Inr ts)
    \<and> mp_open w' = mp_open w \<union> Pair i ` {TransportContext, SessionContext}
    \<and> mp_stack w' = (mp_stack w)(i \<mapsto> [TransportContext, SessionContext])"
proof -
  obtain w1 where "client_connect i srv sdk w = (w1, Inr ())" "mp_open w1 = mp_open w \<union> Pair i ` {TransportContext, SessionContext}"
    "mp_stack w1 = (mp_stack w)(i \<mapsto> [TransportContext, SessionContext])"
    using client_connect_effect [OF assms(1), of i srv w] assms(2) by (auto simp: discovers_def connects_def)
  with assms show ?thesis
    by (simp add: connect_and_discover_def server_client_def seq_def mcp_discover_def sdk_session_def sdk_await_def ret_def discovers_def)
qed

lemma attempt_skipped:
  assumes "quiet_sdk sdk" and "\<not> discovers srv sdk" and "unconnected i w"
  shows "\<exists>w1 e w'. connect_and_discover (server_client (i, srv, sdk)) w = (w1, Inl e) \<and> \<not> is_control_flow e
    \<and> suppress_exception (cl_aclose (server_client (i, srv, sdk))) w1 = (w', Inr ())
    \<and> mp_open w' = mp_open w \<union> Pair i ` left_open srv sdk \<and> mp_stack w' = mp_stack w"
proof -
  obtain w0 r where c: "client_connect i srv sdk w = (w0, r)" "mp_open w0 = mp_open w \<union> Pair i ` entered srv sdk"
    "if connects srv sdk then r = Inr () \<and> mp_stack w0 = (mp_stack w)(i \<mapsto> [TransportContext, SessionContext])
       else (\<exists>e. r = Inl e \<and> \<not> is_control_flow e) \<and> mp_stack w0 = mp_stack w"
    using client_connect_effect [OF assms(1)] by blast
  obtain w1 e where a: "connect_and_discover (server_client (i, srv, sdk)) w = (w1, Inl e)" "\<not> is_control_flow e"
    "mp_open w1 = mp_open w0" "mp_stack w1 = mp_stack w0"
  proof (cases "connects srv sdk")
    case True
    with assms(1,2) c that show ?thesis
      by (auto simp: discovers_def connect_and_discover_def server_client_def seq_def mcp_discover_def sdk_session_def sdk_await_def)
  next
    case False
    with c that show ?thesis
      by (auto simp: connect_and_discover_def server_client_def seq_def)
  qed
  obtain w' where w': "client_aclose i sdk w1 = (w', Inr ())" "mp_stack w' = (mp_stack w1)(i := None)"
    "mp_open w' = mp_open w1 - Pair i ` (case mp_stack w1 i of None \<Rightarrow> {} | Some xs \<Rightarrow> set xs)"
    using client_aclose_effect [OF assms(1)] by blast
  have "suppress_exception (cl_aclose (server_client (i, srv, sdk))) w1 = (w', Inr ())"
    using w'(1) by (simp add: server_client_def suppress_exception_def except_exception_def)
  moreover have "mp_stack w' = mp_stack w"
    using w'(2) a(4) c(3) assms(3) by (auto simp: unconnected_def split: if_splits)
  moreover have "mp_open w' = mp_open w \<union> Pair i ` left_open srv sdk"
    using w'(3) a(3,4) c(2,3) assms(3) by (auto simp: unconnected_def left_open_def connects_def split: if_splits)
  ultimately show ?thesis using a(1,2) by blast
qed

text \<open>What starting the servers opens, and which of them stay.\<close>

definition contexts_opened :: "mcp_server_config \<Rightarrow> 'x mcp_sdk \<Rightarrow> mcp_context set" where
  "contexts_opened srv sdk = (if discovers srv sdk then {TransportContext, SessionContext} else left_open srv sdk)"

type_synonym 'y numbered = "nat \<times> mcp_server_config \<times> 'y mcp_process_ext mcp_sdk"

definition kept_servers :: "'y numbered list \<Rightarrow> 'y numbered list" where
  "kept_servers = filter (\<lambda>(i, srv, sdk). discovers srv sdk)"

definition all_opened :: "'y numbered list \<Rightarrow> (nat \<times> mcp_context) set" where
  "all_opened xs = (\<Union>(i, srv, sdk) \<in> set xs. Pair i ` contexts_opened srv sdk)"

lemma all_opened_Cons: "all_opened ((i, srv, sdk) # xs) = Pair i ` contexts_opened srv sdk \<union> all_opened xs"
  by (simp add: all_opened_def)

lemma mcp_start_effect:
  assumes "\<forall>(i, srv, sdk) \<in> set xs. quiet_sdk sdk \<and> unconnected i w" and "distinct (map fst xs)"
  shows "\<exists>w' tools auto. mcp_start (map server_client xs) w = (w', Inr (tools, auto, map server_client (kept_servers xs)))
    \<and> mp_open w' = mp_open w \<union> all_opened xs
    \<and> (\<forall>i. mp_stack w' i = (if i \<in> fst ` set (kept_servers xs) then Some [TransportContext, SessionContext] else mp_stack w i))"
  using assms
proof (induction xs arbitrary: w)
  case (Cons x xs)
  obtain i srv sdk where x: "x = (i, srv, sdk)" by (metis prod_cases3)
  from Cons.prems x have q: "quiet_sdk sdk" "unconnected i w" "i \<notin> fst ` set xs" "distinct (map fst xs)" by auto
  have keep: "\<forall>(i, srv, sdk) \<in> set xs. quiet_sdk sdk \<and> unconnected i w1"
    if "mp_open w1 \<subseteq> mp_open w \<union> Pair i ` UNIV" "\<forall>j. j \<noteq> i \<longrightarrow> mp_stack w1 j = mp_stack w j" for w1 :: "'a mcp_process_scheme"
  proof (clarify, intro conjI)
    fix j srv' sdk' assume j: "(j, srv', sdk') \<in> set xs"
    then have "j \<noteq> i" using q(3) by force
    from unconnected_other [OF _ this that(1)] that(2) this j Cons.prems(1) show "quiet_sdk sdk'" "unconnected j w1" by auto
  qed
  show ?case
  proof (cases "discovers srv sdk")
    case True
    from attempt_connected [OF q(1) this, of i w, folded x] obtain w1 ts where a: "connect_and_discover (server_client x) w = (w1, Inr ts)"
      "mp_open w1 = mp_open w \<union> Pair i ` {TransportContext, SessionContext}"
      "mp_stack w1 = (mp_stack w)(i \<mapsto> [TransportContext, SessionContext])"
      by (elim exE conjE) (rule that)
    have "mp_open w1 \<subseteq> mp_open w \<union> Pair i ` UNIV" "\<forall>j. j \<noteq> i \<longrightarrow> mp_stack w1 j = mp_stack w j"
      using a(2,3) by auto
    from Cons.IH [OF keep [OF this] q(4)] obtain w' tools auto where
      "mcp_start (map server_client xs) w1 = (w', Inr (tools, auto, map server_client (kept_servers xs)))"
      "mp_open w' = mp_open w1 \<union> all_opened xs"
      "\<forall>i. mp_stack w' i = (if i \<in> fst ` set (kept_servers xs) then Some [TransportContext, SessionContext] else mp_stack w1 i)"
      by (elim exE conjE) (rule that)
    moreover have "kept_servers (x # xs) = x # kept_servers xs" "contexts_opened srv sdk = {TransportContext, SessionContext}"
      using True x by (simp_all add: kept_servers_def contexts_opened_def)
    ultimately show ?thesis using a x by (simp add: seq_def ret_def Un_assoc all_opened_Cons)
  next
    case False
    from attempt_skipped [OF q(1) this q(2), folded x] obtain w0 e w1 where a: "connect_and_discover (server_client x) w = (w0, Inl e)"
      "\<not> is_control_flow e" "suppress_exception (cl_aclose (server_client x)) w0 = (w1, Inr ())"
      "mp_open w1 = mp_open w \<union> Pair i ` left_open srv sdk" "mp_stack w1 = mp_stack w"
      by (elim exE conjE) (rule that)
    have "mp_open w1 \<subseteq> mp_open w \<union> Pair i ` UNIV" "\<forall>j. j \<noteq> i \<longrightarrow> mp_stack w1 j = mp_stack w j"
      using a(4,5) by auto
    from Cons.IH [OF keep [OF this] q(4)] obtain w' tools auto where
      "mcp_start (map server_client xs) w1 = (w', Inr (tools, auto, map server_client (kept_servers xs)))"
      "mp_open w' = mp_open w1 \<union> all_opened xs"
      "\<forall>i. mp_stack w' i = (if i \<in> fst ` set (kept_servers xs) then Some [TransportContext, SessionContext] else mp_stack w1 i)"
      by (elim exE conjE) (rule that)
    moreover have "kept_servers (x # xs) = kept_servers xs" "contexts_opened srv sdk = left_open srv sdk"
      using False x by (simp_all add: kept_servers_def contexts_opened_def)
    ultimately show ?thesis using a x by (simp add: seq_def ret_def Un_assoc all_opened_Cons)
  qed
qed (simp add: ret_def kept_servers_def all_opened_def)

lemma mcp_aclose_effect:
  assumes "\<forall>(i, srv, sdk) \<in> set xs. quiet_sdk sdk \<and> mp_stack w i = Some [TransportContext, SessionContext]" and "distinct (map fst xs)"
  shows "\<exists>w'. mcp_aclose (map server_client xs) w = (w', Inr ()) \<and> mp_open w' = mp_open w - fst ` set xs \<times> UNIV"
  using assms
proof (induction xs arbitrary: w)
  case (Cons x xs)
  obtain i srv sdk where x: "x = (i, srv, sdk)" by (metis prod_cases3)
  from Cons.prems x client_aclose_effect [of sdk i w] obtain w1 where w1: "client_aclose i sdk w = (w1, Inr ())"
    "mp_stack w1 = (mp_stack w)(i := None)" "mp_open w1 = mp_open w - Pair i ` {TransportContext, SessionContext}"
    by auto
  have "\<forall>(j, srv, sdk) \<in> set xs. quiet_sdk sdk \<and> mp_stack w1 j = Some [TransportContext, SessionContext]"
    using Cons.prems x w1(2) by force
  from Cons.IH [OF this] Cons.prems(2) obtain w' where "mcp_aclose (map server_client xs) w1 = (w', Inr ())"
    "mp_open w' = mp_open w1 - fst ` set xs \<times> UNIV" by auto
  moreover have "\<And>y. y = TransportContext \<or> y = SessionContext" by (case_tac y) simp_all
  ultimately show ?case
    using w1 x by (auto simp: mcp_aclose_def server_client_def seq_def suppress_exception_def except_exception_def)
qed (simp add: mcp_aclose_def)

section \<open>From start to shutdown\<close>

lemma alive_names:
  "length is = length servers \<Longrightarrow> map (cl_name \<circ> server_client) (kept_servers (zip is servers))
    = map (ms_name \<circ> fst) (filter (\<lambda>(srv, sdk). discovers srv sdk) servers)"
  by (induction "is" servers rule: list_induct2) (auto simp: kept_servers_def server_client_def)

lemma in_numbered: "(i, srv, sdk) \<in> set (zip [0 ..< length servers] servers) \<longleftrightarrow> i < length servers \<and> servers ! i = (srv, sdk)"
  by (auto simp: set_zip intro!: exI [of _ i])

lemma in_all_opened: "(i, x) \<in> all_opened xs \<longleftrightarrow> (\<exists>srv sdk. (i, srv, sdk) \<in> set xs \<and> x \<in> contexts_opened srv sdk)"
  by (force simp: all_opened_def)

lemma alive_ids: "i \<in> fst ` set (kept_servers xs) \<longleftrightarrow> (\<exists>srv sdk. (i, srv, sdk) \<in> set xs \<and> discovers srv sdk)"
  by (force simp: kept_servers_def)

lemma left_over:
  "all_opened (zip [0 ..< length servers] servers) - fst ` set (kept_servers (zip [0 ..< length servers] servers)) \<times> UNIV
    = {(i, x) |i x. i < length servers \<and> (case servers ! i of (srv, sdk) \<Rightarrow> x \<in> left_open srv sdk)}" (is "?l = ?r")
proof (rule set_eqI)
  fix p :: "nat \<times> mcp_context"
  obtain i x where p: "p = (i, x)" by fastforce
  show "p \<in> ?l \<longleftrightarrow> p \<in> ?r"
  proof (cases "i < length servers")
    case True
    obtain srv sdk where k: "servers ! i = (srv, sdk)" by fastforce
    have "p \<in> ?l \<longleftrightarrow> x \<in> contexts_opened srv sdk \<and> \<not> discovers srv sdk"
      using True k by (simp add: p in_all_opened alive_ids in_numbered)
    with True k show ?thesis by (auto simp: p contexts_opened_def left_open_def discovers_def)
  qed (simp add: p in_all_opened in_numbered)
qed

lemma start_and_close:
  assumes "\<forall>(srv, sdk) \<in> set servers. quiet_sdk sdk" and "mp_open w = {}" and "mp_stack w = Map.empty"
  shows "\<exists>w1 tools auto connected w2. mcp_start (mcp_init servers) w = (w1, Inr (tools, auto, connected))
    \<and> mcp_aclose connected w1 = (w2, Inr ())
    \<and> map cl_name connected = map (ms_name \<circ> fst) (filter (\<lambda>(srv, sdk). discovers srv sdk) servers)
    \<and> mp_open w2 = {(i, x) |i x. i < length servers \<and> (case servers ! i of (srv, sdk) \<Rightarrow> x \<in> left_open srv sdk)}"
proof -
  let ?xs = "zip [0 ..< length servers] servers"
  have q: "\<forall>(i, srv, sdk) \<in> set ?xs. quiet_sdk sdk \<and> unconnected i w"
    using assms by (auto simp: unconnected_def dest!: set_zip_rightD)
  have d: "distinct (map fst ?xs)" by simp
  obtain w1 tools auto where start: "mcp_start (mcp_init servers) w = (w1, Inr (tools, auto, map server_client (kept_servers ?xs)))"
    and opens: "mp_open w1 = all_opened ?xs"
    and stacks: "\<forall>i. mp_stack w1 i = (if i \<in> fst ` set (kept_servers ?xs) then Some [TransportContext, SessionContext] else None)"
    using mcp_start_effect [OF q d] assms(2,3) by (auto simp: mcp_init_def)
  have "\<forall>(i, srv, sdk) \<in> set (kept_servers ?xs). quiet_sdk sdk \<and> mp_stack w1 i = Some [TransportContext, SessionContext]"
    using q stacks by (force simp: kept_servers_def)
  moreover have "distinct (map fst (kept_servers ?xs))"
    using d by (simp add: kept_servers_def distinct_map_filter)
  ultimately obtain w2 where "mcp_aclose (map server_client (kept_servers ?xs)) w1 = (w2, Inr ())"
    "mp_open w2 = mp_open w1 - fst ` set (kept_servers ?xs) \<times> UNIV"
    using mcp_aclose_effect by blast
  with start opens left_over [of servers] alive_names [of "[0 ..< length servers]" servers] show ?thesis
    by (intro exI conjI) (assumption | simp)+
qed

end
