(* ===== verification/Union_Find.thy ===== *)
theory Union_Find
  imports Prelude
begin

text \<open>
  The union-find of \<open>jobs/dedup.py\<close>: \<open>find\<close> with path halving, \<open>union\<close>, and the clusters read off at the
  end, for indices below the length of the list \<open>parent\<close>. \<open>find\<close> is a \<open>while\<close> loop that follows the list, so
  its result is an option; the lists \<open>union\<close> builds have no cycles, and there it always returns.
\<close>

section \<open>Operations\<close>

partial_function (option) uf_find :: "nat list \<Rightarrow> nat \<Rightarrow> (nat \<times> nat list) option" where
  "uf_find parent x =
     (if parent ! x \<noteq> x
      then (let parent' = parent[x := parent ! (parent ! x)] in uf_find parent' (parent' ! x))
      else Some (x, parent))"

definition uf_union :: "nat list \<Rightarrow> nat \<Rightarrow> nat \<Rightarrow> nat list option" where
  "uf_union parent x y =
     (case uf_find parent x of
        None \<Rightarrow> None
      | Some (rx, parent) \<Rightarrow>
          (case uf_find parent y of
             None \<Rightarrow> None
           | Some (ry, parent) \<Rightarrow> Some (if rx \<noteq> ry then parent[rx := ry] else parent)))"

fun uf_unions :: "nat list \<Rightarrow> (nat \<times> nat) list \<Rightarrow> nat list option" where
  "uf_unions parent [] = Some parent"
| "uf_unions parent ((i, j) # edges) =
     (case uf_union parent i j of None \<Rightarrow> None | Some parent \<Rightarrow> uf_unions parent edges)"

text \<open>\<open>clusters[find(idx)].append(idx)\<close>, for each index.\<close>

fun uf_clusters :: "nat list \<Rightarrow> (nat \<times> nat list) list \<Rightarrow> nat list \<Rightarrow> (nat \<times> nat list) list option" where
  "uf_clusters parent clusters [] = Some clusters"
| "uf_clusters parent clusters (idx # idxs) =
     (case uf_find parent idx of
        None \<Rightarrow> None
      | Some (r, parent) \<Rightarrow>
          uf_clusters parent
            (dict_set r ((case map_of clusters r of None \<Rightarrow> [] | Some l \<Rightarrow> l) @ [idx]) clusters) idxs)"

definition merge_groups :: "nat \<Rightarrow> (nat \<times> nat) list \<Rightarrow> nat list list option" where
  "merge_groups n edges =
     (case uf_unions [0 ..< n] edges of
        None \<Rightarrow> None
      | Some parent \<Rightarrow>
          map_option (\<lambda>clusters. filter (\<lambda>idxs. length idxs \<ge> 2) (map snd clusters))
            (uf_clusters parent [] [0 ..< n]))"

section \<open>Invariant\<close>

text \<open>
  \<open>rep\<close> gives the root of each index and \<open>depth\<close> decreases along the list. Path halving keeps both, a union
  redirects the indices of one root to the other.
\<close>

definition uf_inv :: "nat list \<Rightarrow> (nat \<Rightarrow> nat) \<Rightarrow> (nat \<Rightarrow> nat) \<Rightarrow> bool" where
  "uf_inv parent rep depth \<longleftrightarrow> (\<forall>i < length parent. parent ! i < length parent \<and> rep i < length parent
     \<and> rep (parent ! i) = rep i \<and> parent ! rep i = rep i \<and> (parent ! i = i \<longrightarrow> rep i = i)
     \<and> (parent ! i \<noteq> i \<longrightarrow> depth (parent ! i) < depth i))"

lemma uf_inv_init: "uf_inv [0 ..< n] id depth"
  by (simp add: uf_inv_def)

lemma uf_invD:
  assumes "uf_inv parent rep depth" and "i < length parent"
  shows "parent ! i < length parent" "rep i < length parent" "rep (parent ! i) = rep i" "parent ! rep i = rep i"
    "parent ! i = i \<Longrightarrow> rep i = i" "parent ! i \<noteq> i \<Longrightarrow> depth (parent ! i) < depth i"
  using assms by (simp_all add: uf_inv_def)

lemma rep_rep: "uf_inv parent rep depth \<Longrightarrow> i < length parent \<Longrightarrow> rep (rep i) = rep i"
  by (metis uf_invD(2,4,5))

lemma uf_inv_halve:
  assumes inv: "uf_inv parent rep depth" and x: "x < length parent" "parent ! x \<noteq> x"
  shows "uf_inv (parent[x := parent ! (parent ! x)]) rep depth"
  unfolding uf_inv_def
proof (intro allI impI)
  fix i
  let ?p = "parent[x := parent ! (parent ! x)]"
  assume i: "i < length ?p"
  note px = uf_invD [OF inv x(1)] and ppx = uf_invD [OF inv uf_invD(1) [OF inv x(1)]]
  have dec: "depth (parent ! (parent ! x)) < depth x"
    using px(6) [OF x(2)] ppx(6) by (cases "parent ! (parent ! x) = parent ! x") auto
  have root: "rep i \<noteq> x"
    using uf_invD(4) [OF inv, of i] i x(2) by auto
  show "?p ! i < length ?p \<and> rep i < length ?p \<and> rep (?p ! i) = rep i \<and> ?p ! rep i = rep i
      \<and> (?p ! i = i \<longrightarrow> rep i = i) \<and> (?p ! i \<noteq> i \<longrightarrow> depth (?p ! i) < depth i)"
    using uf_invD [OF inv, of i] i px ppx dec root x by (cases "i = x") auto
qed

lemma uf_find_spec:
  assumes "uf_inv parent rep depth" and "x < length parent"
  shows "\<exists>parent'. uf_find parent x = Some (rep x, parent') \<and> uf_inv parent' rep depth \<and> length parent' = length parent"
  using assms
proof (induction "depth x" arbitrary: parent x rule: less_induct)
  case less
  show ?case
  proof (cases "parent ! x = x")
    case True
    with less.prems show ?thesis
      using uf_invD(5) [OF less.prems True] by (subst uf_find.simps) auto
  next
    case False
    let ?p = "parent[x := parent ! (parent ! x)]"
    note px = uf_invD [OF less.prems] and ppx = uf_invD [OF less.prems(1) uf_invD(1) [OF less.prems]]
    have "depth (?p ! x) < depth x"
      using px(6) [OF False] ppx(6) less.prems(2) by (cases "parent ! (parent ! x) = parent ! x") auto
    moreover have "rep (?p ! x) = rep x" and "?p ! x < length ?p"
      using less.prems(2) px ppx by simp_all
    ultimately show ?thesis
      using less.hyps [of "?p ! x" ?p] uf_inv_halve [OF less.prems False] False
      by (subst uf_find.simps) (simp add: Let_def)
  qed
qed

lemma uf_union_spec:
  assumes inv: "uf_inv parent rep depth" and xy: "x < length parent" "y < length parent"
  shows "\<exists>parent' depth'. uf_union parent x y = Some parent' \<and> length parent' = length parent
    \<and> uf_inv parent' (\<lambda>i. if rep i = rep x then rep y else rep i) depth'"
proof -
  obtain p1 where p1: "uf_find parent x = Some (rep x, p1)" "uf_inv p1 rep depth" "length p1 = length parent"
    using uf_find_spec [OF inv xy(1)] by blast
  obtain p2 where p2: "uf_find p1 y = Some (rep y, p2)" "uf_inv p2 rep depth" "length p2 = length parent"
    using uf_find_spec [OF p1(2), of y] xy(2) p1(3) by auto
  show ?thesis
  proof (cases "rep x = rep y")
    case True
    then have "(\<lambda>i. if rep i = rep x then rep y else rep i) = rep" by auto
    with True p1 p2 show ?thesis by (auto simp: uf_union_def)
  next
    case False
    let ?p = "p2[rep x := rep y]" and ?rep = "\<lambda>i. if rep i = rep x then rep y else rep i"
    let ?d = "\<lambda>i. if rep i = rep x then Suc (depth (rep y) + depth i) else depth i"
    have bnd: "rep x < length p2" "rep y < length p2" and rr: "rep (rep x) = rep x" "rep (rep y) = rep y"
      using uf_invD(2) [OF inv] rep_rep [OF inv] xy p2(3) by simp_all
    have roots: "p2 ! rep y = rep y"
      using uf_invD(4) [OF p2(2)] xy p2(3) by simp
    have "uf_inv ?p ?rep ?d"
      unfolding uf_inv_def
    proof (intro allI impI)
      fix i
      assume "i < length ?p"
      then have i: "i < length p2" by simp
      show "?p ! i < length ?p \<and> ?rep i < length ?p \<and> ?rep (?p ! i) = ?rep i \<and> ?p ! ?rep i = ?rep i
        \<and> (?p ! i = i \<longrightarrow> ?rep i = i) \<and> (?p ! i \<noteq> i \<longrightarrow> ?d (?p ! i) < ?d i)"
      proof (cases "i = rep x")
        case True
        with False bnd rr roots show ?thesis by (simp add: nth_list_update)
      next
        case neq: False
        with uf_invD [OF p2(2) i] i bnd rr roots False show ?thesis
          by (auto simp: nth_list_update)
      qed
    qed
    with False p1 p2 show ?thesis
      unfolding uf_union_def by auto
  qed
qed

section \<open>Connected components\<close>

text \<open>The indices connected by the given edges.\<close>

definition linked :: "(nat \<times> nat) list \<Rightarrow> (nat \<times> nat) set" where
  "linked edges = (set edges \<union> (set edges)\<inverse>)\<^sup>*"

lemma linked_refl [simp]: "(i, i) \<in> linked edges"
  by (simp add: linked_def)

lemma linked_sym: "(i, j) \<in> linked edges \<Longrightarrow> (j, i) \<in> linked edges"
proof -
  have "sym (set edges \<union> (set edges)\<inverse>)" by (auto simp: sym_def)
  from sym_rtrancl [OF this] show "(i, j) \<in> linked edges \<Longrightarrow> (j, i) \<in> linked edges"
    by (auto simp: linked_def sym_def)
qed

lemma linked_trans: "(i, j) \<in> linked edges \<Longrightarrow> (j, k) \<in> linked edges \<Longrightarrow> (i, k) \<in> linked edges"
  by (auto simp: linked_def)

lemma linked_edge: "(i, j) \<in> set edges \<Longrightarrow> (i, j) \<in> linked edges"
  by (auto simp: linked_def)

lemma linked_mono: "set edges \<subseteq> set edges' \<Longrightarrow> linked edges \<subseteq> linked edges'"
  unfolding linked_def by (intro rtrancl_mono) auto

text \<open>A map of the indices is constant on linked ones when it is on the ends of every edge.\<close>

lemma linked_const:
  assumes "(i, j) \<in> linked edges" and "\<forall>(a, b) \<in> set edges. f a = f b"
  shows "f i = f j"
  using assms(1) unfolding linked_def
  by (induction rule: rtrancl_induct) (use assms(2) in auto)

lemma uf_unions_spec:
  assumes "uf_inv parent rep depth" and "\<forall>(i, j) \<in> set edges. i < length parent \<and> j < length parent"
    and "\<forall>i < length parent. (i, rep i) \<in> linked done"
  shows "\<exists>parent' rep' depth'. uf_unions parent edges = Some parent' \<and> length parent' = length parent
    \<and> uf_inv parent' rep' depth' \<and> (\<forall>i < length parent. (i, rep' i) \<in> linked (done @ edges))
    \<and> (\<forall>i j. rep i = rep j \<longrightarrow> rep' i = rep' j) \<and> (\<forall>(i, j) \<in> set edges. rep' i = rep' j)"
  using assms
proof (induction parent edges arbitrary: rep depth "done" rule: uf_unions.induct)
  case (1 parent)
  then show ?case by auto
next
  case (2 parent i j edges)
  have ij: "i < length parent" "j < length parent"
    using "2.prems"(2) by auto
  let ?rep = "\<lambda>k. if rep k = rep i then rep j else rep k"
  obtain p d where p: "uf_union parent i j = Some p" "length p = length parent" "uf_inv p ?rep d"
    using uf_union_spec [OF "2.prems"(1) ij] by blast
  have sub: "linked done \<subseteq> linked (done @ [(i, j)])"
    by (intro linked_mono) auto
  have e: "(i, j) \<in> linked (done @ [(i, j)])"
    by (intro linked_edge) simp
  have rep: "\<forall>k < length p. (k, ?rep k) \<in> linked (done @ [(i, j)])"
  proof (intro allI impI)
    fix k
    assume k: "k < length p"
    have l: "(m, rep m) \<in> linked (done @ [(i, j)])" if "m < length p" for m
      using "2.prems"(3) that p(2) sub by auto
    show "(k, ?rep k) \<in> linked (done @ [(i, j)])"
    proof (cases "rep k = rep i")
      case True
      have "(k, i) \<in> linked (done @ [(i, j)])"
        using linked_trans [OF l [OF k]] linked_sym [OF l [of i]] True ij p(2) by simp
      from linked_trans [OF linked_trans [OF this e] l [of j]] ij p(2) True show ?thesis by simp
    qed (use l [OF k] in simp)
  qed
  have bnd: "\<forall>(i, j) \<in> set edges. i < length p \<and> j < length p"
    using "2.prems"(2) p(2) by simp
  from "2.IH" [OF p(1) p(3) bnd rep] obtain p' rep' d' where p': "uf_unions p edges = Some p'" "length p' = length p" "uf_inv p' rep' d'"
    "\<forall>k < length p. (k, rep' k) \<in> linked ((done @ [(i, j)]) @ edges)"
    "\<forall>k l. ?rep k = ?rep l \<longrightarrow> rep' k = rep' l" "\<forall>(k, l) \<in> set edges. rep' k = rep' l"
    by (elim exE conjE) (rule that; assumption)
  have ij': "rep' i = rep' j"
    using p'(5) by auto
  have mono: "\<forall>k l. rep k = rep l \<longrightarrow> rep' k = rep' l"
  proof (intro allI impI)
    fix k l
    assume "rep k = rep l"
    then have "?rep k = ?rep l" by simp
    with p'(5) show "rep' k = rep' l" by blast
  qed
  show ?case
  proof (intro exI conjI)
    show "uf_unions parent ((i, j) # edges) = Some p'" and "length p' = length parent"
      using p(1,2) p'(1,2) by simp_all
    show "\<forall>k < length parent. (k, rep' k) \<in> linked (done @ (i, j) # edges)"
      using p'(4) p(2) by simp
    show "\<forall>(k, l) \<in> set ((i, j) # edges). rep' k = rep' l"
      using p'(6) ij' by simp
  qed (rule p'(3), rule mono)
qed

section \<open>Clusters\<close>

text \<open>What the dictionary holds after the indices \<open>idxs\<close>: under each root of one of them, its indices in order.\<close>

definition clusters_of :: "(nat \<Rightarrow> nat) \<Rightarrow> nat list \<Rightarrow> nat \<Rightarrow> nat list option" where
  "clusters_of rep idxs r = (let g = filter (\<lambda>i. rep i = r) idxs in if g = [] then None else Some g)"

lemma uf_clusters_spec:
  assumes "uf_inv parent rep depth" and "\<forall>i \<in> set idxs. i < length parent"
    and "dict_ok clusters" and "map_of clusters = clusters_of rep before"
  shows "\<exists>clusters'. uf_clusters parent clusters idxs = Some clusters' \<and> dict_ok clusters'
    \<and> map_of clusters' = clusters_of rep (before @ idxs)"
  using assms
proof (induction idxs arbitrary: parent clusters before)
  case Nil
  then show ?case by simp
next
  case (Cons idx idxs)
  obtain p where p: "uf_find parent idx = Some (rep idx, p)" "uf_inv p rep depth" "length p = length parent"
    using uf_find_spec [OF Cons.prems(1), of idx] Cons.prems(2) by auto
  let ?cl = "dict_set (rep idx) ((case map_of clusters (rep idx) of None \<Rightarrow> [] | Some l \<Rightarrow> l) @ [idx]) clusters"
  have "map_of ?cl = clusters_of rep (before @ [idx])"
    by (auto simp: fun_eq_iff dict_simps Cons.prems(4) clusters_of_def Let_def)
  moreover have "dict_ok ?cl"
    using Cons.prems(3) by (rule dict_ok_set)
  ultimately show ?case
    using Cons.IH [OF p(2), of ?cl "before @ [idx]"] Cons.prems(2) p by simp
qed

text \<open>The groups are the connected components with at least two members, each once, its members in order.\<close>

lemma merge_groups_spec:
  assumes "\<forall>(i, j) \<in> set edges. i < n \<and> j < n"
  shows "\<exists>groups. merge_groups n edges = Some groups \<and> distinct groups
    \<and> (\<forall>g. g \<in> set groups \<longleftrightarrow> (\<exists>i < n. g = filter (\<lambda>j. (i, j) \<in> linked edges) [0 ..< n]) \<and> 2 \<le> length g)"
proof -
  obtain parent rep depth where u: "uf_unions [0 ..< n] edges = Some parent" "length parent = n" "uf_inv parent rep depth"
    "\<forall>i < n. (i, rep i) \<in> linked edges" "\<forall>(i, j) \<in> set edges. rep i = rep j"
  proof -
    have "\<forall>(i, j) \<in> set edges. i < length [0 ..< n] \<and> j < length [0 ..< n]"
      and "\<forall>i < length [0 ..< n]. (i, id i) \<in> linked []"
      using assms by simp_all
    from uf_unions_spec [OF uf_inv_init this] obtain parent rep depth where "uf_unions [0 ..< n] edges = Some parent"
      "length parent = length [0 ..< n]" "uf_inv parent rep depth"
      "\<forall>i < length [0 ..< n]. (i, rep i) \<in> linked ([] @ edges)" "\<forall>(i, j) \<in> set edges. rep i = rep j"
      by (elim exE conjE) (rule that; assumption)
    then show thesis
      by (intro that) simp_all
  qed
  have eq: "rep i = rep j \<longleftrightarrow> (i, j) \<in> linked edges" if "i < n" "j < n" for i j
  proof
    assume "rep i = rep j"
    with u(4) that have "(i, rep j) \<in> linked edges" by metis
    from linked_trans [OF this linked_sym] u(4) that show "(i, j) \<in> linked edges" by blast
  qed (rule linked_const [OF _ u(5)])
  obtain cl where cl: "uf_clusters parent [] [0 ..< n] = Some cl" "dict_ok cl" "map_of cl = clusters_of rep [0 ..< n]"
    using uf_clusters_spec [OF u(3), of "[0 ..< n]" "[]" "[]"] u(2) by (auto simp: clusters_of_def fun_eq_iff)
  have mem: "(r, g) \<in> set cl \<longleftrightarrow> g = filter (\<lambda>i. rep i = r) [0 ..< n] \<and> g \<noteq> []" for r g
    using map_of_in_set [OF cl(2), of r g] by (auto simp: cl(3) clusters_of_def Let_def split: if_splits)
  have snd_cl: "g \<in> snd ` set cl \<longleftrightarrow> (\<exists>i < n. g = filter (\<lambda>j. (i, j) \<in> linked edges) [0 ..< n])" for g
  proof
    assume "g \<in> snd ` set cl"
    then obtain r where "(r, g) \<in> set cl" by force
    then have g: "g = filter (\<lambda>i. rep i = r) [0 ..< n]" "g \<noteq> []" using mem by blast+
    then obtain i where i: "i < n" "rep i = r" by (auto simp: filter_empty_conv)
    with g eq have "g = filter (\<lambda>j. (i, j) \<in> linked edges) [0 ..< n]"
      by (auto intro!: filter_cong dest: linked_sym)
    with i show "\<exists>i < n. g = filter (\<lambda>j. (i, j) \<in> linked edges) [0 ..< n]" by blast
  next
    assume "\<exists>i < n. g = filter (\<lambda>j. (i, j) \<in> linked edges) [0 ..< n]"
    then obtain i where i: "i < n" "g = filter (\<lambda>j. (i, j) \<in> linked edges) [0 ..< n]" by blast
    then have "g = filter (\<lambda>j. rep j = rep i) [0 ..< n]"
      using eq by (auto intro!: filter_cong dest: linked_sym)
    moreover have "i \<in> set (filter (\<lambda>j. rep j = rep i) [0 ..< n])" using i(1) by simp
    then have "filter (\<lambda>j. rep j = rep i) [0 ..< n] \<noteq> []" by (metis empty_iff empty_set)
    ultimately have "(rep i, g) \<in> set cl" using mem by metis
    then show "g \<in> snd ` set cl" by force
  qed
  have "inj_on snd (set cl)"
  proof (rule inj_onI, clarify)
    fix r g r' g'
    assume a: "(r, g) \<in> set cl" "(r', g') \<in> set cl" and e: "snd (r, g) = snd (r', g')"
    from e have "g = g'" by simp
    from a mem have g: "g = filter (\<lambda>i. rep i = r) [0 ..< n]" "g' = filter (\<lambda>i. rep i = r') [0 ..< n]" "g \<noteq> []"
      by blast+
    from g(3) have "hd g \<in> set g" "hd g \<in> set g'" using \<open>g = g'\<close> by simp_all
    then have "rep (hd g) = r" "rep (hd g) = r'" by (simp only: g set_filter mem_Collect_eq, simp only: g set_filter mem_Collect_eq)
    with \<open>g = g'\<close> show "r = r' \<and> g = g'" by simp
  qed
  then have "distinct (map snd cl)"
    using cl(2) by (simp add: distinct_map)
  with u(1) cl(1) snd_cl show ?thesis
    by (intro exI [of _ "filter (\<lambda>g. 2 \<le> length g) (map snd cl)"]) (auto simp: merge_groups_def)
qed

end
