(* ===== verification/Jobs.thy ===== *)
theory Jobs
  imports Episodic_Memory Union_Find
begin

text \<open>
  \<open>jobs/dedup.py\<close> and \<open>jobs/resummarize.py\<close>: the offline jobs over a user's episodic points. llm_kit's batch
  runner and the embedder's batch call are external: given the items, they act on the world and return the
  results they streamed; an answer that is not there stands for a failed item. \<open>uuid5\<close> is a parameter. The
  store is read page by page (\<open>Vector_Store\<close>); with the default page size that always ends.
\<close>

record 'm batch_item =
  bi_id :: pystr
  bi_messages :: "message list"
  bi_metadata :: 'm

record 'm batch_answer =
  br_id :: pystr
  br_text :: "pystr option"
  br_metadata :: 'm

type_synonym ('x, 'm) batch_runner = "int \<Rightarrow> 'm batch_item list \<Rightarrow> ('x, 'm batch_answer list) wio"
type_synonym 'x batch_embedder = "(pystr \<times> pystr) list \<Rightarrow> ('x, (pystr \<times> real list option) list) wio"

definition all_user_points :: "vector_store \<Rightarrow> pystr \<Rightarrow> pystr option \<Rightarrow> memory_point list" where
  "all_user_points s user_id kind = (case load_all_user_points s user_id kind 256 of Some ps \<Rightarrow> ps | None \<Rightarrow> [])"

lemma all_user_points_returns: "load_all_user_points s u kind 256 = Some (list_candidates s u kind)"
  using load_pages_from [of 256 0 s u kind "[]"] by (simp add: load_all_user_points_def load_pages_first)

lemma all_user_points_eq [simp]: "all_user_points s u kind = list_candidates s u kind"
  by (simp add: all_user_points_def all_user_points_returns)

text \<open>The answers by id, and the vectors by id: later ones overwrite earlier ones.\<close>

fun answers_dict :: "(pystr \<times> (pystr \<times> 'm)) list \<Rightarrow> 'm batch_answer list \<Rightarrow> (pystr \<times> (pystr \<times> 'm)) list" where
  "answers_dict d [] = d"
| "answers_dict d (br # brs) =
     answers_dict (case br_text br of None \<Rightarrow> d | Some txt \<Rightarrow> dict_set (br_id br) (txt, br_metadata br) d) brs"

fun vectors_dict :: "(pystr \<times> real list) list \<Rightarrow> (pystr \<times> real list option) list \<Rightarrow> (pystr \<times> real list) list" where
  "vectors_dict d [] = d"
| "vectors_dict d ((i, v) # ers) = vectors_dict (case v of None \<Rightarrow> d | Some vec \<Rightarrow> dict_set i vec d) ers"

section \<open>Deduplication\<close>

record dedup_meta =
  dm_conv_ids :: "pystr list"
  dm_source_points :: "pystr list"

record dedup_result =
  clusters_found :: int
  clusters_merged :: int
  points_deleted :: int

definition no_dedup :: dedup_result where
  "no_dedup = \<lparr>clusters_found = 0, clusters_merged = 0, points_deleted = 0\<rparr>"

record 'x dedup_job =
  dj_cfg :: deduplication_config
  dj_numpy :: numpy
  dj_run_batch :: "('x, dedup_meta) batch_runner"
  dj_embed_batch :: "'x batch_embedder"
  dj_uuid5 :: "pystr \<Rightarrow> pystr"
  dj_store_retry :: retry_policy
  dj_rnd :: "nat \<Rightarrow> real"

definition MERGE_SYSTEM_PROMPT :: pystr where
  "MERGE_SYSTEM_PROMPT = py ''You are given two or more summaries of past conversations from the same user. '' @
     py ''They cover very similar topics. Produce a single merged summary that preserves '' @
     py ''all distinct facts, decisions, and discussion threads from all of them. '' @
     py ''Remove exact repetitions. Keep it under 300 words. '' @
     py ''Write in the same neutral third-person style as the inputs.''"

text \<open>The normed vector; a zero norm counts as \<open>1e-10\<close>.\<close>

definition normed :: "numpy \<Rightarrow> memory_point \<Rightarrow> real list" where
  "normed np p = (let n = np_norm np (mp_vector p); n = (if n = 0 then 1 / 10 ^ 10 else n)
     in map (\<lambda>x. x / n) (mp_vector p))"

definition similar_edges :: "numpy \<Rightarrow> real \<Rightarrow> memory_point list \<Rightarrow> (nat \<times> nat) list" where
  "similar_edges np threshold ps =
     concat (map (\<lambda>i. map (\<lambda>j. (i, j))
       (filter (\<lambda>j. np_dot np (normed np (ps ! i)) (normed np (ps ! j)) \<ge> threshold) [Suc i ..< length ps]))
       [0 ..< length ps])"

definition dedup_groups :: "numpy \<Rightarrow> real \<Rightarrow> memory_point list \<Rightarrow> nat list list" where
  "dedup_groups np threshold ps =
     (case merge_groups (length ps) (similar_edges np threshold ps) of Some gs \<Rightarrow> gs | None \<Rightarrow> [])"

text \<open>\<open>p.payload.get("conversation_id", p.id)\<close>; the code stores only strings there.\<close>

definition conv_id_of :: "memory_point \<Rightarrow> pystr" where
  "conv_id_of p = (case map_of (mp_payload p) (py ''conversation_id'') of Some (JStr c) \<Rightarrow> c | _ \<Rightarrow> mp_id p)"

definition merge_id :: "(pystr \<Rightarrow> pystr) \<Rightarrow> pystr list \<Rightarrow> pystr" where
  "merge_id uuid5 conv_ids = uuid5 (join (py '':'') (sort conv_ids))"

definition dedup_item :: "(pystr \<Rightarrow> pystr) \<Rightarrow> memory_point list \<Rightarrow> dedup_meta batch_item" where
  "dedup_item uuid5 grp =
     (let conv_ids = map conv_id_of grp;
          combined = join (nl @ nl @ py ''---'' @ nl @ nl) (map (\<lambda>p. payload_text (mp_payload p)) grp)
      in \<lparr>bi_id = merge_id uuid5 conv_ids, bi_messages = [MSystem MERGE_SYSTEM_PROMPT, MUser combined],
          bi_metadata = \<lparr>dm_conv_ids = conv_ids, dm_source_points = map mp_id grp\<rparr>\<rparr>)"

text \<open>\<open>moment_index.get(cid, [])\<close>.\<close>

definition moment_siblings :: "memory_point list \<Rightarrow> pystr \<Rightarrow> pystr list" where
  "moment_siblings moments cid = (if cid = [] then []
     else map mp_id (filter (\<lambda>m. map_of (mp_payload m) (py ''conversation_id'') = Some (JStr cid)) moments))"

definition dedup_id :: "pystr \<Rightarrow> pystr" where
  "dedup_id bid = py ''dedup:'' @ bid"

definition min_or :: "real \<Rightarrow> real list \<Rightarrow> real" where
  "min_or dflt ts = (case ts of [] \<Rightarrow> dflt | t # ts \<Rightarrow> fold min ts t)"

definition merged_point :: "pystr \<Rightarrow> memory_point list \<Rightarrow> pystr \<Rightarrow> pystr \<Rightarrow> dedup_meta \<Rightarrow> real list \<Rightarrow> real \<Rightarrow> memory_point" where
  "merged_point user_id conv_points bid txt meta vec now =
     (let source_points = filter (\<lambda>p. mp_id p \<in> set (dm_source_points meta)) conv_points;
          oldest_ts = min_or now (map (point_ts now) source_points)
      in \<lparr>mp_id = dedup_id bid, mp_vector = vec,
          mp_payload = [(py ''user_id'', JStr user_id), (py ''text'', JStr txt), (py ''kind'', JStr (py ''conversation'')),
            (py ''ts'', JFloat oldest_ts), (py ''source_conversation_ids'', JList (map JStr (dm_conv_ids meta)))]\<rparr>)"

definition dedup_deletions :: "memory_point list \<Rightarrow> dedup_meta \<Rightarrow> pystr list" where
  "dedup_deletions moments meta =
     dm_source_points meta @ concat (map (moment_siblings moments) (dm_conv_ids meta))"

fun dedup_commit :: "'x dedup_job \<Rightarrow> pystr \<Rightarrow> memory_point list \<Rightarrow> memory_point list \<Rightarrow> (pystr \<times> real list) list
    \<Rightarrow> dedup_result \<Rightarrow> (pystr \<times> (pystr \<times> dedup_meta)) list \<Rightarrow> ('x, dedup_result) wio" where
  "dedup_commit j user_id conv_points moments vectors result [] w = (w, Inr result)"
| "dedup_commit j user_id conv_points moments vectors result ((bid, (txt, meta)) # rest) w =
     (case map_of vectors bid of
        None \<Rightarrow> dedup_commit j user_id conv_points moments vectors result rest w
      | Some vec \<Rightarrow>
          let merged = merged_point user_id conv_points bid txt meta vec (w_now w);
              to_delete = dedup_deletions moments meta
          in seq (retried_write (dj_store_retry j) (dj_rnd j) (py ''jobs.dedup.add'') (vectors_add [merged])) (\<lambda>_.
             seq (retried_write (dj_store_retry j) (dj_rnd j) (py ''jobs.dedup.delete'') (vectors_delete to_delete user_id)) (\<lambda>_.
             dedup_commit j user_id conv_points moments vectors
               (result\<lparr>clusters_merged := clusters_merged result + 1,
                       points_deleted := points_deleted result + int (length to_delete)\<rparr>) rest)) w)"

definition dedup_candidates :: "deduplication_config \<Rightarrow> memory_point list \<Rightarrow> memory_point list" where
  "dedup_candidates cfg conv_points =
     (if int (length conv_points) > dc_max_points_per_user cfg
      then slice (sort_desc (point_ts 0) conv_points) 0 (dc_max_points_per_user cfg)
      else conv_points)"

definition dedup_run_for_user :: "'x dedup_job \<Rightarrow> pystr \<Rightarrow> ('x, dedup_result) wio" where
  "dedup_run_for_user j user_id w =
     (let conv_points = dedup_candidates (dj_cfg j) (all_user_points (w_vectors w) user_id (Some (py ''conversation'')));
          moments = all_user_points (w_vectors w) user_id (Some (py ''moment''))
      in if length conv_points < 2 then (w, Inr no_dedup)
         else
           let groups = dedup_groups (dj_numpy j) (dc_similarity_threshold (dj_cfg j)) conv_points;
               result = no_dedup\<lparr>clusters_found := int (length groups)\<rparr>;
               items = map (\<lambda>g. dedup_item (dj_uuid5 j) (map (\<lambda>i. conv_points ! i) g)) groups
           in if groups = [] then (w, Inr result)
              else seq (dj_run_batch j (dc_worker_concurrency (dj_cfg j)) items) (\<lambda>brs.
                (let merge_texts = answers_dict [] brs
                 in if merge_texts = [] then ret result
                    else seq (dj_embed_batch j (map (\<lambda>(bid, (txt, _)). (bid, txt)) merge_texts)) (\<lambda>ers.
                           dedup_commit j user_id conv_points moments (vectors_dict [] ers) result merge_texts))) w)"

fun dedup_run_for_all :: "'x dedup_job \<Rightarrow> pystr list \<Rightarrow> ('x, dedup_result list) wio" where
  "dedup_run_for_all j [] w = (w, Inr [])"
| "dedup_run_for_all j (uid # uids) w =
     seq (except_exception (dedup_run_for_user j uid) (\<lambda>_. ret no_dedup)) (\<lambda>r.
       seq (dedup_run_for_all j uids) (\<lambda>rs. ret (r # rs))) w"

section \<open>Re-summarization\<close>

record resummarization_result =
  scanned :: int
  updated :: int
  skipped :: int

record 'x resummarize_job =
  rj_cfg :: resummarization_config
  rj_run_batch :: "('x, json) batch_runner"
  rj_embed_batch :: "'x batch_embedder"
  rj_store_retry :: retry_policy
  rj_rnd :: "nat \<Rightarrow> real"

definition RESUMMARIZE_SYSTEM_PROMPT :: pystr where
  "RESUMMARIZE_SYSTEM_PROMPT = py ''You are given a summary of a past conversation. '' @
     py ''Produce a condensed version that preserves the key topics, decisions, and '' @
     py ''discussion threads. Remove redundant context and keep it under 150 words. '' @
     py ''Write in the same neutral third-person style.''"

definition resummarize_eligible :: "resummarization_config \<Rightarrow> real \<Rightarrow> memory_point list \<Rightarrow> memory_point list" where
  "resummarize_eligible cfg now conv_points =
     (let cutoff = now - rc_min_age_days cfg * 86400;
          eligible = filter (\<lambda>p. point_ts now p \<le> cutoff) conv_points
      in if int (length eligible) > rc_max_points_per_user cfg then slice eligible 0 (rc_max_points_per_user cfg) else eligible)"

definition resummarize_item :: "real \<Rightarrow> memory_point \<Rightarrow> json batch_item" where
  "resummarize_item now p =
     \<lparr>bi_id = mp_id p, bi_messages = [MSystem RESUMMARIZE_SYSTEM_PROMPT, MUser (payload_text (mp_payload p))],
      bi_metadata = (case map_of (mp_payload p) (py ''ts'') of None \<Rightarrow> JFloat now | Some ts \<Rightarrow> ts)\<rparr>"

definition refreshed_point :: "real \<Rightarrow> memory_point \<Rightarrow> pystr \<Rightarrow> json \<Rightarrow> real list \<Rightarrow> memory_point" where
  "refreshed_point now orig txt original_ts vec =
     \<lparr>mp_id = mp_id orig, mp_vector = vec,
      mp_payload = dict_set (py ''resummarized_at'') (JFloat now)
        (dict_set (py ''ts'') original_ts (dict_set (py ''text'') (JStr txt) (mp_payload orig)))\<rparr>"

text \<open>\<open>point_by_id\<close>: the last of the eligible points with an id.\<close>

fun refreshed_points :: "real \<Rightarrow> memory_point list \<Rightarrow> (pystr \<times> real list) list \<Rightarrow> (pystr \<times> (pystr \<times> json)) list
    \<Rightarrow> memory_point list res" where
  "refreshed_points now eligible vectors [] = Inr []"
| "refreshed_points now eligible vectors ((pid, (txt, original_ts)) # rest) =
     (case map_of vectors pid of
        None \<Rightarrow> refreshed_points now eligible vectors rest
      | Some vec \<Rightarrow>
          (case find (\<lambda>p. mp_id p = pid) (rev eligible) of
             None \<Rightarrow> Inl (KeyError pid)
           | Some orig \<Rightarrow>
               (case refreshed_points now eligible vectors rest of
                  Inl e \<Rightarrow> Inl e
                | Inr ps \<Rightarrow> Inr (refreshed_point now orig txt original_ts vec # ps))))"

definition resummarize_run_for_user :: "'x resummarize_job \<Rightarrow> pystr \<Rightarrow> ('x, resummarization_result) wio" where
  "resummarize_run_for_user j user_id w =
     (let now = w_now w;
          conv_points = all_user_points (w_vectors w) user_id (Some (py ''conversation''));
          eligible = resummarize_eligible (rj_cfg j) now conv_points;
          result = \<lparr>scanned = int (length conv_points), updated = 0,
                    skipped = int (length conv_points) - int (length eligible)\<rparr>
      in if eligible = [] then (w, Inr result)
         else seq (rj_run_batch j (rc_worker_concurrency (rj_cfg j)) (map (resummarize_item now) eligible)) (\<lambda>brs.
           (let fresh_texts = answers_dict [] brs
            in if fresh_texts = [] then ret result
               else seq (rj_embed_batch j (map (\<lambda>(pid, (txt, _)). (pid, txt)) fresh_texts)) (\<lambda>ers.
                 (case refreshed_points now eligible (vectors_dict [] ers) fresh_texts of
                    Inl e \<Rightarrow> throw e
                  | Inr updated_points \<Rightarrow>
                      if updated_points = [] then ret result
                      else seq (retried_write (rj_store_retry j) (rj_rnd j) (py ''jobs.resummarize.add'') (vectors_add updated_points))
                             (\<lambda>_. ret (result\<lparr>updated := int (length updated_points)\<rparr>)))))) w)"

fun resummarize_run_for_all :: "'x resummarize_job \<Rightarrow> pystr list \<Rightarrow> ('x, resummarization_result list) wio" where
  "resummarize_run_for_all j [] w = (w, Inr [])"
| "resummarize_run_for_all j (uid # uids) w =
     seq (except_exception (resummarize_run_for_user j uid) (\<lambda>_. ret \<lparr>scanned = 0, updated = 0, skipped = 0\<rparr>)) (\<lambda>r.
       seq (resummarize_run_for_all j uids) (\<lambda>rs. ret (r # rs))) w"

section \<open>What the jobs do to the store\<close>

lemma set_similar_edges: "(i, j) \<in> set (similar_edges np threshold ps) \<longleftrightarrow>
    i < j \<and> j < length ps \<and> threshold \<le> np_dot np (normed np (ps ! i)) (normed np (ps ! j))"
  by (auto simp: similar_edges_def intro!: bexI [of _ i])

lemma dedup_groups_spec:
  "merge_groups (length ps) (similar_edges np threshold ps) = Some (dedup_groups np threshold ps)
    \<and> distinct (dedup_groups np threshold ps)
    \<and> (\<forall>g. g \<in> set (dedup_groups np threshold ps) \<longleftrightarrow>
         (\<exists>i < length ps. g = filter (\<lambda>j. (i, j) \<in> linked (similar_edges np threshold ps)) [0 ..< length ps]) \<and> 2 \<le> length g)"
proof -
  have "\<forall>(i, j) \<in> set (similar_edges np threshold ps). i < length ps \<and> j < length ps"
    using set_similar_edges [of _ _ np threshold ps] by fastforce
  from merge_groups_spec [OF this] show ?thesis
    by (auto simp: dedup_groups_def)
qed

text \<open>A write of points and a deletion, with the retries left out.\<close>

lemma retried_add:
  "0 \<le> max_retries policy \<Longrightarrow> retried_write policy rnd operation (vectors_add ps) w = (w\<lparr>w_vectors := vs_add (w_vectors w) ps\<rparr>, Inr ())"
  by (rule retried_write_ok) (simp_all add: vectors_add_def)

lemma retried_delete:
  "0 \<le> max_retries policy \<Longrightarrow> retried_write policy rnd operation (vectors_delete ids u) w = (w\<lparr>w_vectors := vs_delete (w_vectors w) ids u\<rparr>, Inr ())"
  by (rule retried_write_ok) (simp_all add: vectors_delete_def)

text \<open>The ids a commit deletes: those of the clusters whose merged text got a vector.\<close>

definition committed :: "(pystr \<times> real list) list \<Rightarrow> (pystr \<times> (pystr \<times> dedup_meta)) list
    \<Rightarrow> (pystr \<times> (pystr \<times> dedup_meta)) list" where
  "committed vectors texts = filter (\<lambda>(bid, _). map_of vectors bid \<noteq> None) texts"

definition committed_deletions :: "memory_point list \<Rightarrow> (pystr \<times> real list) list \<Rightarrow> (pystr \<times> (pystr \<times> dedup_meta)) list \<Rightarrow> pystr set" where
  "committed_deletions moments vectors texts =
     (\<Union>(bid, (txt, meta)) \<in> set (committed vectors texts). set (dedup_deletions moments meta))"

lemma committed_Cons:
  "committed vectors ((bid, b) # texts) = (if map_of vectors bid = None then [] else [(bid, b)]) @ committed vectors texts"
  "committed_deletions moments vectors ((bid, (body, meta)) # texts) =
     (if map_of vectors bid = None then {} else set (dedup_deletions moments meta)) \<union> committed_deletions moments vectors texts"
  by (auto simp: committed_deletions_def committed_def)

definition after_merge :: "pystr \<Rightarrow> memory_point list \<Rightarrow> memory_point list \<Rightarrow> pystr \<Rightarrow> pystr \<Rightarrow> dedup_meta \<Rightarrow> real list \<Rightarrow> real
    \<Rightarrow> vector_store \<Rightarrow> vector_store" where
  "after_merge u cps moments bid body meta vec now s =
     vs_delete (vs_add s [merged_point u cps bid body meta vec now]) (dedup_deletions moments meta) u"

lemma after_merge_get: "map_of (after_merge u cps moments bid body meta vec now s) pid =
    (case if pid = dedup_id bid then Some (merged_point u cps bid body meta vec now) else map_of s pid of None \<Rightarrow> None
     | Some p \<Rightarrow> if pid \<in> set (dedup_deletions moments meta) \<and> owned_by u p then None else Some p)"
  by (simp add: after_merge_def vs_delete_get dict_simps merged_point_def Let_def)

lemma dedup_commit_Cons:
  assumes "0 \<le> max_retries (dj_store_retry j)"
  shows "dedup_commit j u cps moments vectors result ((bid, (body, meta)) # texts) w =
    (case map_of vectors bid of
       None \<Rightarrow> dedup_commit j u cps moments vectors result texts w
     | Some vec \<Rightarrow> dedup_commit j u cps moments vectors
         (result\<lparr>clusters_merged := clusters_merged result + 1,
                 points_deleted := points_deleted result + int (length (dedup_deletions moments meta))\<rparr>) texts
         (w\<lparr>w_vectors := after_merge u cps moments bid body meta vec (w_now w) (w_vectors w)\<rparr>))"
  by (simp add: Let_def seq_Inr [OF retried_add [OF assms]] seq_Inr [OF retried_delete [OF assms]] after_merge_def split: option.splits)

declare dedup_commit.simps(2) [simp del]

lemma dedup_commit_runs:
  assumes "0 \<le> max_retries (dj_store_retry j)"
  shows "\<exists>vs r. dedup_commit j u cps moments vectors result texts w = (w\<lparr>w_vectors := vs\<rparr>, Inr r)
    \<and> clusters_found r = clusters_found result
    \<and> clusters_merged r = clusters_merged result + int (length (committed vectors texts))"
proof (induction texts arbitrary: w result)
  case Nil
  show ?case
    by (intro exI [of _ "w_vectors w"] exI [of _ result]) (simp add: committed_def)
next
  case (Cons t texts)
  obtain bid body meta where t: "t = (bid, (body, meta))" by (cases t) auto
  show ?case
  proof (cases "map_of vectors bid")
    case None
    with Cons.IH [of result w] show ?thesis
      by (simp add: t dedup_commit_Cons [OF assms] committed_Cons)
  next
    case (Some vec)
    with Cons.IH [of "result\<lparr>clusters_merged := clusters_merged result + 1,
        points_deleted := points_deleted result + int (length (dedup_deletions moments meta))\<rparr>"
        "w\<lparr>w_vectors := after_merge u cps moments bid body meta vec (w_now w) (w_vectors w)\<rparr>"]
    show ?thesis
      by (simp add: t dedup_commit_Cons [OF assms] committed_Cons add.assoc)
  qed
qed

text \<open>Under an id that is not one of a merged point, a commit deletes the user's points it lists and nothing else.\<close>

lemma dedup_commit_others:
  assumes "0 \<le> max_retries (dj_store_retry j)"
    and "pid \<notin> (\<lambda>(bid, _). dedup_id bid) ` set (committed vectors texts)"
  shows "map_of (w_vectors (fst (dedup_commit j u cps moments vectors result texts w))) pid =
    (case map_of (w_vectors w) pid of None \<Rightarrow> None
     | Some p \<Rightarrow> if owned_by u p \<and> pid \<in> committed_deletions moments vectors texts then None else Some p)"
  using assms(2)
proof (induction texts arbitrary: w result)
  case Nil
  show ?case by (auto simp: committed_deletions_def committed_def split: option.splits)
next
  case (Cons t texts)
  obtain bid body meta where t: "t = (bid, (body, meta))" by (cases t) auto
  from Cons.prems have "pid \<notin> (\<lambda>(bid, _). dedup_id bid) ` set (committed vectors texts)"
    by (auto simp: t committed_Cons)
  note IH = Cons.IH [OF this]
  show ?case
  proof (cases "map_of vectors bid")
    case None
    then show ?thesis
      unfolding t committed_Cons by (auto simp: dedup_commit_Cons [OF assms(1)] IH split: option.splits)
  next
    case (Some vec)
    with Cons.prems have "pid \<noteq> dedup_id bid" by (simp add: t committed_Cons)
    with Some show ?thesis
      unfolding t committed_Cons by (auto simp: dedup_commit_Cons [OF assms(1)] IH after_merge_get split: option.splits)
  qed
qed

text \<open>A merged point that is not itself listed for deletion is there afterwards, with the merged text.\<close>

lemma dedup_id_inject [simp]: "dedup_id a = dedup_id b \<longleftrightarrow> a = b"
  by (simp add: dedup_id_def)

lemma dedup_commit_merged:
  assumes "0 \<le> max_retries (dj_store_retry j)" and "dict_ok texts" and "(bid, (body, meta)) \<in> set (committed vectors texts)"
    and "dedup_id bid \<notin> committed_deletions moments vectors texts"
  shows "\<exists>now. map_of (w_vectors (fst (dedup_commit j u cps moments vectors result texts w))) (dedup_id bid) =
    Some (merged_point u cps bid body meta (the (map_of vectors bid)) now)"
  using assms(2-4)
proof (induction texts arbitrary: w result)
  case Nil
  then show ?case by (simp add: committed_def)
next
  case (Cons t texts)
  obtain bid' body' meta' where t: "t = (bid', (body', meta'))" by (cases t) auto
  show ?case
  proof (cases "t = (bid, (body, meta))")
    case True
    have nin: "dedup_id bid \<notin> (\<lambda>(bid, _). dedup_id bid) ` set (committed vectors texts)"
      using Cons.prems(1) True by (auto simp: committed_def rev_image_eqI)
    from Cons.prems(2) True obtain vec where "map_of vectors bid = Some vec"
      by (cases "map_of vectors bid") (auto simp: committed_def)
    with Cons.prems(3) show ?thesis
      by (intro exI [of _ "w_now w"])
        (simp add: True dedup_commit_Cons [OF assms(1)] committed_Cons dedup_commit_others [OF assms(1) nin] after_merge_get)
  next
    case False
    with Cons.prems have "dict_ok texts" "(bid, (body, meta)) \<in> set (committed vectors texts)"
      "dedup_id bid \<notin> committed_deletions moments vectors texts"
      by (auto simp: t committed_Cons split: if_splits)
    from Cons.IH [OF this] show ?thesis
      by (simp add: t dedup_commit_Cons [OF assms(1)] split: option.splits)
  qed
qed

text \<open>The ids of merged points are none that \<open>forget_conversation\<close> tries.\<close>

lemma dedup_id_not_forgotten: "dedup_id bid \<notin> set (forget_ids cfg c)"
  by (auto simp: dedup_id_def forget_ids_def conv_id_def moment_id_def py_def)

section \<open>Refreshed points\<close>

lemma find_rev_dict: "find (\<lambda>p. mp_id p = i) ps = Some p \<Longrightarrow> p \<in> set ps \<and> mp_id p = i"
  by (auto simp: find_Some_iff)

lemma refreshed_point_keeps:
  "mp_id (refreshed_point now p body ts vec) = mp_id p"
  "k \<noteq> py ''text'' \<Longrightarrow> k \<noteq> py ''ts'' \<Longrightarrow> k \<noteq> py ''resummarized_at'' \<Longrightarrow>
     map_of (mp_payload (refreshed_point now p body ts vec)) k = map_of (mp_payload p) k"
  "map_of (mp_payload (refreshed_point now p body ts vec)) (py ''text'') = Some (JStr body)"
  "map_of (mp_payload (refreshed_point now p body ts vec)) (py ''ts'') = Some ts"
  by (simp_all add: refreshed_point_def dict_simps)

lemma refreshed_points_spec:
  "refreshed_points now eligible vectors texts = Inr ps \<Longrightarrow>
     map mp_id ps = map fst (filter (\<lambda>(pid, _). map_of vectors pid \<noteq> None) texts)
     \<and> (\<forall>q \<in> set ps. \<exists>p body ts vec. p \<in> set eligible \<and> (mp_id q, (body, ts)) \<in> set texts
          \<and> map_of vectors (mp_id q) = Some vec \<and> q = refreshed_point now p body ts vec)"
proof (induction now eligible vectors texts arbitrary: ps rule: refreshed_points.induct)
  case (2 now eligible vectors pid body original_ts rest)
  show ?case
  proof (cases "map_of vectors pid")
    case None
    with "2.prems" have "refreshed_points now eligible vectors rest = Inr ps" by simp
    from "2.IH"(1) [OF None this] None show ?thesis by simp blast
  next
    case (Some vec)
    with "2.prems" obtain orig ps' where o: "find (\<lambda>p. mp_id p = pid) (rev eligible) = Some orig"
      and ps': "refreshed_points now eligible vectors rest = Inr ps'"
      and ps: "ps = refreshed_point now orig body original_ts vec # ps'"
      by (auto split: option.splits sum.splits)
    have orig: "orig \<in> set eligible" "mp_id orig = pid"
      using find_rev_dict [OF o] by auto
    note IH = "2.IH"(2) [OF Some o ps']
    have "\<exists>p b ts vec. p \<in> set eligible \<and> (mp_id q, (b, ts)) \<in> set ((pid, (body, original_ts)) # rest)
        \<and> map_of vectors (mp_id q) = Some vec \<and> q = refreshed_point now p b ts vec" if "q \<in> set ps" for q
    proof (cases "q = refreshed_point now orig body original_ts vec")
      case True
      then have "mp_id q = pid" by (simp add: refreshed_point_keeps orig(2))
      with True orig(1) Some show ?thesis by (intro exI [of _ orig]) auto
    next
      case False
      with that have "q \<in> set ps'" by (simp add: ps)
      with IH show ?thesis by (meson list.set_intros(2))
    qed
    with IH Some show ?thesis
      by (simp add: ps refreshed_point_keeps orig(2))
  qed
qed simp

lemma answers_dict_mem:
  "(i, (body, meta)) \<in> set (answers_dict d brs) \<Longrightarrow> (i, (body, meta)) \<in> set d \<or>
     (\<exists>b \<in> set brs. br_id b = i \<and> br_text b = Some body \<and> br_metadata b = meta)"
proof (induction d brs rule: answers_dict.induct)
  case (2 d br brs)
  show ?case
  proof (cases "br_text br")
    case None
    with 2 show ?thesis by auto
  next
    case (Some t)
    with "2.IH" "2.prems" have "(i, (body, meta)) \<in> set (dict_set (br_id br) (t, br_metadata br) d) \<or>
        (\<exists>b \<in> set brs. br_id b = i \<and> br_text b = Some body \<and> br_metadata b = meta)"
      by simp
    moreover have "set (dict_set k v d) \<subseteq> insert (k, v) (set d)" for k and v :: "pystr \<times> 'a"
      by (induction d) auto
    ultimately show ?thesis
      using Some by fastforce
  qed
qed simp

lemma dict_ok_answers [simp]: "dict_ok d \<Longrightarrow> dict_ok (answers_dict d brs)"
  by (induction d brs rule: answers_dict.induct) (auto split: option.splits)

text \<open>The points of a user that are in some group of near-duplicates.\<close>

definition grouped_points :: "'x dedup_job \<Rightarrow> pystr \<Rightarrow> vector_store \<Rightarrow> memory_point set" where
  "grouped_points j u s = (let ps = dedup_candidates (dj_cfg j) (list_candidates s u (Some (py ''conversation'')))
     in (\<Union>g \<in> set (dedup_groups (dj_numpy j) (dc_similarity_threshold (dj_cfg j)) ps). (\<lambda>i. ps ! i) ` set g))"

text \<open>The ids a run may delete: those of grouped points and of the moments of their conversations.\<close>

definition dedup_scope :: "'x dedup_job \<Rightarrow> pystr \<Rightarrow> vector_store \<Rightarrow> pystr set" where
  "dedup_scope j u s = mp_id ` grouped_points j u s \<union>
     (\<Union>p \<in> grouped_points j u s. set (moment_siblings (list_candidates s u (Some (py ''moment''))) (conv_id_of p)))"

text \<open>What a run needs of its services: they leave the world alone and answer the items they were given.\<close>

definition faithful_services :: "'x dedup_job \<Rightarrow> bool" where
  "faithful_services j \<longleftrightarrow>
     (\<forall>n items w. \<exists>brs. dj_run_batch j n items w = (w, Inr brs)
        \<and> (\<forall>b \<in> set brs. \<exists>i \<in> set items. br_id b = bi_id i \<and> br_metadata b = bi_metadata i))
     \<and> (\<forall>items w. \<exists>ers. dj_embed_batch j items w = (w, Inr ers))"

lemma dedup_item_deletions: "set (dedup_deletions moments (bi_metadata (dedup_item uuid5 grp))) =
    mp_id ` set grp \<union> (\<Union>p \<in> set grp. set (moment_siblings moments (conv_id_of p)))"
  by (simp add: dedup_item_def Let_def dedup_deletions_def)

lemma dedup_item_scope:
  assumes "g \<in> set (dedup_groups (dj_numpy j) (dc_similarity_threshold (dj_cfg j)) ps)"
    and "ps = dedup_candidates (dj_cfg j) (list_candidates s u (Some (py ''conversation'')))"
  shows "set (dedup_deletions (list_candidates s u (Some (py ''moment'')))
      (bi_metadata (dedup_item (dj_uuid5 j) (map (\<lambda>i. ps ! i) g)))) \<subseteq> dedup_scope j u s"
proof -
  have "set (map (\<lambda>i. ps ! i) g) \<subseteq> grouped_points j u s"
    using assms(1) unfolding grouped_points_def Let_def assms(2) [symmetric] by auto
  then show ?thesis
    unfolding dedup_item_deletions dedup_scope_def by blast
qed

lemma dedup_run_spec:
  assumes "0 \<le> max_retries (dj_store_retry j)" and "faithful_services j"
  shows "\<exists>vs r. dedup_run_for_user j u w = (w\<lparr>w_vectors := vs\<rparr>, Inr r)
    \<and> (\<forall>pid. pid \<notin> range dedup_id \<longrightarrow> map_of vs pid = map_of (w_vectors w) pid
         \<or> (map_of vs pid = None \<and> pid \<in> dedup_scope j u (w_vectors w)
            \<and> (\<exists>p. map_of (w_vectors w) pid = Some p \<and> owned_by u p)))"
proof -
  let ?s = "w_vectors w"
  define ps where "ps = dedup_candidates (dj_cfg j) (list_candidates ?s u (Some (py ''conversation'')))"
  define moments where "moments = list_candidates ?s u (Some (py ''moment''))"
  define gs where "gs = dedup_groups (dj_numpy j) (dc_similarity_threshold (dj_cfg j)) ps"
  define items where "items = map (\<lambda>g. dedup_item (dj_uuid5 j) (map (\<lambda>i. ps ! i) g)) gs"
  define r0 where "r0 = no_dedup\<lparr>clusters_found := int (length gs)\<rparr>"
  have run: "dedup_run_for_user j u w =
     (if length ps < 2 then (w, Inr no_dedup) else if gs = [] then (w, Inr r0)
      else seq (dj_run_batch j (dc_worker_concurrency (dj_cfg j)) items) (\<lambda>brs.
             if answers_dict [] brs = [] then ret r0
             else seq (dj_embed_batch j (map (\<lambda>(bid, (txt, _)). (bid, txt)) (answers_dict [] brs))) (\<lambda>ers.
                    dedup_commit j u ps moments (vectors_dict [] ers) r0 (answers_dict [] brs))) w)"
    unfolding dedup_run_for_user_def Let_def all_user_points_eq ps_def moments_def gs_def items_def r0_def ..
  have unchanged: "w = w\<lparr>w_vectors := ?s\<rparr>" by simp
  obtain brs where brs: "dj_run_batch j (dc_worker_concurrency (dj_cfg j)) items w = (w, Inr brs)"
    "\<forall>b \<in> set brs. \<exists>i \<in> set items. br_id b = bi_id i \<and> br_metadata b = bi_metadata i"
    using assms(2) unfolding faithful_services_def by blast
  obtain ers where ers: "dj_embed_batch j (map (\<lambda>(bid, (txt, _)). (bid, txt)) (answers_dict [] brs)) w = (w, Inr ers)"
    using assms(2) unfolding faithful_services_def by blast
  show ?thesis
  proof (cases "length ps < 2 \<or> gs = [] \<or> answers_dict [] brs = []")
    case True
    then have "\<exists>r. dedup_run_for_user j u w = (w, Inr r)"
      unfolding run by (auto simp: seq_def brs(1) ret_apply)
    then show ?thesis by (metis unchanged)
  next
    case False
    let ?texts = "answers_dict [] brs"
    let ?vectors = "vectors_dict [] ers"
    have commit: "dedup_run_for_user j u w = dedup_commit j u ps moments ?vectors r0 ?texts w"
      using False unfolding run by (simp add: seq_def brs(1) ers)
    from dedup_commit_runs [OF assms(1)] obtain vs r where vs: "dedup_commit j u ps moments ?vectors r0 ?texts w = (w\<lparr>w_vectors := vs\<rparr>, Inr r)"
      by blast
    have scope: "committed_deletions moments ?vectors ?texts \<subseteq> dedup_scope j u ?s"
    proof
      fix pid
      assume "pid \<in> committed_deletions moments ?vectors ?texts"
      then obtain bid body meta where m: "(bid, (body, meta)) \<in> set ?texts" "pid \<in> set (dedup_deletions moments meta)"
        by (auto simp: committed_deletions_def committed_def)
      with answers_dict_mem [OF m(1)] brs(2) obtain it where "it \<in> set items" "meta = bi_metadata it"
        by fastforce
      then obtain g where "g \<in> set gs" "meta = bi_metadata (dedup_item (dj_uuid5 j) (map (\<lambda>i. ps ! i) g))"
        unfolding items_def by auto
      with m(2) dedup_item_scope [OF _ ps_def, of g] show "pid \<in> dedup_scope j u ?s"
        unfolding gs_def moments_def by blast
    qed
    have "map_of vs pid = map_of ?s pid \<or> (map_of vs pid = None \<and> pid \<in> dedup_scope j u ?s
        \<and> (\<exists>p. map_of ?s pid = Some p \<and> owned_by u p))" if "pid \<notin> range dedup_id" for pid
    proof -
      from that have "pid \<notin> (\<lambda>(bid, _). dedup_id bid) ` set (committed ?vectors ?texts)" by auto
      from dedup_commit_others [OF assms(1) this, of u ps moments r0 w] scope show ?thesis
        by (auto simp: vs split: option.splits if_splits)
    qed
    with commit vs show ?thesis by auto
  qed
qed

lemma set_list_candidates: "set (list_candidates s u kind) = {p \<in> snd ` set s. owned_by u p \<and> of_kind kind p}"
  by (auto simp: list_candidates_def)

lemma distinct_candidates:
  assumes "vs_ok s"
  shows "inj_on mp_id (set (list_candidates s u kind))"
proof (rule inj_onI)
  fix p q
  assume "p \<in> set (list_candidates s u kind)" "q \<in> set (list_candidates s u kind)" "mp_id p = mp_id q"
  then obtain i k where "(i, p) \<in> set s" "(k, q) \<in> set s" by (auto simp: set_list_candidates)
  moreover from this have "i = mp_id p" "k = mp_id q" using assms by (auto simp: vs_ok_def)
  ultimately show "p = q"
    using assms \<open>mp_id p = mp_id q\<close> by (auto simp: vs_ok_def dest: eq_key_imp_eq_value)
qed

lemma eligible_subset: "set (resummarize_eligible cfg now ps) \<subseteq> set ps"
  using set_slice by (fastforce simp: resummarize_eligible_def Let_def split: if_splits)

lemma refreshed_points_total:
  "fst ` set texts \<subseteq> mp_id ` set eligible \<Longrightarrow> \<exists>ps. refreshed_points now eligible vectors texts = Inr ps"
proof (induction now eligible vectors texts rule: refreshed_points.induct)
  case (2 now eligible vectors pid body ts rest)
  then obtain orig where orig: "find (\<lambda>p. mp_id p = pid) (rev eligible) = Some orig"
    by (cases "find (\<lambda>p. mp_id p = pid) (rev eligible)") (auto simp: find_None_iff)
  from "2.prems" have sub: "fst ` set rest \<subseteq> mp_id ` set eligible" by simp
  show ?case
  proof (cases "map_of vectors pid")
    case None
    from "2.IH"(1) [OF None sub] None show ?thesis by simp
  next
    case (Some vec)
    from "2.IH"(2) [OF Some orig sub] Some orig show ?thesis by auto
  qed
qed simp

lemma resummarize_spec:
  assumes "0 \<le> max_retries (rj_store_retry j)" and "vs_ok (w_vectors w)"
    and "eligible = resummarize_eligible (rj_cfg j) (w_now w) (list_candidates (w_vectors w) u (Some (py ''conversation'')))"
    and "rj_run_batch j (rc_worker_concurrency (rj_cfg j)) (map (resummarize_item (w_now w)) eligible) w = (w1, Inr brs)"
    and "\<forall>b \<in> set brs. br_id b \<in> mp_id ` set eligible"
    and "rj_embed_batch j (map (\<lambda>(pid, (body, _)). (pid, body)) (answers_dict [] brs)) w1 = (w2, Inr ers)"
    and "p \<in> set eligible" and "map_of (answers_dict [] brs) (mp_id p) = Some (body, ts)"
    and "map_of (vectors_dict [] ers) (mp_id p) = Some vec"
  shows "\<exists>vs r. resummarize_run_for_user j u w = (w2\<lparr>w_vectors := vs\<rparr>, Inr r)
    \<and> map_of vs (mp_id p) = Some (refreshed_point (w_now w) p body ts vec)
    \<and> (\<forall>pid. pid \<notin> mp_id ` set eligible \<longrightarrow> map_of vs pid = map_of (w_vectors w2) pid)"
proof -
  let ?texts = "answers_dict [] brs"
  let ?vectors = "vectors_dict [] ers"
  have sub: "fst ` set ?texts \<subseteq> mp_id ` set eligible"
  proof
    fix i
    assume "i \<in> fst ` set ?texts"
    then obtain b m where "(i, (b, m)) \<in> set ?texts" by auto
    from answers_dict_mem [OF this] assms(5) show "i \<in> mp_id ` set eligible" by auto
  qed
  obtain ps where ps: "refreshed_points (w_now w) eligible ?vectors ?texts = Inr ps"
    using refreshed_points_total [OF sub] by blast
  note spec = refreshed_points_spec [OF ps]
  have "mp_id p \<in> set (map mp_id ps)"
    unfolding conjunct1 [OF spec] using map_of_SomeD [OF assms(8)] assms(9) by force
  then obtain q where q: "find (\<lambda>x. mp_id x = mp_id p) (rev ps) = Some q"
    by (cases "find (\<lambda>x. mp_id x = mp_id p) (rev ps)") (auto simp: find_None_iff)
  have inj: "inj_on mp_id (set eligible)"
    unfolding assms(3) by (rule inj_on_subset [OF distinct_candidates [OF assms(2)] eligible_subset])
  have "q = refreshed_point (w_now w) p body ts vec"
  proof -
    have q': "q \<in> set ps" "mp_id q = mp_id p" using find_rev_dict [OF q] by auto
    with conjunct2 [OF spec] obtain p' body' ts' vec' where e: "p' \<in> set eligible" "(mp_id q, (body', ts')) \<in> set ?texts"
      "map_of ?vectors (mp_id q) = Some vec'" "q = refreshed_point (w_now w) p' body' ts' vec'"
      by blast
    then have "p' = p"
      using inj assms(7) q'(2) by (auto simp: refreshed_point_keeps inj_on_def)
    moreover have "(body', ts') = (body, ts)"
      using map_of_is_SomeI [OF _ e(2)] dict_ok_answers [of "[]" brs] assms(8) q'(2) by (metis list.simps(8) distinct.simps(1) option.inject)
    ultimately show ?thesis
      using e assms(9) q'(2) by simp
  qed
  moreover have "map_of (vs_add (w_vectors w2) ps) pid = map_of (w_vectors w2) pid" if "pid \<notin> mp_id ` set eligible" for pid
  proof -
    have "pid \<notin> set (map mp_id ps)"
      unfolding conjunct1 [OF spec] using that sub by auto
    then have "find (\<lambda>p. mp_id p = pid) (rev ps) = None"
      by (auto simp: find_None_iff)
    then show ?thesis by (simp add: vs_add_get)
  qed
  moreover have "eligible \<noteq> []" "?texts \<noteq> []" "ps \<noteq> []"
    using assms(7,8) q by auto
  then have "\<exists>r. resummarize_run_for_user j u w = (w2\<lparr>w_vectors := vs_add (w_vectors w2) ps\<rparr>, Inr r)"
    using assms(4,6) ps unfolding resummarize_run_for_user_def Let_def all_user_points_eq assms(3) [symmetric]
    by (simp add: seq_def retried_add [OF assms(1)] ret_apply)
  ultimately show ?thesis
    using q by (auto simp: vs_add_get)
qed

end
