(* ===== verification/Session_Codec.thy ===== *)
theory Session_Codec
  imports Store_Types
begin

text \<open>
  The JSON form of a session in \<open>stores/redis_session.py\<close>: \<open>_to_json\<close> before and \<open>_from_dict\<close> after
  \<open>json.dumps\<close> and \<open>json.loads\<close>, which are taken to be inverse to each other on these values. A missing
  required key is a \<open>KeyError\<close>, a value of another type than the code wrote a \<open>TypeError\<close>.
\<close>

section \<open>Encoding\<close>

definition json_opt :: "('a \<Rightarrow> json) \<Rightarrow> 'a option \<Rightarrow> json" where
  "json_opt f x = (case x of None \<Rightarrow> JNull | Some y \<Rightarrow> f y)"

definition call_to_json :: "tool_call \<Rightarrow> json" where
  "call_to_json tc = JObj [(py ''id'', JStr (tc_id tc)), (py ''name'', JStr (tc_name tc)), (py ''arguments'', JObj (tc_arguments tc))]"

definition turn_to_json :: "turn \<Rightarrow> json" where
  "turn_to_json t = JObj [(py ''role'', JStr (turn_role t)), (py ''text'', JStr (turn_text t)),
     (py ''tool_calls'', JList (map call_to_json (turn_tool_calls t))),
     (py ''tool_call_id'', json_opt JStr (turn_tool_call_id t)), (py ''ts'', JFloat (turn_ts t))]"

definition session_to_json :: "session_state \<Rightarrow> payload" where
  "session_to_json state = [(py ''user_id'', JStr (st_user_id state)),
     (py ''working_buffer'', JList (map turn_to_json (working_buffer state))),
     (py ''rolling_summary'', JStr (rolling_summary state)), (py ''model_name'', json_opt JStr (model_name state)),
     (py ''scratch'', JObj (scratch state)), (py ''updated_at'', JFloat (updated_at state)),
     (py ''finalized_at'', json_opt JFloat (finalized_at state)), (py ''created_at'', JFloat (created_at state))]"

section \<open>Decoding\<close>

definition bad_type :: "'a res" where
  "bad_type = Inl (TypeError (py ''unexpected type''))"

definition as_str :: "json \<Rightarrow> pystr res" where
  "as_str v = (case v of JStr s \<Rightarrow> Inr s | _ \<Rightarrow> bad_type)"

definition as_float :: "json \<Rightarrow> real res" where
  "as_float v = (case v of JFloat r \<Rightarrow> Inr r | JInt i \<Rightarrow> Inr (of_int i) | _ \<Rightarrow> bad_type)"

definition as_obj :: "json \<Rightarrow> payload res" where
  "as_obj v = (case v of JObj d \<Rightarrow> Inr d | _ \<Rightarrow> bad_type)"

definition as_list :: "json \<Rightarrow> json list res" where
  "as_list v = (case v of JList xs \<Rightarrow> Inr xs | _ \<Rightarrow> bad_type)"

definition as_opt :: "(json \<Rightarrow> 'a res) \<Rightarrow> json \<Rightarrow> 'a option res" where
  "as_opt f v = (if v = JNull then Inr None else case f v of Inl e \<Rightarrow> Inl e | Inr x \<Rightarrow> Inr (Some x))"

text \<open>\<open>d[k]\<close> and \<open>d.get(k, default)\<close>, with the reading of the value.\<close>

definition key_get :: "payload \<Rightarrow> pystr \<Rightarrow> (json \<Rightarrow> 'a res) \<Rightarrow> 'a res" where
  "key_get d k f = (case map_of d k of None \<Rightarrow> Inl (KeyError k) | Some v \<Rightarrow> f v)"

definition key_get_or :: "payload \<Rightarrow> pystr \<Rightarrow> 'a \<Rightarrow> (json \<Rightarrow> 'a res) \<Rightarrow> 'a res" where
  "key_get_or d k dflt f = (case map_of d k of None \<Rightarrow> Inr dflt | Some v \<Rightarrow> f v)"

definition call_from_json :: "json \<Rightarrow> tool_call res" where
  "call_from_json v = bind_res (as_obj v) (\<lambda>d.
     bind_res (key_get d (py ''id'') as_str) (\<lambda>i. bind_res (key_get d (py ''name'') as_str) (\<lambda>n.
     bind_res (key_get d (py ''arguments'') as_obj) (\<lambda>a. Inr \<lparr>tc_id = i, tc_name = n, tc_arguments = a\<rparr>))))"

definition turn_from_json :: "json \<Rightarrow> turn res" where
  "turn_from_json v = bind_res (as_obj v) (\<lambda>t.
     bind_res (key_get t (py ''role'') as_str) (\<lambda>role. bind_res (key_get t (py ''text'') as_str) (\<lambda>tx.
     bind_res (key_get_or t (py ''tool_calls'') [] (\<lambda>v. bind_res (as_list v) (map_res call_from_json))) (\<lambda>calls.
     bind_res (key_get_or t (py ''tool_call_id'') None (as_opt as_str)) (\<lambda>call_id.
     bind_res (key_get t (py ''ts'') as_float) (\<lambda>ts.
       Inr \<lparr>turn_role = role, turn_text = tx, turn_tool_calls = calls, turn_tool_call_id = call_id, turn_ts = ts\<rparr>))))))"

definition session_from_dict :: "payload \<Rightarrow> session_state res" where
  "session_from_dict d =
     bind_res (key_get_or d (py ''working_buffer'') [] (\<lambda>v. bind_res (as_list v) (map_res turn_from_json))) (\<lambda>buffer.
     bind_res (key_get d (py ''user_id'') as_str) (\<lambda>user_id.
     bind_res (key_get_or d (py ''rolling_summary'') [] as_str) (\<lambda>summary.
     bind_res (key_get_or d (py ''model_name'') None (as_opt as_str)) (\<lambda>model.
     bind_res (key_get_or d (py ''scratch'') [] as_obj) (\<lambda>scr.
     bind_res (key_get d (py ''updated_at'') as_float) (\<lambda>upd.
     bind_res (key_get_or d (py ''finalized_at'') None (as_opt as_float)) (\<lambda>fin.
     bind_res (key_get_or d (py ''created_at'') upd as_float) (\<lambda>created.
       Inr \<lparr>st_user_id = user_id, working_buffer = buffer, rolling_summary = summary, model_name = model,
            scratch = scr, updated_at = upd, finalized_at = fin, created_at = created\<rparr>))))))))"

section \<open>Round trip\<close>

lemmas json_readers = as_str_def as_float_def as_obj_def as_list_def as_opt_def json_opt_def key_get_def key_get_or_def

lemma call_round_trip [simp]: "call_from_json (call_to_json c) = Inr c"
  by (simp add: call_from_json_def call_to_json_def json_readers)

lemma turn_round_trip [simp]: "turn_from_json (turn_to_json t) = Inr t"
  by (cases "turn_tool_call_id t")
    (simp_all add: turn_from_json_def turn_to_json_def json_readers map_res_map)

lemma session_round_trip: "session_from_dict (session_to_json s) = Inr s"
  by (cases "model_name s"; cases "finalized_at s")
    (simp_all add: session_from_dict_def session_to_json_def json_readers map_res_map)

end
