(* ===== verification/Redis_Session.thy ===== *)
theory Redis_Session
  imports Session_Store Session_Codec
begin

text \<open>
  \<open>stores/redis_session.py\<close>: the session store on a Redis server. The server is a parameter, the record of
  the commands the adapter sends; \<open>redis_laws\<close> states what their documentation promises. A stored text is the
  JSON object it encodes (\<open>Session_Codec\<close>). Clocks of client and server agree; connection errors, which end an
  operation with an exception, are not modelled. An operation is atomic here when nothing else runs between its
  commands; \<open>append_turn\<close> is also given as its two halves, the read and the transaction.
\<close>

section \<open>The server\<close>

text \<open>
  \<open>rd_get s now key\<close> is GET at the time \<open>now\<close>; SET has the value, EX and the time it runs at. ZRANGEBYSCORE is
  used from minus infinity, ZREVRANGE over the whole set. ZSCORE is not used by the code; it says what a set holds.
\<close>

record 's redis =
  rd_get :: "'s \<Rightarrow> real \<Rightarrow> pystr \<Rightarrow> payload option"
  rd_set :: "pystr \<Rightarrow> payload \<Rightarrow> int option \<Rightarrow> real \<Rightarrow> 's \<Rightarrow> 's"
  rd_zadd :: "pystr \<Rightarrow> pystr \<Rightarrow> real \<Rightarrow> 's \<Rightarrow> 's"
  rd_zrem :: "pystr \<Rightarrow> pystr \<Rightarrow> 's \<Rightarrow> 's"
  rd_zrangebyscore :: "'s \<Rightarrow> pystr \<Rightarrow> real \<Rightarrow> pystr list"
  rd_zrevrange :: "'s \<Rightarrow> pystr \<Rightarrow> pystr list"
  rd_zscore :: "'s \<Rightarrow> pystr \<Rightarrow> pystr \<Rightarrow> real option"

definition ttl_valid :: "int option \<Rightarrow> bool" where
  "ttl_valid ttl \<longleftrightarrow> (case ttl of None \<Rightarrow> True | Some e \<Rightarrow> 0 < e)"

text \<open>A value is there before its expiry and gone after it.\<close>

definition expiry_laws :: "'s redis \<Rightarrow> bool" where
  "expiry_laws R \<longleftrightarrow> (\<forall>s k v t t'. rd_get R (rd_set R k v None t s) t' k = Some v)
     \<and> (\<forall>s k v e t t'. 0 < e \<longrightarrow> rd_get R (rd_set R k v (Some e) t s) t' k \<in> {None, Some v})
     \<and> (\<forall>s k v e t t'. 0 < e \<longrightarrow> t' < t + of_int e \<longrightarrow> rd_get R (rd_set R k v (Some e) t s) t' k = Some v)
     \<and> (\<forall>s k v e t t'. 0 < e \<longrightarrow> t + of_int e < t' \<longrightarrow> rd_get R (rd_set R k v (Some e) t s) t' k = None)"

text \<open>A command acts on its key.\<close>

definition frame_laws :: "'s redis \<Rightarrow> bool" where
  "frame_laws R \<longleftrightarrow> (\<forall>s k v ttl t t' k'. k' \<noteq> k \<longrightarrow> rd_get R (rd_set R k v ttl t s) t' k' = rd_get R s t' k')
     \<and> (\<forall>s k m x t k'. k' \<noteq> k \<longrightarrow> rd_get R (rd_zadd R k m x s) t k' = rd_get R s t k')
     \<and> (\<forall>s k m t k'. k' \<noteq> k \<longrightarrow> rd_get R (rd_zrem R k m s) t k' = rd_get R s t k')
     \<and> (\<forall>s k v ttl t k' m. k' \<noteq> k \<longrightarrow> rd_zscore R (rd_set R k v ttl t s) k' m = rd_zscore R s k' m)"

definition zset_laws :: "'s redis \<Rightarrow> bool" where
  "zset_laws R \<longleftrightarrow> (\<forall>s k m x k' m'. rd_zscore R (rd_zadd R k m x s) k' m' = (if k' = k \<and> m' = m then Some x else rd_zscore R s k' m'))
     \<and> (\<forall>s k m k' m'. rd_zscore R (rd_zrem R k m s) k' m' = (if k' = k \<and> m' = m then None else rd_zscore R s k' m'))"

text \<open>The ranges list the members whose scores qualify, each once, in the order of their scores.\<close>

definition range_laws :: "'s redis \<Rightarrow> bool" where
  "range_laws R \<longleftrightarrow> (\<forall>s k mx. distinct (rd_zrangebyscore R s k mx)
          \<and> set (rd_zrangebyscore R s k mx) = {m. \<exists>x. rd_zscore R s k m = Some x \<and> x \<le> mx}
          \<and> sorted_wrt (\<lambda>a b. the (rd_zscore R s k a) \<le> the (rd_zscore R s k b)) (rd_zrangebyscore R s k mx))
     \<and> (\<forall>s k. distinct (rd_zrevrange R s k) \<and> set (rd_zrevrange R s k) = {m. rd_zscore R s k m \<noteq> None}
          \<and> sorted_wrt (\<lambda>a b. the (rd_zscore R s k b) \<le> the (rd_zscore R s k a)) (rd_zrevrange R s k))"

definition redis_laws :: "'s redis \<Rightarrow> bool" where
  "redis_laws R \<longleftrightarrow> expiry_laws R \<and> frame_laws R \<and> zset_laws R \<and> range_laws R"

section \<open>Keys\<close>

definition session_key :: "pystr \<Rightarrow> pystr" where
  "session_key conv_id = py ''session:'' @ conv_id"

definition user_key :: "pystr \<Rightarrow> pystr" where
  "user_key user_id = py ''user:'' @ user_id @ py '':convs''"

definition KEY_PENDING :: pystr where
  "KEY_PENDING = py ''sessions:pending_finalize''"

lemma keys_distinct [simp]:
  "session_key c = session_key c' \<longleftrightarrow> c = c'" "user_key u = user_key u' \<longleftrightarrow> u = u'"
  "session_key c \<noteq> user_key u" "user_key u \<noteq> session_key c"
  "session_key c \<noteq> KEY_PENDING" "KEY_PENDING \<noteq> session_key c"
  "user_key u \<noteq> KEY_PENDING" "KEY_PENDING \<noteq> user_key u"
  by (auto simp: session_key_def user_key_def KEY_PENDING_def py_def)

section \<open>Operations\<close>

text \<open>The transaction of \<open>save\<close> and \<open>append_turn\<close>.\<close>

definition rs_write :: "'s redis \<Rightarrow> int option \<Rightarrow> pystr \<Rightarrow> session_state \<Rightarrow> real \<Rightarrow> 's \<Rightarrow> 's" where
  "rs_write R ttl conversation_id state now s =
     rd_zadd R KEY_PENDING conversation_id now
       (rd_zadd R (user_key (st_user_id state)) conversation_id now
         (rd_set R (session_key conversation_id) (session_to_json state) ttl now s))"

definition rs_load :: "'s redis \<Rightarrow> 's \<Rightarrow> pystr \<Rightarrow> pystr \<Rightarrow> real \<Rightarrow> session_state option res" where
  "rs_load R s conversation_id user_id now =
     (case rd_get R s now (session_key conversation_id) of
        None \<Rightarrow> Inr None
      | Some raw \<Rightarrow> bind_res (session_from_dict raw) (\<lambda>state.
          if st_user_id state \<noteq> user_id then Inl (unauthorized conversation_id user_id) else Inr (Some state)))"

definition rs_save :: "'s redis \<Rightarrow> int option \<Rightarrow> 's \<Rightarrow> pystr \<Rightarrow> session_state \<Rightarrow> real \<Rightarrow> 's" where
  "rs_save R ttl s conversation_id state now =
     rs_write R ttl conversation_id (state\<lparr>updated_at := now, finalized_at := None\<rparr>) now s"

definition rs_append_read :: "'s redis \<Rightarrow> 's \<Rightarrow> pystr \<Rightarrow> real \<Rightarrow> session_state res" where
  "rs_append_read R s conversation_id now =
     (case rd_get R s now (session_key conversation_id) of
        None \<Rightarrow> Inl (KeyError (py ''no session '' @ py_repr conversation_id @ py ''; call save() first''))
      | Some raw \<Rightarrow> session_from_dict raw)"

definition rs_append_write :: "'s redis \<Rightarrow> int option \<Rightarrow> pystr \<Rightarrow> session_state \<Rightarrow> turn \<Rightarrow> real \<Rightarrow> 's \<Rightarrow> 's" where
  "rs_append_write R ttl conversation_id state turn now s =
     rs_write R ttl conversation_id
       (state\<lparr>working_buffer := working_buffer state @ [turn], updated_at := now, finalized_at := None\<rparr>) now s"

definition rs_append :: "'s redis \<Rightarrow> int option \<Rightarrow> 's \<Rightarrow> pystr \<Rightarrow> turn \<Rightarrow> real \<Rightarrow> unit res \<times> 's" where
  "rs_append R ttl s conversation_id turn now =
     (case rs_append_read R s conversation_id now of
        Inl e \<Rightarrow> (Inl e, s)
      | Inr state \<Rightarrow> (Inr (), rs_append_write R ttl conversation_id state turn now s))"

text \<open>The loop over the fetched values; stale members are removed on the way.\<close>

fun due_loop :: "'s redis \<Rightarrow> (pystr \<times> payload option) list \<Rightarrow> 's \<Rightarrow> (pystr \<times> pystr) list res \<times> 's" where
  "due_loop R [] s = (Inr [], s)"
| "due_loop R ((cid, None) # rest) s = due_loop R rest (rd_zrem R KEY_PENDING cid s)"
| "due_loop R ((cid, Some d) # rest) s =
     (if map_of d (py ''finalized_at'') \<noteq> None \<and> map_of d (py ''finalized_at'') \<noteq> Some JNull then due_loop R rest s
      else case key_get d (py ''user_id'') as_str of
          Inl e \<Rightarrow> (Inl e, s)
        | Inr u \<Rightarrow> (case due_loop R rest s of (r, s) \<Rightarrow> (map_sum id (\<lambda>l. (cid, u) # l) r, s)))"

definition rs_due :: "'s redis \<Rightarrow> 's \<Rightarrow> real \<Rightarrow> real \<Rightarrow> (pystr \<times> pystr) list res \<times> 's" where
  "rs_due R s idle_s now =
     (let conv_ids = rd_zrangebyscore R s KEY_PENDING (now - idle_s)
      in if conv_ids = [] then (Inr [], s)
         else due_loop R (map (\<lambda>cid. (cid, rd_get R s now (session_key cid))) conv_ids) s)"

definition rs_mark :: "'s redis \<Rightarrow> int option \<Rightarrow> 's \<Rightarrow> pystr \<Rightarrow> real \<Rightarrow> unit res \<times> 's" where
  "rs_mark R ttl s conversation_id now =
     (case rd_get R s now (session_key conversation_id) of
        None \<Rightarrow> (Inr (), s)
      | Some raw \<Rightarrow> (case session_from_dict raw of
            Inl e \<Rightarrow> (Inl e, s)
          | Inr state \<Rightarrow> (Inr (), rd_zrem R KEY_PENDING conversation_id
              (rd_set R (session_key conversation_id) (session_to_json (state\<lparr>finalized_at := Some now\<rparr>)) ttl now s))))"

definition meta_from_dict :: "pystr \<Rightarrow> payload \<Rightarrow> conversation_meta res" where
  "meta_from_dict cid d =
     bind_res (key_get d (py ''user_id'') as_str) (\<lambda>u. bind_res (key_get d (py ''updated_at'') as_float) (\<lambda>upd.
     bind_res (key_get_or d (py ''created_at'') upd as_float) (\<lambda>created.
     bind_res (key_get_or d (py ''finalized_at'') None (as_opt as_float)) (\<lambda>fin.
     bind_res (key_get_or d (py ''working_buffer'') [] as_list) (\<lambda>buffer.
     bind_res (key_get_or d (py ''rolling_summary'') [] as_str) (\<lambda>summary.
     bind_res (key_get_or d (py ''model_name'') None (as_opt as_str)) (\<lambda>model.
       Inr \<lparr>cm_conversation_id = cid, cm_user_id = u, cm_created_at = created, cm_updated_at = upd, cm_finalized_at = fin,
            cm_turn_count = int (length buffer), cm_summary_preview = slice summary 0 PREVIEW_LEN, cm_model_name = model\<rparr>)))))))"

fun list_loop :: "pystr \<Rightarrow> (pystr \<times> payload option) list \<Rightarrow> conversation_meta list res" where
  "list_loop user_id [] = Inr []"
| "list_loop user_id ((cid, None) # rest) = list_loop user_id rest"
| "list_loop user_id ((cid, Some d) # rest) =
     bind_res (key_get d (py ''user_id'') as_str) (\<lambda>u.
       if u \<noteq> user_id then list_loop user_id rest
       else bind_res (meta_from_dict cid d) (\<lambda>m. map_sum id ((#) m) (list_loop user_id rest)))"

definition rs_list :: "'s redis \<Rightarrow> 's \<Rightarrow> pystr \<Rightarrow> real \<Rightarrow> conversation_meta list res" where
  "rs_list R s user_id now =
     (let conv_ids = rd_zrevrange R s (user_key user_id)
      in if conv_ids = [] then Inr []
         else list_loop user_id (map (\<lambda>cid. (cid, rd_get R s now (session_key cid))) conv_ids))"

section \<open>Consequences of the laws\<close>

lemma redis_get_set_cases:
  "redis_laws R \<Longrightarrow> ttl_valid ttl \<Longrightarrow> rd_get R (rd_set R k v ttl t s) t' k = None \<or> rd_get R (rd_set R k v ttl t s) t' k = Some v"
  by (cases ttl) (auto simp: redis_laws_def expiry_laws_def ttl_valid_def)

lemma redis_get_set_live:
  "redis_laws R \<Longrightarrow> ttl_valid ttl \<Longrightarrow> (case ttl of None \<Rightarrow> True | Some e \<Rightarrow> t' < t + of_int e) \<Longrightarrow>
     rd_get R (rd_set R k v ttl t s) t' k = Some v"
  by (cases ttl) (auto simp: redis_laws_def expiry_laws_def ttl_valid_def)

lemma redis_get_set_expired:
  "redis_laws R \<Longrightarrow> ttl_valid (Some e) \<Longrightarrow> t + of_int e < t' \<Longrightarrow> rd_get R (rd_set R k v (Some e) t s) t' k = None"
  by (simp add: redis_laws_def expiry_laws_def ttl_valid_def)

lemma redis_frame:
  assumes "redis_laws R" and "k' \<noteq> k"
  shows "rd_get R (rd_set R k v ttl t s) t' k' = rd_get R s t' k'" and "rd_get R (rd_zadd R k m x s) t' k' = rd_get R s t' k'"
    and "rd_get R (rd_zrem R k m s) t' k' = rd_get R s t' k'" and "rd_zscore R (rd_set R k v ttl t s) k' m' = rd_zscore R s k' m'"
  using assms by (simp_all add: redis_laws_def frame_laws_def)

lemma redis_zsets:
  assumes "redis_laws R"
  shows "rd_zscore R (rd_zadd R k m x s) k' m' = (if k' = k \<and> m' = m then Some x else rd_zscore R s k' m')"
    and "rd_zscore R (rd_zrem R k m s) k' m' = (if k' = k \<and> m' = m then None else rd_zscore R s k' m')"
    and "set (rd_zrangebyscore R s k mx) = {m. \<exists>x. rd_zscore R s k m = Some x \<and> x \<le> mx}"
    and "set (rd_zrevrange R s k) = {m. rd_zscore R s k m \<noteq> None}"
    and "sorted_wrt (\<lambda>a b. the (rd_zscore R s k b) \<le> the (rd_zscore R s k a)) (rd_zrevrange R s k)"
  using assms by (simp_all add: redis_laws_def zset_laws_def range_laws_def)

section \<open>Invariant\<close>

text \<open>
  Every stored session is the encoding of one, in its user's index with its time, and in the index of pending
  conversations exactly when it is not finalized. Members without a session may be left over.
\<close>

definition rs_live :: "'s redis \<Rightarrow> 's \<Rightarrow> real \<Rightarrow> pystr \<Rightarrow> session_state option" where
  "rs_live R s now c = (case rd_get R s now (session_key c) of None \<Rightarrow> None
     | Some d \<Rightarrow> (case session_from_dict d of Inl _ \<Rightarrow> None | Inr st \<Rightarrow> Some st))"

definition indexed :: "'s redis \<Rightarrow> 's \<Rightarrow> pystr \<Rightarrow> session_state \<Rightarrow> bool" where
  "indexed R s c st \<longleftrightarrow> rd_zscore R s (user_key (st_user_id st)) c = Some (updated_at st)
     \<and> rd_zscore R s KEY_PENDING c = (if finalized_at st = None then Some (updated_at st) else None)"

definition rs_inv :: "'s redis \<Rightarrow> 's \<Rightarrow> bool" where
  "rs_inv R s \<longleftrightarrow> (\<forall>now c d. rd_get R s now (session_key c) = Some d \<longrightarrow> (\<exists>st. d = session_to_json st \<and> indexed R s c st))"

definition rs_ok :: "'s redis \<Rightarrow> int option \<Rightarrow> 's \<Rightarrow> bool" where
  "rs_ok R ttl s \<longleftrightarrow> redis_laws R \<and> ttl_valid ttl \<and> rs_inv R s"

lemma rs_inv_get: "rs_inv R s \<Longrightarrow> rd_get R s now (session_key c) = Some d \<Longrightarrow> \<exists>st. d = session_to_json st \<and> indexed R s c st"
  by (simp add: rs_inv_def)

lemma rs_get: "rs_inv R s \<Longrightarrow> rd_get R s now (session_key c) = map_option session_to_json (rs_live R s now c)"
  by (cases "rd_get R s now (session_key c)") (auto simp: rs_live_def session_round_trip dest: rs_inv_get)

lemma rs_indexed: "rs_inv R s \<Longrightarrow> rs_live R s now c = Some st \<Longrightarrow> indexed R s c st"
  by (cases "rd_get R s now (session_key c)") (auto simp: rs_live_def session_round_trip dest: rs_inv_get)

lemma rs_invI: "(\<And>now c d. rd_get R s now (session_key c) = Some d \<Longrightarrow> \<exists>st. d = session_to_json st \<and> indexed R s c st) \<Longrightarrow> rs_inv R s"
  by (simp add: rs_inv_def)

section \<open>Writes\<close>

lemma rs_write_get:
  assumes "redis_laws R"
  shows "rd_get R (rs_write R ttl c st now s) t (session_key c') =
    rd_get R (rd_set R (session_key c) (session_to_json st) ttl now s) t (session_key c')"
  by (simp add: rs_write_def redis_frame [OF assms])

lemma rs_write_live:
  assumes "redis_laws R" and "ttl_valid ttl"
  shows "c' \<noteq> c \<Longrightarrow> rs_live R (rs_write R ttl c st now s) t c' = rs_live R s t c'"
    and "(case ttl of None \<Rightarrow> True | Some e \<Rightarrow> t < now + of_int e) \<Longrightarrow> rs_live R (rs_write R ttl c st now s) t c = Some st"
  by (simp_all add: rs_live_def rs_write_get [OF assms(1)] redis_frame [OF assms(1)] redis_get_set_live [OF assms] session_round_trip)

lemma rs_write_live_now:
  "redis_laws R \<Longrightarrow> ttl_valid ttl \<Longrightarrow>
     rs_live R (rs_write R ttl c st now s) now c' = (if c' = c then Some st else rs_live R s now c')"
  by (simp add: rs_write_live) (simp add: ttl_valid_def rs_write_live split: option.splits)

lemma rs_write_zscore:
  assumes "redis_laws R"
  shows "rd_zscore R (rs_write R ttl c st now s) (user_key u) c' =
      (if c' = c \<and> u = st_user_id st then Some now else rd_zscore R s (user_key u) c')"
    and "rd_zscore R (rs_write R ttl c st now s) KEY_PENDING c' = (if c' = c then Some now else rd_zscore R s KEY_PENDING c')"
  by (auto simp: rs_write_def redis_zsets [OF assms] redis_frame [OF assms])

lemma rs_write_inv:
  assumes "rs_ok R ttl s" and "updated_at st = now" and "finalized_at st = None"
  shows "rs_inv R (rs_write R ttl c st now s)"
proof (rule rs_invI)
  fix t c' d
  have R: "redis_laws R" "ttl_valid ttl" "rs_inv R s" using assms(1) by (simp_all add: rs_ok_def)
  assume d: "rd_get R (rs_write R ttl c st now s) t (session_key c') = Some d"
  show "\<exists>st'. d = session_to_json st' \<and> indexed R (rs_write R ttl c st now s) c' st'"
  proof (cases "c' = c")
    case True
    with d redis_get_set_cases [OF R(1,2)] have "d = session_to_json st"
      by (metis option.distinct(1) option.inject rs_write_get [OF R(1)])
    with True assms(2,3) show ?thesis
      by (auto simp: indexed_def rs_write_zscore [OF R(1)])
  next
    case False
    with d have "rd_get R s t (session_key c') = Some d"
      by (simp add: rs_write_get [OF R(1)] redis_frame [OF R(1)])
    from rs_inv_get [OF R(3) this] False show ?thesis
      by (auto simp: indexed_def rs_write_zscore [OF R(1)])
  qed
qed

lemma rs_load_result:
  assumes "rs_inv R s"
  shows "rs_load R s c u now = (case rs_live R s now c of None \<Rightarrow> Inr None
     | Some st \<Rightarrow> if st_user_id st = u then Inr (Some st) else Inl (unauthorized c u))"
  by (cases "rs_live R s now c") (simp_all add: rs_load_def rs_get [OF assms] session_round_trip)

lemma rs_append_read_live: "rs_inv R s \<Longrightarrow> rs_live R s now c = Some st \<Longrightarrow> rs_append_read R s c now = Inr st"
  by (simp add: rs_append_read_def rs_get session_round_trip)

lemma rs_append_result:
  assumes "rs_inv R s"
  shows "rs_append R ttl s c t now = (case rs_live R s now c of
      None \<Rightarrow> (Inl (KeyError (py ''no session '' @ py_repr c @ py ''; call save() first'')), s)
    | Some st \<Rightarrow> (Inr (), rs_append_write R ttl c st t now s))"
  by (cases "rs_live R s now c") (simp_all add: rs_append_def rs_append_read_def rs_get [OF assms] session_round_trip)

lemma rs_mark_result:
  assumes "rs_inv R s"
  shows "rs_mark R ttl s c now = (Inr (), case rs_live R s now c of None \<Rightarrow> s
    | Some st \<Rightarrow> rd_zrem R KEY_PENDING c (rd_set R (session_key c) (session_to_json (st\<lparr>finalized_at := Some now\<rparr>)) ttl now s))"
  by (cases "rs_live R s now c") (simp_all add: rs_mark_def rs_get [OF assms] session_round_trip)

lemma rs_mark_get:
  assumes "redis_laws R"
  shows "rd_get R (rd_zrem R KEY_PENDING c (rd_set R (session_key c) d ttl now s)) t (session_key c') =
    rd_get R (rd_set R (session_key c) d ttl now s) t (session_key c')"
  by (simp add: redis_frame [OF assms])

lemma rs_mark_live:
  assumes "rs_ok R ttl s" and "rs_live R s now c = Some st" and "case ttl of None \<Rightarrow> True | Some e \<Rightarrow> t < now + of_int e"
  shows "rs_live R (snd (rs_mark R ttl s c now)) t c' = (if c' = c then Some (st\<lparr>finalized_at := Some now\<rparr>) else rs_live R s t c')"
proof -
  have R: "redis_laws R" "ttl_valid ttl" "rs_inv R s" using assms(1) by (simp_all add: rs_ok_def)
  show ?thesis
    using assms(2) redis_get_set_live [OF R(1,2) assms(3)]
    by (simp add: rs_mark_result [OF R(3)] rs_live_def redis_frame [OF R(1)] session_round_trip)
qed

lemma rs_mark_absent: "rs_inv R s \<Longrightarrow> rs_live R s now c = None \<Longrightarrow> rs_mark R ttl s c now = (Inr (), s)"
  by (simp add: rs_mark_result)

lemma rs_mark_inv:
  assumes "rs_ok R ttl s"
  shows "rs_inv R (snd (rs_mark R ttl s c now))"
proof -
  have R: "redis_laws R" "ttl_valid ttl" "rs_inv R s" using assms(1) by (simp_all add: rs_ok_def)
  show ?thesis
  proof (cases "rs_live R s now c")
    case None
    with R(3) show ?thesis by (simp add: rs_mark_result)
  next
    case (Some st)
    let ?st = "st\<lparr>finalized_at := Some now\<rparr>"
    let ?s = "rd_zrem R KEY_PENDING c (rd_set R (session_key c) (session_to_json ?st) ttl now s)"
    have "rs_inv R ?s"
    proof (rule rs_invI)
      fix t c' d
      assume d: "rd_get R ?s t (session_key c') = Some d"
      show "\<exists>st'. d = session_to_json st' \<and> indexed R ?s c' st'"
      proof (cases "c' = c")
        case True
        with d redis_get_set_cases [OF R(1,2)] have "d = session_to_json ?st"
          by (metis option.distinct(1) option.inject rs_mark_get [OF R(1)])
        moreover have "indexed R ?s c ?st"
          using rs_indexed [OF R(3) Some] by (simp add: indexed_def redis_zsets [OF R(1)] redis_frame [OF R(1)])
        ultimately show ?thesis
          using True by blast
      next
        case False
        with d have "rd_get R s t (session_key c') = Some d"
          by (simp add: redis_frame [OF R(1)])
        from rs_inv_get [OF R(3) this] False show ?thesis
          by (auto simp: indexed_def redis_zsets [OF R(1)] redis_frame [OF R(1)])
      qed
    qed
    with Some show ?thesis by (simp add: rs_mark_result [OF R(3)])
  qed
qed

section \<open>Scans\<close>

text \<open>What the loops make of the sessions they find.\<close>

lemma finalized_json: "map_of (session_to_json st) (py ''finalized_at'') = Some (json_opt JFloat (finalized_at st))"
  "map_of (session_to_json st) (py ''user_id'') = Some (JStr (st_user_id st))"
  by (simp_all add: session_to_json_def)

lemma key_get_user: "key_get (session_to_json st) (py ''user_id'') as_str = Inr (st_user_id st)"
  by (simp add: key_get_def as_str_def finalized_json)

lemma meta_from_session: "meta_from_dict c (session_to_json st) = Inr (session_meta c st)"
  by (cases "model_name st"; cases "finalized_at st")
    (simp_all add: meta_from_dict_def session_to_json_def json_readers session_meta_def)

definition found :: "(pystr \<Rightarrow> session_state option) \<Rightarrow> pystr list \<Rightarrow> (pystr \<times> session_state) list" where
  "found f cids = concat (map (\<lambda>c. case f c of None \<Rightarrow> [] | Some st \<Rightarrow> [(c, st)]) cids)"

lemma set_found: "set (found f cids) = {(c, st). c \<in> set cids \<and> f c = Some st}"
  by (auto simp: found_def split: option.splits)

lemma due_loop_found:
  "\<exists>s'. due_loop R (map (\<lambda>c. (c, map_option session_to_json (f c))) cids) s =
     (Inr (map (\<lambda>(c, st). (c, st_user_id st)) (filter (\<lambda>(c, st). finalized_at st = None) (found f cids))), s')
     \<and> (\<exists>stale. set stale \<subseteq> {c \<in> set cids. f c = None} \<and> s' = fold (rd_zrem R KEY_PENDING) stale s)"
proof (induction cids arbitrary: s)
  case Nil
  show ?case by (simp add: found_def)
next
  case (Cons c cids)
  show ?case
  proof (cases "f c")
    case None
    from Cons.IH [of "rd_zrem R KEY_PENDING c s"] obtain s' stale where
      "due_loop R (map (\<lambda>c. (c, map_option session_to_json (f c))) cids) (rd_zrem R KEY_PENDING c s) =
        (Inr (map (\<lambda>(c, st). (c, st_user_id st)) (filter (\<lambda>(c, st). finalized_at st = None) (found f cids))), s')"
      "set stale \<subseteq> {c \<in> set cids. f c = None}" "s' = fold (rd_zrem R KEY_PENDING) stale (rd_zrem R KEY_PENDING c s)"
      by blast
    with None show ?thesis
      by (intro exI [of _ s'] conjI exI [of _ "c # stale"]) (auto simp: found_def)
  next
    case (Some st)
    from Cons.IH [of s] obtain s' stale where
      "due_loop R (map (\<lambda>c. (c, map_option session_to_json (f c))) cids) s =
        (Inr (map (\<lambda>(c, st). (c, st_user_id st)) (filter (\<lambda>(c, st). finalized_at st = None) (found f cids))), s')"
      "set stale \<subseteq> {c \<in> set cids. f c = None}" "s' = fold (rd_zrem R KEY_PENDING) stale s"
      by blast
    with Some show ?thesis
      by (intro exI [of _ s'] conjI exI [of _ stale])
        (auto simp: found_def finalized_json key_get_user json_opt_def split: option.splits)
  qed
qed

lemma list_loop_found:
  "list_loop u (map (\<lambda>c. (c, map_option session_to_json (f c))) cids) =
     Inr (map (\<lambda>(c, st). session_meta c st) (filter (\<lambda>(c, st). st_user_id st = u) (found f cids)))"
  by (induction cids) (auto simp: found_def key_get_user meta_from_session split: option.splits)

lemma rs_due_result:
  assumes "rs_ok R ttl s"
  shows "\<exists>l s'. rs_due R s idle now = (Inr l, s')
    \<and> set l = {(c, st_user_id st) |c st. rs_live R s now c = Some st \<and> finalized_at st = None \<and> now - updated_at st \<ge> idle}
    \<and> (\<exists>stale. (\<forall>c \<in> set stale. rs_live R s now c = None) \<and> s' = fold (rd_zrem R KEY_PENDING) stale s)"
proof -
  have R: "redis_laws R" "rs_inv R s" using assms by (simp_all add: rs_ok_def)
  let ?cids = "rd_zrangebyscore R s KEY_PENDING (now - idle)"
  let ?found = "filter (\<lambda>(c, st). finalized_at st = None) (found (rs_live R s now) ?cids)"
  have due: "rs_due R s idle now = due_loop R (map (\<lambda>c. (c, map_option session_to_json (rs_live R s now c))) ?cids) s"
    by (simp add: rs_due_def rs_get [OF R(2)] Let_def)
  obtain s' stale where loop: "due_loop R (map (\<lambda>c. (c, map_option session_to_json (rs_live R s now c))) ?cids) s =
      (Inr (map (\<lambda>(c, st). (c, st_user_id st)) ?found), s')"
    and stale: "set stale \<subseteq> {c \<in> set ?cids. rs_live R s now c = None}" "s' = fold (rd_zrem R KEY_PENDING) stale s"
    using due_loop_found [of R "rs_live R s now" ?cids s] by (elim exE conjE) (rule that; assumption)
  moreover have "set (map (\<lambda>(c, st). (c, st_user_id st)) ?found) =
      {(c, st_user_id st) |c st. rs_live R s now c = Some st \<and> finalized_at st = None \<and> now - updated_at st \<ge> idle}"
    using rs_indexed [OF R(2)] by (force simp: set_found redis_zsets [OF R(1)] indexed_def image_iff)
  ultimately show ?thesis
    unfolding due loop using stale
    by (intro exI [of _ "map (\<lambda>(c, st). (c, st_user_id st)) ?found"] exI [of _ s'] conjI exI [of _ stale]) auto
qed

lemma rs_list_result:
  assumes "rs_ok R ttl s"
  shows "\<exists>l. rs_list R s u now = Inr l \<and> set l = {session_meta c st |c st. rs_live R s now c = Some st \<and> st_user_id st = u}
    \<and> sorted_wrt (\<lambda>m n. cm_updated_at n \<le> cm_updated_at m) l"
proof -
  have R: "redis_laws R" "rs_inv R s" using assms by (simp_all add: rs_ok_def)
  let ?cids = "rd_zrevrange R s (user_key u)"
  let ?l = "map (\<lambda>(c, st). session_meta c st) (filter (\<lambda>(c, st). st_user_id st = u) (found (rs_live R s now) ?cids))"
  have "rs_list R s u now = Inr ?l"
    by (simp add: rs_list_def rs_get [OF R(2)] Let_def list_loop_found found_def)
  moreover have "set ?l = {session_meta c st |c st. rs_live R s now c = Some st \<and> st_user_id st = u}"
    using rs_indexed [OF R(2)] by (force simp: set_found redis_zsets [OF R(1)] indexed_def image_iff)
  moreover have "sorted_wrt (\<lambda>m n. cm_updated_at n \<le> cm_updated_at m) ?l"
  proof -
    have time: "the (rd_zscore R s (user_key u) c) = updated_at st" if "rs_live R s now c = Some st" "st_user_id st = u" for c st
      using rs_indexed [OF R(2) that(1)] that(2) by (simp add: indexed_def)
    have "sorted_wrt (\<lambda>m n. cm_updated_at n \<le> cm_updated_at m)
        (map (\<lambda>(c, st). session_meta c st) (filter (\<lambda>(c, st). st_user_id st = u) (found (rs_live R s now) cids)))"
      if "sorted_wrt (\<lambda>a b. the (rd_zscore R s (user_key u) b) \<le> the (rd_zscore R s (user_key u) a)) cids" for cids
      using that
    proof (induction cids)
      case (Cons c cids)
      have "found (rs_live R s now) (c # cids) = (case rs_live R s now c of None \<Rightarrow> [] | Some st \<Rightarrow> [(c, st)]) @ found (rs_live R s now) cids"
        by (simp add: found_def)
      with Cons show ?case
        by (auto simp: set_found session_meta_def time [symmetric] split: option.splits)
    qed (simp add: found_def)
    from this [OF redis_zsets(5) [OF R(1)]] show ?thesis .
  qed
  ultimately show ?thesis by blast
qed

section \<open>The contract\<close>

text \<open>The results of the operations that cannot fail on a well-formed store.\<close>

definition rs_due_list :: "'s redis \<Rightarrow> 's \<Rightarrow> real \<Rightarrow> real \<Rightarrow> (pystr \<times> pystr) list" where
  "rs_due_list R s idle now = (case fst (rs_due R s idle now) of Inl _ \<Rightarrow> [] | Inr l \<Rightarrow> l)"

definition rs_metas :: "'s redis \<Rightarrow> 's \<Rightarrow> pystr \<Rightarrow> real \<Rightarrow> conversation_meta list" where
  "rs_metas R s u now = (case rs_list R s u now of Inl _ \<Rightarrow> [] | Inr l \<Rightarrow> l)"

lemma set_rs_due_list: "rs_ok R ttl s \<Longrightarrow> set (rs_due_list R s idle now) =
    {(c, st_user_id st) |c st. rs_live R s now c = Some st \<and> finalized_at st = None \<and> now - updated_at st \<ge> idle}"
  using rs_due_result [of R ttl s idle now] by (auto simp: rs_due_list_def)

lemma set_rs_metas: "rs_ok R ttl s \<Longrightarrow> set (rs_metas R s u now) = {session_meta c st |c st. rs_live R s now c = Some st \<and> st_user_id st = u}"
proof -
  assume "rs_ok R ttl s"
  from rs_list_result [OF this] obtain l where "rs_list R s u now = Inr l"
    "set l = {session_meta c st |c st. rs_live R s now c = Some st \<and> st_user_id st = u}" by blast
  then show ?thesis by (simp add: rs_metas_def)
qed

lemma rs_ok_write: "rs_ok R ttl s \<Longrightarrow> updated_at st = now \<Longrightarrow> finalized_at st = None \<Longrightarrow> rs_ok R ttl (rs_write R ttl c st now s)"
  using rs_write_inv [of R ttl s st now c] by (simp add: rs_ok_def)

lemma rs_ok_save: "rs_ok R ttl s \<Longrightarrow> rs_ok R ttl (rs_save R ttl s c st now)"
  unfolding rs_save_def by (rule rs_ok_write) simp_all

lemma rs_ok_append: "rs_ok R ttl s \<Longrightarrow> rs_ok R ttl (snd (rs_append R ttl s c t now))"
proof -
  assume ok: "rs_ok R ttl s"
  then have "rs_inv R s" by (simp add: rs_ok_def)
  with ok show ?thesis
    by (auto simp: rs_append_result rs_append_write_def intro!: rs_ok_write split: option.splits)
qed

lemma rs_ok_mark: "rs_ok R ttl s \<Longrightarrow> rs_ok R ttl (snd (rs_mark R ttl s c now))"
  using rs_mark_inv [of R ttl s c now] by (simp add: rs_ok_def)

lemma ttl_not_yet: "ttl_valid ttl \<Longrightarrow> case ttl of None \<Rightarrow> True | Some e \<Rightarrow> (now :: real) < now + of_int e"
  by (simp add: ttl_valid_def split: option.splits)

interpretation redis_sessions: session_store_spec "rs_live R" "\<lambda>s c u now. (rs_load R s c u now, s)" "rs_save R ttl"
  "rs_append R ttl" "\<lambda>s c now. snd (rs_mark R ttl s c now)" "rs_due_list R" "rs_metas R" "rs_ok R ttl"
proof (unfold_locales, goal_cases)
  case (1 s c u now)
  then show ?case by (simp add: rs_load_result rs_ok_def)
next
  case (3 s c st now c')
  then show ?case by (simp add: rs_save_def rs_write_live_now rs_ok_def)
next
  case (4 s now c st t c')
  then show ?case by (simp add: rs_append_result rs_append_write_def rs_write_live_now rs_ok_def)
next
  case (5 s c now c')
  then have R: "rs_inv R s" "ttl_valid ttl" by (simp_all add: rs_ok_def)
  show ?case
  proof (cases "rs_live R s now c")
    case None
    with R show ?thesis by (simp add: rs_mark_absent)
  next
    case (Some st)
    with rs_mark_live [OF 5 Some ttl_not_yet [OF R(2)]] show ?thesis by simp
  qed
next
  case (6 s now c st u idle)
  then show ?case by (auto simp: set_rs_due_list)
next
  case (7 s u now)
  then show ?case by (rule set_rs_metas)
qed (simp_all add: rs_ok_save rs_ok_append rs_ok_mark)

section \<open>Against the in-memory store\<close>

text \<open>One operation of a client with its time, and what it is told; listings are compared as sets, and must be sorted.\<close>

datatype session_op =
    OpLoad pystr pystr
  | OpSave pystr session_state
  | OpAppend pystr turn
  | OpMark pystr
  | OpDue real
  | OpList pystr

datatype session_answer =
    Loaded "session_state option res"
  | Done "unit res"
  | DueSet "(pystr \<times> pystr) set"
  | Listed "conversation_meta set" bool

definition newest_first :: "conversation_meta list \<Rightarrow> bool" where
  "newest_first l \<longleftrightarrow> sorted_wrt (\<lambda>m n. cm_updated_at n \<le> cm_updated_at m) l"

fun ss_exec :: "session_store \<Rightarrow> session_op \<times> real \<Rightarrow> session_answer \<times> session_store" where
  "ss_exec s (OpLoad c u, now) = (case ss_load s c u now of (r, s) \<Rightarrow> (Loaded r, s))"
| "ss_exec s (OpSave c st, now) = (Done (Inr ()), ss_save s c st now)"
| "ss_exec s (OpAppend c t, now) = (case ss_append_turn s c t now of (r, s) \<Rightarrow> (Done r, s))"
| "ss_exec s (OpMark c, now) = (Done (Inr ()), ss_mark_finalized s c now)"
| "ss_exec s (OpDue idle, now) = (DueSet (set (ss_due_for_finalize s idle now)), s)"
| "ss_exec s (OpList u, now) = (Listed (set (ss_list s u now)) (newest_first (ss_list s u now)), s)"

fun rs_exec :: "'s redis \<Rightarrow> int option \<Rightarrow> 's \<Rightarrow> session_op \<times> real \<Rightarrow> session_answer \<times> 's" where
  "rs_exec R ttl s (OpLoad c u, now) = (Loaded (rs_load R s c u now), s)"
| "rs_exec R ttl s (OpSave c st, now) = (Done (Inr ()), rs_save R ttl s c st now)"
| "rs_exec R ttl s (OpAppend c t, now) = (case rs_append R ttl s c t now of (r, s) \<Rightarrow> (Done r, s))"
| "rs_exec R ttl s (OpMark c, now) = (case rs_mark R ttl s c now of (r, s) \<Rightarrow> (Done r, s))"
| "rs_exec R ttl s (OpDue idle, now) = (case rs_due R s idle now of
      (Inl e, s) \<Rightarrow> (Done (Inl e), s) | (Inr l, s) \<Rightarrow> (DueSet (set l), s))"
| "rs_exec R ttl s (OpList u, now) = (case rs_list R s u now of
      Inl e \<Rightarrow> (Done (Inl e), s) | Inr l \<Rightarrow> (Listed (set l) (newest_first l), s))"

fun ss_answers :: "session_store \<Rightarrow> (session_op \<times> real) list \<Rightarrow> session_answer list" where
  "ss_answers s [] = []"
| "ss_answers s (x # xs) = (case ss_exec s x of (a, s) \<Rightarrow> a # ss_answers s xs)"

fun rs_answers :: "'s redis \<Rightarrow> int option \<Rightarrow> 's \<Rightarrow> (session_op \<times> real) list \<Rightarrow> session_answer list" where
  "rs_answers R ttl s [] = []"
| "rs_answers R ttl s (x # xs) = (case rs_exec R ttl s x of (a, s) \<Rightarrow> a # rs_answers R ttl s xs)"

definition rs_sim :: "'s redis \<Rightarrow> 's \<Rightarrow> session_store \<Rightarrow> bool" where
  "rs_sim R r s \<longleftrightarrow> rs_ok R None r \<and> ss_ok s \<and> ttl_s s = None \<and> (\<forall>t c. rs_live R r t c = map_of (sessions s) c)"

lemma ss_live_no_ttl: "ttl_s s = None \<Longrightarrow> ss_live s now c = map_of (sessions s) c"
  by (simp add: ss_live_def ss_expired_def split: option.splits)

lemma fold_zrem:
  assumes "redis_laws R"
  shows "rd_get R (fold (rd_zrem R KEY_PENDING) stale s) t (session_key c) = rd_get R s t (session_key c)"
    and "rd_zscore R (fold (rd_zrem R KEY_PENDING) stale s) k m =
      (if k = KEY_PENDING \<and> m \<in> set stale then None else rd_zscore R s k m)"
  by (induction stale arbitrary: s) (auto simp: redis_frame [OF assms] redis_zsets [OF assms])

lemma rs_sim_due:
  assumes "rs_sim R r s" and "\<forall>c \<in> set stale. rs_live R r now c = None"
  shows "rs_sim R (fold (rd_zrem R KEY_PENDING) stale r) s"
proof -
  have R: "redis_laws R" "rs_inv R r" using assms(1) by (simp_all add: rs_sim_def rs_ok_def)
  let ?r = "fold (rd_zrem R KEY_PENDING) stale r"
  have live: "rs_live R ?r t c = rs_live R r t c" for t c
    by (simp add: rs_live_def fold_zrem [OF R(1)])
  have "rs_inv R ?r"
  proof (rule rs_invI)
    fix t c d
    assume "rd_get R ?r t (session_key c) = Some d"
    then have d: "rd_get R r t (session_key c) = Some d" by (simp add: fold_zrem [OF R(1)])
    then obtain st where st: "d = session_to_json st" "indexed R r c st" using rs_inv_get [OF R(2)] by blast
    from d st(1) have "rs_live R r t c = Some st" by (simp add: rs_live_def session_round_trip)
    then have "rs_live R r now c = Some st" using assms(1) by (simp add: rs_sim_def)
    then have "c \<notin> set stale" using assms(2) by auto
    with st show "\<exists>st. d = session_to_json st \<and> indexed R ?r c st"
      by (intro exI [of _ st]) (simp add: indexed_def fold_zrem [OF R(1)])
  qed
  with assms(1) show ?thesis by (simp add: rs_sim_def rs_ok_def live)
qed

lemma sim_update:
  assumes "rs_sim R r s" and "rs_ok R None r'" and "\<And>t c'. rs_live R r' t c' = (if c' = c then Some st else rs_live R r t c')"
  shows "rs_sim R r' (s\<lparr>sessions := dict_set c st (sessions s)\<rparr>)"
  using assms by (simp add: rs_sim_def dict_simps ss_ok_def)

lemma rs_write_sim:
  assumes "rs_sim R r s" and "updated_at st = now" and "finalized_at st = None"
  shows "rs_sim R (rs_write R None c st now r) (s\<lparr>sessions := dict_set c st (sessions s)\<rparr>)"
proof -
  have R: "rs_ok R None r" "redis_laws R" "ttl_valid None" using assms(1) by (simp_all add: rs_sim_def rs_ok_def ttl_valid_def)
  show ?thesis
    by (intro sim_update [OF assms(1) rs_ok_write [OF R(1) assms(2,3)]]) (simp add: rs_write_live [OF R(2,3)])
qed

lemma exec_sim:
  assumes "rs_sim R r s"
  shows "fst (rs_exec R None r x) = fst (ss_exec s x) \<and> rs_sim R (snd (rs_exec R None r x)) (snd (ss_exec s x))"
proof -
  have ok: "rs_ok R None r" "ss_ok s" and no_ttl: "ttl_s s = None" and live: "\<And>t c. rs_live R r t c = map_of (sessions s) c"
    and inv: "rs_inv R r"
    using assms by (simp_all add: rs_sim_def rs_ok_def)
  obtain op now where x: "x = (op, now)" by fastforce
  show ?thesis
  proof (cases op)
    case (OpLoad c u)
    then show ?thesis
      using assms by (simp add: x rs_load_result [OF inv] live ss_load_def ss_expired_def no_ttl split: option.splits)
  next
    case (OpSave c st)
    then show ?thesis
      using rs_write_sim [OF assms, of "st\<lparr>updated_at := now, finalized_at := None\<rparr>" now c]
      by (simp add: x rs_save_def ss_save_def)
  next
    case (OpAppend c t)
    then show ?thesis
    proof (cases "map_of (sessions s) c")
      case (Some st)
      then show ?thesis
        using OpAppend rs_write_sim [OF assms, of "st\<lparr>working_buffer := working_buffer st @ [t], updated_at := now, finalized_at := None\<rparr>" now c]
        by (simp add: x rs_append_result [OF inv] live rs_append_write_def ss_append_turn_def)
    qed (use assms in \<open>simp add: x rs_append_result [OF inv] live ss_append_turn_def\<close>)
  next
    case (OpMark c)
    then show ?thesis
    proof (cases "map_of (sessions s) c")
      case (Some st)
      have "rs_live R r now c = Some st" by (simp add: live Some)
      from rs_mark_live [OF ok(1) this] have
        "rs_live R (snd (rs_mark R None r c now)) t c' = (if c' = c then Some (st\<lparr>finalized_at := Some now\<rparr>) else rs_live R r t c')" for t c'
        by simp
      from sim_update [OF assms rs_ok_mark [OF ok(1)] this] show ?thesis
        by (simp add: x OpMark ss_mark_finalized_def Some rs_mark_result [OF inv])
    qed (use assms in \<open>simp add: x rs_mark_result [OF inv] live ss_mark_finalized_def\<close>)
  next
    case (OpDue idle)
    obtain l stale where due: "rs_due R r idle now = (Inr l, fold (rd_zrem R KEY_PENDING) stale r)"
      "set l = {(c, st_user_id st) |c st. rs_live R r now c = Some st \<and> finalized_at st = None \<and> now - updated_at st \<ge> idle}"
      "\<forall>c \<in> set stale. rs_live R r now c = None"
      using rs_due_result [OF ok(1)] by blast
    have "set (ss_due_for_finalize s idle now) = set l"
      using ok(2) by (force simp: due(2) live ss_due_for_finalize_def image_iff ss_mem)
    with rs_sim_due [OF assms due(3)] due(1) OpDue show ?thesis
      by (simp add: x)
  next
    case (OpList u)
    obtain l where l: "rs_list R r u now = Inr l" "set l = {session_meta c st |c st. rs_live R r now c = Some st \<and> st_user_id st = u}"
      "sorted_wrt (\<lambda>m n. cm_updated_at n \<le> cm_updated_at m) l"
      using rs_list_result [OF ok(1)] by blast
    have "set (ss_list s u now) = set l"
      by (simp add: ss_list_set [OF ok(2)] l(2) live ss_live_no_ttl [OF no_ttl])
    with l assms OpList show ?thesis
      by (simp add: x newest_first_def ss_list_sorted)
  qed
qed

lemma answers_sim: "rs_sim R r s \<Longrightarrow> rs_answers R None r ops = ss_answers s ops"
proof (induction ops arbitrary: r s)
  case (Cons x ops)
  from exec_sim [OF Cons.prems, of x] Cons.IH show ?case
    by (auto split: prod.splits)
qed simp

text \<open>A server that holds no session yet.\<close>

lemma rs_sim_empty:
  assumes "redis_laws R" and "\<And>t c. rd_get R r t (session_key c) = None"
  shows "rs_sim R r (ss_init None)"
  using assms by (simp add: rs_sim_def rs_ok_def rs_inv_def ttl_valid_def rs_live_def ss_ok_def ss_init_def)

section \<open>Interleaved appends\<close>

text \<open>
  \<open>append_turn\<close> reads without watching the key: its transaction stores the session it read with the new turn,
  whatever another worker has stored in between.
\<close>

lemma append_write_overwrites:
  assumes "redis_laws R" and "ttl_valid ttl"
  shows "rs_live R (rs_append_write R ttl c st t now s) now c =
    Some (st\<lparr>working_buffer := working_buffer st @ [t], updated_at := now, finalized_at := None\<rparr>)"
  by (simp add: rs_append_write_def rs_write_live_now [OF assms])

text \<open>Marking a session as finalized starts its time to live anew, unlike in memory.\<close>

lemma mark_restarts_ttl:
  assumes "rs_ok R (Some e) s" and "rs_live R s now c = Some st" and "t < now + of_int e"
  shows "rs_live R (snd (rs_mark R (Some e) s c now)) t c = Some (st\<lparr>finalized_at := Some now\<rparr>)"
  using rs_mark_live [OF assms(1,2)] assms(3) by simp

text \<open>On Redis two appends to a conversation that overlap lose a turn. If both read the session before either
  writes, both report success and only the turn of the later write is in the buffer.\<close>

lemma redis_append_race:
  assumes "rs_ok R ttl s" and "rs_live R s t1 c = Some st" and "rs_live R s t2 c = Some st"
  shows "\<exists>st1 st2. rs_append_read R s c t1 = Inr st1 \<and> rs_append_read R s c t2 = Inr st2
    \<and> rs_live R (rs_append_write R ttl c st2 b t4 (rs_append_write R ttl c st1 a t3 s)) t4 c
        = Some (st\<lparr>working_buffer := working_buffer st @ [b], updated_at := t4, finalized_at := None\<rparr>)"
proof -
  have R: "redis_laws R" "ttl_valid ttl" "rs_inv R s" using assms(1) by (simp_all add: rs_ok_def)
  show ?thesis
    using rs_append_read_live [OF R(3) assms(2)] rs_append_read_live [OF R(3) assms(3)]
    by (simp add: append_write_overwrites [OF R(1,2)])
qed

end
