(* ===== verification/Config_Loader.thy ===== *)
theory Config_Loader
  imports Config
begin

text \<open>
  \<open>config/loader.py\<close>: environment interpolation of the YAML data, and the construction of the dataclasses of
  \<open>config/schema.py\<close> from it by their annotations. The data is a JSON value; keys that are not strings, which are
  unknown keys, do not occur. The environment and llm_kit's \<open>AppConfig.from_dict\<close> are parameters. Digits are the
  ASCII ones; the strings Python reads as infinities or NaN are refused, the model's floats being real numbers.
\<close>

section \<open>Numbers from strings\<close>

definition is_digit :: "nat \<Rightarrow> bool" where
  "is_digit c \<longleftrightarrow> 48 \<le> c \<and> c \<le> 57"

text \<open>Digits with single underscores between them; 95 is the underscore.\<close>

fun digits_ok :: "pystr \<Rightarrow> bool" where
  "digits_ok [] = False"
| "digits_ok [c] = is_digit c"
| "digits_ok (c # d # cs) = (is_digit c \<and> (if d = 95 then digits_ok cs else digits_ok (d # cs)))"

definition digit_group :: "pystr \<Rightarrow> nat option" where
  "digit_group s = (if digits_ok s then Some (digits_value (filter (\<lambda>c. c \<noteq> 95) s)) else None)"

text \<open>43 and 45 are the signs.\<close>

definition split_sign :: "pystr \<Rightarrow> bool \<times> pystr" where
  "split_sign s = (case s of [] \<Rightarrow> (False, []) | c # cs \<Rightarrow> if c = 45 then (True, cs) else if c = 43 then (False, cs) else (False, c # cs))"

definition int_of_str :: "pystr \<Rightarrow> int res" where
  "int_of_str s = (case split_sign (strip s) of (neg, body) \<Rightarrow>
     (case digit_group body of
        None \<Rightarrow> Inl (ValueError (py ''invalid literal for int() with base 10: '' @ py_repr s))
      | Some n \<Rightarrow> Inr (if neg then - int n else int n)))"

text \<open>An exponent, an integer after 101 or 69, the letters e and E; 46 is the point.\<close>

definition mantissa :: "pystr \<Rightarrow> real option" where
  "mantissa s =
     (let whole = takeWhile (\<lambda>c. c \<noteq> 46) s; rest = dropWhile (\<lambda>c. c \<noteq> 46) s; frac = tl rest;
          digits = (\<lambda>d. length (filter (\<lambda>c. c \<noteq> 95) d))
      in if rest = [] \<or> (frac = [] \<and> whole \<noteq> []) then map_option real (digit_group whole)
         else case digit_group frac of
             None \<Rightarrow> None
           | Some f \<Rightarrow> (if whole = [] then Some (real f / 10 ^ digits frac)
               else map_option (\<lambda>w. real w + real f / 10 ^ digits frac) (digit_group whole)))"

definition exponent :: "pystr \<Rightarrow> int option" where
  "exponent s = (if s = [] then Some 0
     else case split_sign (tl s) of (neg, e) \<Rightarrow> map_option (\<lambda>n. if neg then - int n else int n) (digit_group e))"

definition float_of_str :: "pystr \<Rightarrow> real res" where
  "float_of_str s = (case split_sign (strip s) of (neg, body) \<Rightarrow>
     (let m = takeWhile (\<lambda>c. c \<noteq> 101 \<and> c \<noteq> 69) body; e = dropWhile (\<lambda>c. c \<noteq> 101 \<and> c \<noteq> 69) body
      in case (mantissa m, exponent e) of
           (Some x, Some k) \<Rightarrow> Inr ((if neg then -1 else 1) * (if 0 \<le> k then x * 10 ^ nat k else x / 10 ^ nat (- k)))
         | _ \<Rightarrow> Inl (ValueError (py ''could not convert string to float: '' @ py_repr s))))"

section \<open>Interpolation\<close>

text \<open>The characters of a variable's name.\<close>

definition var_char :: "nat \<Rightarrow> bool" where
  "var_char c \<longleftrightarrow> (65 \<le> c \<and> c \<le> 90) \<or> is_digit c \<or> c = 95"

text \<open>
  \<open>_ENV_VAR_PATTERN\<close> at the start of a string: the name, the default if there is one, and what follows the match.
  36, 123 and 125 are the dollar and the braces; the default is the shortest text without a line feed that a
  closing brace follows.
\<close>

definition match_var :: "pystr \<Rightarrow> (pystr \<times> pystr option \<times> pystr) option" where
  "match_var s =
     (if take 2 s \<noteq> [36, 123] then None
      else let name = takeWhile var_char (drop 2 s); rest = dropWhile var_char (drop 2 s)
           in if name = [] then None
              else if take 1 rest = [125] then Some (name, None, drop 1 rest)
              else if take 2 rest = py '':-'' then
                (let dflt = takeWhile (\<lambda>c. c \<noteq> 125 \<and> c \<noteq> 10) (drop 2 rest);
                     tail = dropWhile (\<lambda>c. c \<noteq> 125 \<and> c \<noteq> 10) (drop 2 rest)
                 in if take 1 tail = [125] then Some (name, Some dflt, drop 1 tail) else None)
              else None)"

definition replace_env_match :: "(pystr \<Rightarrow> pystr option) \<Rightarrow> pystr \<Rightarrow> pystr option \<Rightarrow> pystr res" where
  "replace_env_match environ var dflt =
     (case environ var of
        Some resolved \<Rightarrow> Inr resolved
      | None \<Rightarrow> (case dflt of Some d \<Rightarrow> Inr d
          | None \<Rightarrow> Inl (KeyError (py ''Environment variable '' @ py_repr var @ py '' referenced in config but not set''))))"

lemma length_dropWhile_drop: "length (dropWhile P (drop n s)) \<le> length s"
  using length_dropWhile_le [of P "drop n s"] by simp

lemma match_var_shorter: "match_var s = Some (v, d, rest) \<Longrightarrow> length rest < length s"
proof -
  assume m: "match_var s = Some (v, d, rest)"
  let ?rest = "dropWhile var_char (drop 2 s)"
  have two: "2 \<le> length s" and r: "length ?rest \<le> length s - 2"
    using m length_dropWhile_le [of var_char "drop 2 s"] by (auto simp: match_var_def split: if_splits) (cases s; cases "tl s"; simp)
  have "length (drop 1 (dropWhile (\<lambda>c. c \<noteq> 125 \<and> c \<noteq> 10) (drop 2 ?rest))) \<le> length ?rest"
    using length_dropWhile_le [of "\<lambda>c. c \<noteq> 125 \<and> c \<noteq> 10" "drop 2 ?rest"] by simp
  with m two r show ?thesis
    by (auto simp: match_var_def Let_def split: if_splits)
qed

text \<open>\<open>re.sub\<close> of the pattern: left to right, what was inserted is not scanned again.\<close>

function sub_env :: "(pystr \<Rightarrow> pystr option) \<Rightarrow> pystr \<Rightarrow> pystr res" where
  "sub_env environ s =
     (case match_var s of
        Some (var, dflt, rest) \<Rightarrow>
          (case replace_env_match environ var dflt of
             Inl e \<Rightarrow> Inl e
           | Inr v \<Rightarrow> (case sub_env environ rest of Inl e \<Rightarrow> Inl e | Inr t \<Rightarrow> Inr (v @ t)))
      | None \<Rightarrow> (case s of [] \<Rightarrow> Inr []
          | c # cs \<Rightarrow> (case sub_env environ cs of Inl e \<Rightarrow> Inl e | Inr t \<Rightarrow> Inr (c # t))))"
  by pat_completeness auto
termination
  by (relation "measure (\<lambda>(_, s). length s)") (auto dest: match_var_shorter)

declare sub_env.simps [simp del]

fun interpolate_env :: "(pystr \<Rightarrow> pystr option) \<Rightarrow> json \<Rightarrow> json res"
and interpolate_list :: "(pystr \<Rightarrow> pystr option) \<Rightarrow> json list \<Rightarrow> json list res"
and interpolate_items :: "(pystr \<Rightarrow> pystr option) \<Rightarrow> payload \<Rightarrow> payload res" where
  "interpolate_env environ (JStr s) = map_sum id JStr (sub_env environ s)"
| "interpolate_env environ (JObj d) = map_sum id JObj (interpolate_items environ d)"
| "interpolate_env environ (JList xs) = map_sum id JList (interpolate_list environ xs)"
| "interpolate_env environ v = Inr v"
| "interpolate_list environ [] = Inr []"
| "interpolate_list environ (x # xs) =
     (case interpolate_env environ x of Inl e \<Rightarrow> Inl e | Inr y \<Rightarrow> map_sum id ((#) y) (interpolate_list environ xs))"
| "interpolate_items environ [] = Inr []"
| "interpolate_items environ ((k, v) # d) =
     (case interpolate_env environ v of Inl e \<Rightarrow> Inl e | Inr w \<Rightarrow> map_sum id ((#) (k, w)) (interpolate_items environ d))"

section \<open>Building dataclasses\<close>

text \<open>The annotations of \<open>config/schema.py\<close>. An enumeration is given by its values.\<close>

datatype annotation =
    BoolA
  | IntA
  | FloatA
  | StrA
  | NoneA
  | EnumA "pystr list"
  | ListA annotation
  | DictA annotation
  | UnionA "annotation list"
  | ClassA pystr
  | AppA

text \<open>What a field can hold: the data as it is, an enumeration member, a container of converted values, an object.\<close>

datatype cval =
    Plain json
  | EnumV pystr
  | ListV "cval list"
  | DictV "(pystr \<times> cval) list"
  | ObjV pystr "(pystr \<times> cval) list"
  | AppV payload

text \<open>The fields of a dataclass with their annotations; each has a default, but for the names of MCP servers.\<close>

definition optional :: "annotation \<Rightarrow> annotation" where
  "optional a = UnionA [a, NoneA]"

definition backend_values :: "pystr list" where
  "backend_values = [py ''memory'', py ''redis'', py ''sqlite'', py ''qdrant'']"

definition SCHEMA :: "(pystr \<times> (pystr \<times> annotation) list) list" where
  "SCHEMA = [
    (py ''AgentConfig'', [(py ''max_iterations'', IntA), (py ''per_tool_timeout_s'', FloatA), (py ''per_turn_budget_s'', optional FloatA),
       (py ''max_cached_models'', IntA), (py ''system_prompt'', StrA), (py ''factual_block_header'', StrA),
       (py ''episodic_block_header'', StrA), (py ''summary_block_header'', StrA), (py ''skills_block_header'', StrA)]),
    (py ''WorkingMemoryConfig'', [(py ''buffer_turns'', IntA), (py ''buffer_token_budget'', IntA), (py ''rollover_system_prompt'', StrA),
       (py ''idle_finalize_s'', IntA), (py ''ttl_s'', IntA), (py ''sweep_interval_s'', IntA)]),
    (py ''EpisodicMemoryConfig'', [(py ''enabled'', BoolA), (py ''top_k'', IntA), (py ''min_score'', FloatA), (py ''query_augment_turns'', IntA),
       (py ''query_rewrite'', BoolA), (py ''query_rewrite_system_prompt'', StrA), (py ''decay_rate'', FloatA),
       (py ''flagged_moments_enabled'', BoolA), (py ''max_flagged_moments'', IntA), (py ''flagged_moments_system_prompt'', StrA)]),
    (py ''FactualMemoryConfig'', [(py ''extraction_enabled'', BoolA), (py ''extraction_system_prompt'', StrA)]),
    (py ''StoreRetryConfig'', [(py ''max_retries'', IntA), (py ''backoff_base_seconds'', FloatA), (py ''backoff_max_seconds'', FloatA),
       (py ''jitter_seconds'', FloatA)]),
    (py ''MemoryConfig'', [(py ''working'', ClassA (py ''WorkingMemoryConfig'')), (py ''episodic'', ClassA (py ''EpisodicMemoryConfig'')),
       (py ''factual'', ClassA (py ''FactualMemoryConfig'')), (py ''store_retry'', ClassA (py ''StoreRetryConfig''))]),
    (py ''ContextConfig'', [(py ''max_input_tokens'', IntA), (py ''output_reserve_tokens'', IntA), (py ''safety_margin'', IntA)]),
    (py ''RedisConfig'', [(py ''url'', StrA)]),
    (py ''SqliteConfig'', [(py ''url'', StrA)]),
    (py ''QdrantConfig'', [(py ''mode'', StrA), (py ''path'', StrA), (py ''url'', StrA), (py ''collection'', StrA), (py ''vector_size'', IntA)]),
    (py ''StoresConfig'', [(py ''session_backend'', EnumA backend_values), (py ''profile_backend'', EnumA backend_values),
       (py ''vector_backend'', EnumA backend_values), (py ''permission_backend'', EnumA backend_values),
       (py ''redis'', ClassA (py ''RedisConfig'')), (py ''sqlite'', ClassA (py ''SqliteConfig'')), (py ''qdrant'', ClassA (py ''QdrantConfig''))]),
    (py ''McpServerConfig'', [(py ''name'', StrA), (py ''transport'', EnumA [py ''stdio'', py ''http'', py ''sse'']), (py ''command'', optional StrA),
       (py ''url'', optional StrA), (py ''args'', ListA StrA), (py ''auto_allow'', BoolA)]),
    (py ''McpConfig'', [(py ''servers'', ListA (ClassA (py ''McpServerConfig''))), (py ''startup_timeout_s'', FloatA)]),
    (py ''ToolPolicy'', [(py ''timeout_s'', optional FloatA), (py ''rate_limit_per_minute'', optional IntA), (py ''requires_approval'', BoolA),
       (py ''approval_timeout_s'', FloatA)]),
    (py ''ToolsConfig'', [(py ''default_allowed'', ListA StrA), (py ''definitions'', DictA (ClassA (py ''ToolPolicy''))),
       (py ''max_rate_limit_buckets'', IntA)]),
    (py ''SkillsConfig'', [(py ''paths'', ListA StrA)]),
    (py ''MetricsConfig'', [(py ''enabled'', BoolA)]),
    (py ''TelemetryConfig'', [(py ''enabled'', BoolA), (py ''service_name'', StrA), (py ''sample_rate'', FloatA), (py ''environment'', StrA),
       (py ''release'', StrA)]),
    (py ''DeduplicationConfig'', [(py ''similarity_threshold'', FloatA), (py ''max_points_per_user'', IntA), (py ''worker_concurrency'', IntA)]),
    (py ''ResummarizationConfig'', [(py ''min_age_days'', FloatA), (py ''max_points_per_user'', IntA), (py ''worker_concurrency'', IntA)]),
    (py ''JobsConfig'', [(py ''deduplication'', ClassA (py ''DeduplicationConfig'')), (py ''resummarization'', ClassA (py ''ResummarizationConfig''))]),
    (py ''HarnessKitConfig'', [(py ''agent'', ClassA (py ''AgentConfig'')), (py ''memory'', ClassA (py ''MemoryConfig'')),
       (py ''context'', ClassA (py ''ContextConfig'')), (py ''stores'', ClassA (py ''StoresConfig'')), (py ''mcp'', ClassA (py ''McpConfig'')),
       (py ''tools'', ClassA (py ''ToolsConfig'')), (py ''skills'', ClassA (py ''SkillsConfig'')), (py ''jobs'', ClassA (py ''JobsConfig'')),
       (py ''telemetry'', ClassA (py ''TelemetryConfig'')), (py ''metrics'', ClassA (py ''MetricsConfig'')), (py ''llm_kit'', AppA)])]"

definition class_fields :: "pystr \<Rightarrow> (pystr \<times> annotation) list" where
  "class_fields cls = (case map_of SCHEMA cls of None \<Rightarrow> [] | Some fs \<Rightarrow> fs)"

text \<open>
  The numbers of Python's data model that compare with \<open>>=\<close>; other operands raise. Two lists, which Python compares
  as well, are refused here.
\<close>

definition numeric :: "cval \<Rightarrow> real res" where
  "numeric v = (case v of Plain (JInt i) \<Rightarrow> Inr (of_int i) | Plain (JFloat r) \<Rightarrow> Inr r
     | Plain (JBool b) \<Rightarrow> Inr (if b then 1 else 0) | _ \<Rightarrow> Inl (TypeError (py ''unsupported operands for >='')))"

definition kwarg :: "(pystr \<times> cval) list \<Rightarrow> string \<Rightarrow> cval \<Rightarrow> cval" where
  "kwarg kwargs k dflt = (case map_of kwargs (py k) of None \<Rightarrow> dflt | Some v \<Rightarrow> v)"

fun server_names :: "cval list \<Rightarrow> cval list res" where
  "server_names [] = Inr []"
| "server_names (ObjV cls kwargs # vs) = (case server_names vs of Inl e \<Rightarrow> Inl e | Inr ns \<Rightarrow> Inr (kwarg kwargs ''name'' (Plain JNull) # ns))"
| "server_names (v # vs) = Inl (BackendError (py ''no attribute name''))"

definition hashable :: "cval \<Rightarrow> bool" where
  "hashable v \<longleftrightarrow> (case v of Plain (JList _) \<Rightarrow> False | Plain (JObj _) \<Rightarrow> False | ListV _ \<Rightarrow> False | DictV _ \<Rightarrow> False | _ \<Rightarrow> True)"

text \<open>Equal numbers are one element of a set; a message with the duplicates needs them to be strings.\<close>

definition name_key :: "cval \<Rightarrow> cval + real" where
  "name_key v = (case numeric v of Inr r \<Rightarrow> Inr r | Inl _ \<Rightarrow> Inl v)"

definition duplicate_names :: "cval list \<Rightarrow> exn" where
  "duplicate_names names =
     (let dupes = filter (\<lambda>n. 1 < length (filter (\<lambda>m. name_key m = name_key n) names)) names
      in if list_all (\<lambda>n. case n of Plain (JStr _) \<Rightarrow> True | _ \<Rightarrow> False) dupes
         then ValueError (py ''mcp: server names must be unique'')
         else TypeError (py ''expected str instance''))"

text \<open>\<open>cls(**kwargs)\<close>: the required field, and the two \<open>__post_init__\<close>.\<close>

definition construct :: "pystr \<Rightarrow> (pystr \<times> cval) list \<Rightarrow> cval res" where
  "construct cls kwargs =
     (if cls = py ''McpServerConfig'' \<and> map_of kwargs (py ''name'') = None
      then Inl (TypeError (py ''missing a required argument: name''))
      else if cls = py ''WorkingMemoryConfig''
      then (case (numeric (kwarg kwargs ''idle_finalize_s'' (Plain (JInt 900))), numeric (kwarg kwargs ''ttl_s'' (Plain (JInt 3600)))) of
              (Inr idle, Inr ttl) \<Rightarrow> if idle \<ge> ttl then Inl (ValueError (py ''working memory: idle_finalize_s must be < ttl_s''))
                else Inr (ObjV cls kwargs)
            | _ \<Rightarrow> Inl (TypeError (py ''unsupported operands for >='')))
      else if cls = py ''McpConfig''
      then (case kwarg kwargs ''servers'' (ListV []) of
              ListV vs \<Rightarrow> (case server_names vs of
                  Inl e \<Rightarrow> Inl e
                | Inr names \<Rightarrow> if \<not> list_all hashable names then Inl (TypeError (py ''unhashable type''))
                    else if \<not> distinct (map name_key names) then Inl (duplicate_names names)
                    else Inr (ObjV cls kwargs))
            | _ \<Rightarrow> Inl (TypeError (py ''object is not iterable'')))
      else Inr (ObjV cls kwargs))"

text \<open>The last lines of \<open>_coerce\<close>: a string, which interpolation always yields, as the annotated scalar.\<close>

definition lower :: "pystr \<Rightarrow> pystr" where
  "lower s = map (\<lambda>c. if 65 \<le> c \<and> c \<le> 90 then c + 32 else c) s"

definition coerce_scalar :: "annotation \<Rightarrow> json \<Rightarrow> cval res" where
  "coerce_scalar a v =
     (case v of JStr s \<Rightarrow>
        (case a of
           BoolA \<Rightarrow> Inr (Plain (JBool (lower (strip s) \<in> {py ''1'', py ''true'', py ''yes'', py ''on''})))
         | IntA \<Rightarrow> map_sum id (\<lambda>i. Plain (JInt i)) (int_of_str s)
         | FloatA \<Rightarrow> map_sum id (\<lambda>x. Plain (JFloat x)) (float_of_str s)
         | _ \<Rightarrow> Inr (Plain v))
      | _ \<Rightarrow> Inr (Plain v))"

definition coerce_enum :: "pystr list \<Rightarrow> json \<Rightarrow> cval res" where
  "coerce_enum values v = (case v of JStr s \<Rightarrow> if s \<in> set values then Inr (EnumV s) else Inl (ValueError (py_repr s @ py '' is not a valid value''))
     | _ \<Rightarrow> Inl (ValueError (py ''not a valid value'')))"

text \<open>A union takes the first arm that accepts the value: only these two exceptions move on to the next.\<close>

fun try_arms :: "(annotation \<Rightarrow> cval res) \<Rightarrow> annotation list \<Rightarrow> json \<Rightarrow> cval res" where
  "try_arms f [] v = Inr (Plain v)"
| "try_arms f (arm # arms) v =
     (if arm = NoneA then try_arms f arms v
      else case f arm of
          Inl (TypeError _) \<Rightarrow> try_arms f arms v
        | Inl (ValueError _) \<Rightarrow> try_arms f arms v
        | r \<Rightarrow> r)"

lemma try_arms_cong [fundef_cong]:
  "arms = arms' \<Longrightarrow> v = v' \<Longrightarrow> (\<And>a. a \<in> set arms' \<Longrightarrow> f a = g a) \<Longrightarrow> try_arms f arms v = try_arms g arms' v'"
  by (induction arms arbitrary: arms') (auto split: sum.splits exn.splits)

text \<open>
  \<open>_coerce\<close>, with \<open>_build_dataclass\<close> for its nested objects. A string where a list is expected is iterated by its
  characters, a dictionary by its keys.
\<close>

definition unknown_key :: "pystr \<Rightarrow> pystr \<Rightarrow> exn" where
  "unknown_key cls k = ValueError (py ''Unknown config key '' @ py_repr k @ py '' for '' @ cls)"

fun coerce_str :: "annotation \<Rightarrow> pystr \<Rightarrow> cval res" where
  "coerce_str (EnumA values) s = coerce_enum values (JStr s)"
| "coerce_str (ListA a) s = map_sum id ListV (map_res (\<lambda>c. coerce_str a [c]) s)"
| "coerce_str (DictA a) s = Inl (BackendError (py ''no attribute items''))"
| "coerce_str (UnionA arms) s = try_arms (\<lambda>a. coerce_str a s) arms (JStr s)"
| "coerce_str a s = coerce_scalar a (JStr s)"

lemma item_size: "(k, w) \<in> set d \<Longrightarrow> size w \<le> size_list (size_prod (\<lambda>_. 0) size) d"
  by (induction d) auto

function coerce :: "(payload \<Rightarrow> cval res) \<Rightarrow> annotation \<Rightarrow> json \<Rightarrow> cval res" where
  "coerce app a v =
     (case v of
        JNull \<Rightarrow> Inr (Plain JNull)
      | JStr s \<Rightarrow> coerce_str a s
      | JObj d \<Rightarrow>
          (case a of
             AppA \<Rightarrow> app d
           | ClassA cls \<Rightarrow> bind_res (map_res (\<lambda>(k, w).
                 case map_of (class_fields cls) k of
                   None \<Rightarrow> Inl (unknown_key cls k)
                 | Some b \<Rightarrow> map_sum id (\<lambda>x. (k, x)) (coerce app b w)) d) (construct cls)
           | EnumA values \<Rightarrow> coerce_enum values v
           | ListA b \<Rightarrow> map_sum id ListV (map_res (\<lambda>(k, w). coerce_str b k) d)
           | DictA b \<Rightarrow> map_sum id DictV (map_res (\<lambda>(k, w). map_sum id (\<lambda>x. (k, x)) (coerce app b w)) d)
           | UnionA arms \<Rightarrow> try_arms (\<lambda>b. coerce app b v) arms v
           | _ \<Rightarrow> Inr (Plain v))
      | _ \<Rightarrow>
          (case a of
             EnumA values \<Rightarrow> coerce_enum values v
           | ListA b \<Rightarrow> (case v of
                 JList xs \<Rightarrow> map_sum id ListV (map_res (coerce app b) xs)
               | _ \<Rightarrow> Inl (TypeError (py ''object is not iterable'')))
           | DictA b \<Rightarrow> Inl (BackendError (py ''no attribute items''))
           | UnionA arms \<Rightarrow> try_arms (\<lambda>b. coerce app b v) arms v
           | _ \<Rightarrow> Inr (Plain v)))"
  by pat_completeness auto
termination
  by (relation "measures [\<lambda>(app, a, v). size v, \<lambda>(app, a, v). size a]")
    (auto dest: size_list_estimation' item_size simp: less_Suc_eq_le)

declare coerce.simps [simp del]

definition build_dataclass :: "(payload \<Rightarrow> cval res) \<Rightarrow> pystr \<Rightarrow> payload \<Rightarrow> cval res" where
  "build_dataclass app cls d = coerce app (ClassA cls) (JObj d)"

definition load_dict :: "(pystr \<Rightarrow> pystr option) \<Rightarrow> (payload \<Rightarrow> cval res) \<Rightarrow> pystr \<Rightarrow> payload \<Rightarrow> cval res" where
  "load_dict environ app cls d = (case interpolate_items environ d of Inl e \<Rightarrow> Inl e | Inr d \<Rightarrow> build_dataclass app cls d)"

text \<open>\<open>yaml.safe_load(raw) or {}\<close>: empty documents, and other false values, count as an empty mapping.\<close>

definition falsy :: "json \<Rightarrow> bool" where
  "falsy v \<longleftrightarrow> v \<in> {JNull, JBool False, JInt 0, JFloat 0, JStr [], JList [], JObj []}"

definition load_yaml :: "(pystr \<Rightarrow> pystr option) \<Rightarrow> (payload \<Rightarrow> cval res) \<Rightarrow> pystr \<Rightarrow> pystr \<Rightarrow> json \<Rightarrow> cval res" where
  "load_yaml environ app cls path data =
     (if falsy data then load_dict environ app cls []
      else case data of JObj d \<Rightarrow> load_dict environ app cls d
        | _ \<Rightarrow> Inl (ValueError (py ''Top-level YAML at '' @ path @ py '' must be a mapping'')))"

text \<open>\<open>HarnessKitConfig.from_dict\<close> and \<open>from_yaml\<close>.\<close>

definition config_from_dict :: "(pystr \<Rightarrow> pystr option) \<Rightarrow> (payload \<Rightarrow> cval res) \<Rightarrow> payload \<Rightarrow> cval res" where
  "config_from_dict environ app d = load_dict environ app (py ''HarnessKitConfig'') d"

definition config_from_yaml :: "(pystr \<Rightarrow> pystr option) \<Rightarrow> (payload \<Rightarrow> cval res) \<Rightarrow> pystr \<Rightarrow> json \<Rightarrow> cval res" where
  "config_from_yaml environ app path data = load_yaml environ app (py ''HarnessKitConfig'') path data"

section \<open>What interpolation does\<close>

lemma match_var_dollar: "match_var (c # s) = None" if "c \<noteq> 36"
  using that by (simp add: match_var_def take_Cons')

lemma sub_env_plain: "36 \<notin> set p \<Longrightarrow> sub_env environ (p @ s) = map_sum id ((@) p) (sub_env environ s)"
proof (induction p)
  case Nil
  show ?case by (cases "sub_env environ s") simp_all
next
  case (Cons c p)
  then show ?case
    by (cases "sub_env environ s") (simp_all add: match_var_dollar sub_env.simps [of environ "c # p @ s"])
qed

lemma py_marks: "py ''${'' = [36, 123]" "py '':-'' = [58, 45]"
  by (simp_all add: py_def)

lemma match_reference:
  assumes "name \<noteq> []" and "\<forall>c \<in> set name. var_char c"
  shows "match_var (py ''${'' @ name @ [125] @ s) = Some (name, None, s)"
    and "125 \<notin> set dflt \<Longrightarrow> 10 \<notin> set dflt \<Longrightarrow> match_var (py ''${'' @ name @ py '':-'' @ dflt @ [125] @ s) = Some (name, Some dflt, s)"
proof -
  have tw: "takeWhile var_char (name @ c # r) = name" "dropWhile var_char (name @ c # r) = c # r" if "\<not> var_char c" for c r
    using assms(2) that by (simp_all add: takeWhile_append2 dropWhile_append2)
  have "\<not> var_char 125" "\<not> var_char 58" by (simp_all add: var_char_def is_digit_def)
  note tw = tw [OF this(1)] tw [OF this(2)]
  show "match_var (py ''${'' @ name @ [125] @ s) = Some (name, None, s)"
    using assms(1) by (simp add: match_var_def py_marks tw take_Cons' drop_Cons')
  assume "125 \<notin> set dflt" and "10 \<notin> set dflt"
  then have "takeWhile (\<lambda>c. c \<noteq> 125 \<and> c \<noteq> 10) (dflt @ 125 # s) = dflt" "dropWhile (\<lambda>c. c \<noteq> 125 \<and> c \<noteq> 10) (dflt @ 125 # s) = 125 # s"
    by (subst takeWhile_append2 dropWhile_append2; auto)+
  then show "match_var (py ''${'' @ name @ py '':-'' @ dflt @ [125] @ s) = Some (name, Some dflt, s)"
    using assms(1) by (simp add: match_var_def py_marks tw take_Cons' drop_Cons')
qed

text \<open>A reference is replaced by the variable's value, as it is, or by the default; without either it is an error.\<close>

lemma sub_env_reference:
  assumes "match_var s = Some (name, dflt, rest)"
  shows "sub_env environ s = (case environ name of
      Some v \<Rightarrow> map_sum id ((@) v) (sub_env environ rest)
    | None \<Rightarrow> (case dflt of Some d \<Rightarrow> map_sum id ((@) d) (sub_env environ rest)
        | None \<Rightarrow> Inl (KeyError (py ''Environment variable '' @ py_repr name @ py '' referenced in config but not set''))))"
  by (subst sub_env.simps) (simp add: assms replace_env_match_def split: option.splits sum.splits)

text \<open>A union keeps a string that none of its arms can read: an optional number need not be one.\<close>

lemma optional_number_kept:
  "int_of_str s = Inl e \<Longrightarrow> coerce app (optional IntA) (JStr s) = Inr (Plain (JStr s))"
  "float_of_str s = Inl e \<Longrightarrow> coerce app (optional FloatA) (JStr s) = Inr (Plain (JStr s))"
  by (auto simp: coerce.simps optional_def coerce_scalar_def int_of_str_def float_of_str_def Let_def
      split: prod.splits option.splits)

text \<open>\<open>int(str(i))\<close> is \<open>i\<close>.\<close>

lemma digits_ok_all: "digits_ok s" if "s \<noteq> []" "\<forall>c \<in> set s. is_digit c"
  using that by (induction s rule: digits_ok.induct) (auto simp: is_digit_def)

lemma nat_digits_not_Nil [simp]: "nat_digits n \<noteq> []"
  by (subst nat_digits.simps) simp

lemma digit_group_nat_digits: "digit_group (nat_digits n) = Some n"
proof -
  have "is_digit c" "c \<noteq> 95" if "c \<in> set (nat_digits n)" for c
    using set_nat_digits [of n] that by (auto simp: is_digit_def)
  then have "digits_ok (nat_digits n)" "filter (\<lambda>c. c \<noteq> 95) (nat_digits n) = nat_digits n"
    by (auto intro!: digits_ok_all simp: filter_id_conv)
  then show ?thesis by (simp add: digit_group_def)
qed

lemma strip_plain: "strip s = s" if "\<forall>c \<in> set s. \<not> is_space c"
proof -
  have d: "dropWhile is_space t = t" if "\<forall>c \<in> set t. \<not> is_space c" for t
    using that by (cases t) auto
  from that show ?thesis by (simp add: strip_def rstrip_def d)
qed

lemma int_of_str_py_int: "int_of_str (py_int i) = Inr i"
proof -
  have "\<not> is_space c" if "c \<in> set (nat_digits n)" for c n
  proof -
    from subsetD [OF set_nat_digits that] have "48 \<le> c" "c \<le> 57" by simp_all
    then show ?thesis by (simp add: is_space_def)
  qed
  moreover have "\<not> is_space 45" by (simp add: is_space_def)
  ultimately have plain: "strip (py_int i) = py_int i"
    by (intro strip_plain) (auto simp: py_int_def py_def)
  have "c \<noteq> 45 \<and> c \<noteq> 43" if "nat_digits n = c # cs" for n c cs
    using set_nat_digits [of n] by (auto simp: that)
  then have sign: "split_sign (nat_digits n) = (False, nat_digits n)" for n
    by (auto simp: split_sign_def split: list.splits)
  have minus: "split_sign (py ''-'' @ s) = (True, s)" for s
    by (simp add: split_sign_def py_def)
  show ?thesis
    by (cases "i < 0") (simp_all add: int_of_str_def plain, simp_all add: py_int_def minus sign digit_group_nat_digits)
qed

section \<open>Loaded objects are checked\<close>

text \<open>
  What a field of an annotation can hold: a value of it, or null; a value that is no string where a number or a truth
  value is expected, a value that is no mapping where an object is; anything plain for a union.
\<close>

definition plain :: "(json \<Rightarrow> bool) \<Rightarrow> cval \<Rightarrow> bool" where
  "plain P v \<longleftrightarrow> (case v of Plain j \<Rightarrow> P j | _ \<Rightarrow> False)"

definition no_str :: "json \<Rightarrow> bool" where
  "no_str j \<longleftrightarrow> (case j of JStr _ \<Rightarrow> False | _ \<Rightarrow> True)"

definition no_obj :: "json \<Rightarrow> bool" where
  "no_obj j \<longleftrightarrow> (case j of JObj _ \<Rightarrow> False | _ \<Rightarrow> True)"

fun conforms :: "annotation \<Rightarrow> cval \<Rightarrow> bool" where
  "conforms BoolA v = plain no_str v"
| "conforms IntA v = plain no_str v"
| "conforms FloatA v = plain no_str v"
| "conforms StrA v = plain (\<lambda>_. True) v"
| "conforms NoneA v = plain (\<lambda>_. True) v"
| "conforms (EnumA values) v = (plain (\<lambda>j. j = JNull) v \<or> (case v of EnumV s \<Rightarrow> s \<in> set values | _ \<Rightarrow> False))"
| "conforms (ListA a) v = (plain (\<lambda>j. j = JNull) v \<or> (case v of ListV vs \<Rightarrow> list_all (conforms a) vs | _ \<Rightarrow> False))"
| "conforms (DictA a) v = (plain (\<lambda>j. j = JNull) v \<or> (case v of DictV kvs \<Rightarrow> list_all (\<lambda>(k, v). conforms a v) kvs | _ \<Rightarrow> False))"
| "conforms (UnionA arms) v = (plain (\<lambda>_. True) v \<or> (\<exists>a \<in> set arms. conforms a v))"
| "conforms (ClassA cls) v = (plain no_obj v \<or> (case v of ObjV cls' kwargs \<Rightarrow> cls' = cls | _ \<Rightarrow> False))"
| "conforms AppA v = (plain no_obj v \<or> (case v of AppV d \<Rightarrow> True | _ \<Rightarrow> False))"

lemma plain_simps [simp]: "plain P (Plain j) \<longleftrightarrow> P j" "plain P (EnumV s) \<longleftrightarrow> False" "plain P (ListV vs) \<longleftrightarrow> False"
  "plain P (DictV kvs) \<longleftrightarrow> False" "plain P (ObjV cls kwargs) \<longleftrightarrow> False" "plain P (AppV d) \<longleftrightarrow> False"
  by (simp_all add: plain_def)

lemma no_simps [simp]: "no_str JNull" "no_str (JBool b)" "no_str (JInt i)" "no_str (JFloat r)" "no_str (JList xs)" "no_str (JObj d)"
  "no_obj JNull" "no_obj (JBool b)" "no_obj (JInt i)" "no_obj (JFloat r)" "no_obj (JList xs)" "no_obj (JStr s)"
  by (simp_all add: no_str_def no_obj_def)

text \<open>An object has values of its class's fields only, and passed the check of its class; so have all in it.\<close>

definition field_conforms :: "pystr \<Rightarrow> pystr \<Rightarrow> cval \<Rightarrow> bool" where
  "field_conforms cls k v \<longleftrightarrow> (case map_of (class_fields cls) k of None \<Rightarrow> False | Some a \<Rightarrow> conforms a v)"

fun checked :: "cval \<Rightarrow> bool" where
  "checked (Plain v) = True"
| "checked (EnumV s) = True"
| "checked (AppV d) = True"
| "checked (ListV vs) = list_all checked vs"
| "checked (DictV kvs) = list_all (\<lambda>(k, v). checked v) kvs"
| "checked (ObjV cls kwargs) = (construct cls kwargs = Inr (ObjV cls kwargs)
     \<and> list_all (\<lambda>(k, v). field_conforms cls k v \<and> checked v) kwargs)"

lemma construct_same: "construct cls kwargs = Inr x \<Longrightarrow> x = ObjV cls kwargs"
  by (auto simp: construct_def split: if_splits sum.splits cval.splits prod.splits)

lemma map_res_all: "map_res f xs = Inr ys \<Longrightarrow> (\<And>x y. x \<in> set xs \<Longrightarrow> f x = Inr y \<Longrightarrow> P y) \<Longrightarrow> list_all P ys"
proof (induction xs arbitrary: ys)
  case (Cons x xs)
  from Cons.prems(1) obtain y ys' where y: "f x = Inr y" "map_res f xs = Inr ys'" "ys = y # ys'"
    by (auto simp: bind_res_def split: sum.splits)
  have "P y" by (rule Cons.prems(2) [OF _ y(1)]) simp
  moreover have "list_all P ys'"
    by (rule Cons.IH [OF y(2)]) (use Cons.prems(2) in auto)
  ultimately show ?case by (simp add: y(3))
qed simp

lemma try_arms_all: "try_arms f arms v = Inr y \<Longrightarrow> (\<And>a y. a \<in> set arms \<Longrightarrow> f a = Inr y \<Longrightarrow> P y) \<Longrightarrow> P (Plain v) \<Longrightarrow> P y"
  by (induction arms) (auto split: if_splits sum.splits exn.splits)

lemma checked_scalar: "coerce_scalar a v = Inr y \<Longrightarrow> checked y" "coerce_enum values v = Inr y \<Longrightarrow> checked y"
  by (auto simp: coerce_scalar_def coerce_enum_def map_sum_def split: json.splits annotation.splits sum.splits if_splits)

lemma map_sum_Inr: "map_sum id g r = Inr y \<longleftrightarrow> (\<exists>x. r = Inr x \<and> y = g x)"
  by (cases r) auto

lemma checked_str: "coerce_str a s = Inr y \<Longrightarrow> checked y"
proof (induction a s arbitrary: y rule: coerce_str.induct)
  case (2 a s)
  from "2.prems" obtain ys where ys: "map_res (\<lambda>c. coerce_str a [c]) s = Inr ys" "y = ListV ys"
    by (auto simp: map_sum_Inr)
  from map_res_all [OF ys(1)] "2.IH" show ?case by (simp add: ys(2))
next
  case (4 arms s)
  show ?case
    by (rule try_arms_all [where P = checked, OF "4.prems" [unfolded coerce_str.simps]]) (use "4.IH" in auto)
qed (auto dest: checked_scalar)


lemma conforms_str: "coerce_str a s = Inr y \<Longrightarrow> conforms a y"
proof (induction a s arbitrary: y rule: coerce_str.induct)
  case (2 a s)
  from "2.prems" obtain ys where ys: "map_res (\<lambda>c. coerce_str a [c]) s = Inr ys" "y = ListV ys"
    by (auto simp: map_sum_Inr)
  from map_res_all [OF ys(1)] "2.IH" show ?case by (simp add: ys(2))
next
  case (4 arms s)
  show ?case
    by (rule try_arms_all [where P = "conforms (UnionA arms)", OF "4.prems" [unfolded coerce_str.simps]])
      (use "4.IH" in auto)
qed (auto simp: coerce_scalar_def coerce_enum_def map_sum_Inr split: if_splits)

lemmas coerce_value = coerce.simps [of _ _ JNull] coerce.simps [of _ _ "JStr s"] coerce.simps [of _ _ "JBool b"]
  coerce.simps [of _ _ "JInt i"] coerce.simps [of _ _ "JFloat r"] coerce.simps [of _ _ "JList xs"] coerce.simps [of _ _ "JObj d"]
  for s b i r xs d

lemma conforms_coerce:
  assumes app: "\<And>d y. app d = Inr y \<Longrightarrow> \<exists>x. y = AppV x"
  shows "coerce app a v = Inr y \<Longrightarrow> conforms a y"
proof (induction a arbitrary: v y)
  case (ListA b)
  have keys: "list_all (conforms b) ys" if "map_res (\<lambda>(k, w). coerce_str b k) d = Inr ys" for d ys
    by (rule map_res_all [OF that]) (auto intro: conforms_str)
  have items: "list_all (conforms b) ys" if "map_res (coerce app b) xs = Inr ys" for xs ys
    by (rule map_res_all [OF that]) (rule ListA.IH)
  have chars: "list_all (conforms b) ys" if "map_res (\<lambda>c. coerce_str b [c]) s = Inr ys" for s ys
    by (rule map_res_all [OF that]) (auto intro: conforms_str)
  from ListA.prems show ?case
    by (cases v) (auto simp: coerce_value map_sum_Inr keys items chars)
next
  case (DictA b)
  have vals: "list_all (\<lambda>(k, v). conforms b v) kvs"
    if "map_res (\<lambda>(k, w). map_sum id (\<lambda>x. (k, x)) (coerce app b w)) d = Inr kvs" for d kvs
    by (rule map_res_all [OF that]) (auto simp: map_sum_Inr dest: DictA.IH)
  from DictA.prems show ?case
    by (cases v) (auto simp: coerce_value map_sum_Inr vals)
next
  case (UnionA arms)
  have union: "conforms (UnionA arms) y" if "try_arms (\<lambda>b. coerce app b v) arms v = Inr y"
    by (rule try_arms_all [where P = "conforms (UnionA arms)", OF that]) (auto dest: UnionA.IH)
  have strs: "conforms (UnionA arms) y" if "coerce_str (UnionA arms) s = Inr y" for s
    using that by (rule conforms_str)
  from UnionA.prems have "y = Plain JNull \<or> (\<exists>s. coerce_str (UnionA arms) s = Inr y) \<or> try_arms (\<lambda>b. coerce app b v) arms v = Inr y"
    by (subst (asm) coerce.simps) (auto split: json.splits simp del: coerce_str.simps)
  with union strs show ?case by (auto simp del: coerce_str.simps)
next
  case (ClassA cls)
  from ClassA.prems show ?case
    by (cases v) (auto simp: coerce_value coerce_scalar_def bind_res_def split: sum.splits dest: construct_same)
next
  case AppA
  from AppA.prems show ?case
    by (cases v) (auto simp: coerce_value coerce_scalar_def dest: app)
next
  case (EnumA members)
  from EnumA.prems show ?case
    by (cases v) (auto simp: coerce_value coerce_enum_def split: if_splits)
next
  case BoolA
  from BoolA.prems show ?case by (cases v) (auto simp: coerce_value coerce_scalar_def)
next
  case IntA
  from IntA.prems show ?case by (cases v) (auto simp: coerce_value coerce_scalar_def map_sum_Inr)
next
  case FloatA
  from FloatA.prems show ?case by (cases v) (auto simp: coerce_value coerce_scalar_def map_sum_Inr)
next
  case StrA
  from StrA.prems show ?case by (cases v) (auto simp: coerce_value coerce_scalar_def)
next
  case NoneA
  from NoneA.prems show ?case by (cases v) (auto simp: coerce_value coerce_scalar_def)
qed

lemma checked_coerce:
  "coerce app a v = Inr y \<Longrightarrow> (\<And>d y. app d = Inr y \<Longrightarrow> \<exists>x. y = AppV x) \<Longrightarrow> checked y"
proof (induction app a v arbitrary: y rule: coerce.induct)
  case (1 app a v)
  note app = "1.prems"(2)
  have conf: "conforms b x" if "coerce app b w = Inr x" for b w x
    using app that by (rule conforms_coerce)
  have union: "checked y" if "try_arms (\<lambda>b. coerce app b v) arms v = Inr y"
    "\<And>b y. b \<in> set arms \<Longrightarrow> coerce app b v = Inr y \<Longrightarrow> checked y" for arms
    by (rule try_arms_all [where P = checked, OF that]) simp_all
  show ?case
  proof (cases v)
    case JNull
    with "1.prems"(1) show ?thesis by (auto simp: coerce.simps)
  next
    case (JStr s)
    with "1.prems"(1) show ?thesis by (auto simp: coerce.simps intro: checked_str)
  next
    case (JBool b)
    with "1.prems"(1) "1.IH"(2) [OF JBool _ _ _ app] union show ?thesis
      by (cases a) (auto simp: coerce.simps [of _ _ "JBool b"] dest: checked_scalar)
  next
    case (JInt i)
    with "1.prems"(1) "1.IH"(4) [OF JInt _ _ _ app] union show ?thesis
      by (cases a) (auto simp: coerce.simps [of _ _ "JInt i"] dest: checked_scalar)
  next
    case (JFloat r)
    with "1.prems"(1) "1.IH"(6) [OF JFloat _ _ _ app] union show ?thesis
      by (cases a) (auto simp: coerce.simps [of _ _ "JFloat r"] dest: checked_scalar)
  next
    case (JList xs)
    have items: "list_all checked ys" if "a = ListA b" "map_res (coerce app b) xs = Inr ys" for b ys
      by (rule map_res_all [OF that(2)]) (use "1.IH"(7) [OF JList that(1) JList _ _ app] in auto)
    from JList "1.prems"(1) "1.IH"(8) [OF JList _ _ _ app] union items show ?thesis
      by (cases a) (auto simp: coerce.simps [of _ _ "JList xs"] map_sum_Inr dest: checked_scalar)
  next
    case (JObj d)
    let ?field = "\<lambda>cls (k, w). case map_of (class_fields cls) k of None \<Rightarrow> Inl (unknown_key cls k)
        | Some b \<Rightarrow> map_sum id (\<lambda>x. (k, x)) (coerce app b w)"
    have vals: "list_all (\<lambda>(k, v). checked v) kvs"
      if "a = DictA b" "map_res (\<lambda>(k, w). map_sum id (\<lambda>x. (k, x)) (coerce app b w)) d = Inr kvs" for b kvs
      by (rule map_res_all [OF that(2)]) (use "1.IH"(9) [OF JObj that(1) _ refl _ app] in \<open>auto simp: map_sum_Inr\<close>)
    have keys: "list_all checked ys" if "map_res (\<lambda>(k, w). coerce_str b k) d = Inr ys" for b ys
      by (rule map_res_all [OF that]) (auto intro: checked_str)
    have object: "checked y" if "a = ClassA cls" "map_res (?field cls) d = Inr kwargs" "construct cls kwargs = Inr y" for cls kwargs
    proof -
      have "list_all (\<lambda>(k, v). field_conforms cls k v \<and> checked v) kwargs"
        by (rule map_res_all [OF that(2)])
          (use "1.IH"(11) [OF JObj that(1) _ refl _ _ app] in
            \<open>auto simp: map_sum_Inr field_conforms_def split: option.splits dest: conf\<close>)
      with construct_same [OF that(3)] that(3) show ?thesis by simp
    qed
    show ?thesis
    proof (cases a)
      case AppA
      with "1.prems"(1) JObj app [of d y] show ?thesis by (auto simp: coerce.simps)
    next
      case (ClassA cls)
      with "1.prems"(1) JObj obtain kwargs where "map_res (?field cls) d = Inr kwargs" "construct cls kwargs = Inr y"
        by (auto simp: coerce.simps [of _ _ "JObj d"] bind_res_def split: sum.splits)
      with object ClassA show ?thesis by blast
    next
      case (ListA b)
      with "1.prems"(1) JObj keys show ?thesis by (auto simp: coerce.simps [of _ _ "JObj d"] map_sum_Inr)
    next
      case (DictA b)
      with "1.prems"(1) JObj vals show ?thesis by (auto simp: coerce.simps [of _ _ "JObj d"] map_sum_Inr)
    next
      case (UnionA arms)
      with "1.prems"(1) JObj "1.IH"(10) [OF JObj UnionA _ _ app] union show ?thesis
        by (auto simp: coerce.simps [of _ _ "JObj d"])
    qed (use "1.prems"(1) JObj in \<open>auto simp: coerce.simps [of _ _ "JObj d"] dest: checked_scalar\<close>)
  qed
qed

text \<open>The checks of the two classes that have them.\<close>

lemma checked_working:
  assumes "checked (ObjV (py ''WorkingMemoryConfig'') kwargs)"
  shows "\<exists>idle ttl. numeric (kwarg kwargs ''idle_finalize_s'' (Plain (JInt 900))) = Inr idle
    \<and> numeric (kwarg kwargs ''ttl_s'' (Plain (JInt 3600))) = Inr ttl \<and> idle < ttl"
  using assms by (auto simp: construct_def split: sum.splits prod.splits if_splits)

lemma load_dict_keys:
  assumes "load_dict environ app cls d = Inr cfg"
  shows "\<exists>kwargs. cfg = ObjV cls kwargs \<and> map fst kwargs = map fst d"
proof -
  have items: "map fst e = map fst d" if "interpolate_items environ d = Inr e" for d e
    using that by (induction d arbitrary: e) (auto simp: map_sum_Inr split: sum.splits)
  have fields: "map fst kwargs = map fst e"
    if "map_res (\<lambda>(k, w). case map_of (class_fields cls) k of None \<Rightarrow> Inl (unknown_key cls k)
        | Some b \<Rightarrow> map_sum id (\<lambda>x. (k, x)) (coerce app b w)) e = Inr kwargs" for e kwargs
    using that by (induction e arbitrary: kwargs) (auto simp: map_sum_Inr bind_res_def split: sum.splits option.splits)
  from assms obtain e where e: "interpolate_items environ d = Inr e" "coerce app (ClassA cls) (JObj e) = Inr cfg"
    by (auto simp: load_dict_def build_dataclass_def split: sum.splits)
  from e(2) obtain kwargs where "map_res (\<lambda>(k, w). case map_of (class_fields cls) k of None \<Rightarrow> Inl (unknown_key cls k)
        | Some b \<Rightarrow> map_sum id (\<lambda>x. (k, x)) (coerce app b w)) e = Inr kwargs" "construct cls kwargs = Inr cfg"
    by (auto simp: coerce.simps [of _ _ "JObj e"] bind_res_def split: sum.splits)
  from construct_same [OF this(2)] fields [OF this(1)] items [OF e(1)] show ?thesis by simp
qed

text \<open>An object holds values under fields of its class only, and passed the checks of its class.\<close>

lemma checked_objD:
  "checked (ObjV cls kwargs) \<Longrightarrow> construct cls kwargs = Inr (ObjV cls kwargs)"
  "checked (ObjV cls kwargs) \<Longrightarrow> map_of kwargs k = Some v \<Longrightarrow> checked v"
  "checked (ObjV cls kwargs) \<Longrightarrow> set (map fst kwargs) \<subseteq> fst ` set (class_fields cls)"
  by (fastforce simp: list_all_iff field_conforms_def dict_mem_iff dest: map_of_SomeD split: option.splits)+

lemma checked_servers:
  assumes "checked (ObjV (py ''McpConfig'') kwargs)" and "map_of kwargs (py ''servers'') = Some (ListV vs)"
  shows "\<exists>names. server_names vs = Inr names \<and> distinct names"
  using assms by (auto simp: construct_def kwarg_def py_def distinct_map split: sum.splits if_splits)

lemma load_dict_checked:
  "load_dict environ app cls d = Inr cfg \<Longrightarrow> (\<And>d y. app d = Inr y \<Longrightarrow> \<exists>x. y = AppV x) \<Longrightarrow> checked cfg"
  by (auto simp: load_dict_def build_dataclass_def split: sum.splits dest: checked_coerce)

text \<open>A section given as null, or as a scalar, replaces the section's object: nothing checks that it is one.\<close>

lemma section_may_be_null:
  "config_from_dict environ app [(py ''memory'', JNull)] = Inr (ObjV (py ''HarnessKitConfig'') [(py ''memory'', Plain JNull)])"
  "config_from_dict environ app [(py ''memory'', JInt i)] = Inr (ObjV (py ''HarnessKitConfig'') [(py ''memory'', Plain (JInt i))])"
  by (simp_all add: config_from_dict_def load_dict_def build_dataclass_def coerce.simps class_fields_def SCHEMA_def py_def
      construct_def bind_res_def)

end
