(* ===== verification/Qdrant_Store.thy ===== *)
theory Qdrant_Store
  imports Vector_Store
begin

text \<open>
  \<open>stores/qdrant_vectors.py\<close>: the vector store on a Qdrant server. The client is a parameter, the record of the
  calls the adapter makes on its one collection; \<open>qdrant_laws\<close> states what their documentation promises, which for
  a search does not include that it finds every point. \<open>uuid5\<close> is a parameter, free of collisions on the
  ids of the program. Connection errors, which end an operation with an exception, are not modelled.
\<close>

section \<open>The client\<close>

text \<open>A point as it is sent, and a record as it comes back; payload and vector come back when they were asked for.\<close>

record point_struct =
  ps_id :: pystr
  ps_vector :: "real list"
  ps_payload :: payload

datatype qvector = Unnamed "real list" | Named "(pystr \<times> real list) list"

record qrecord =
  qr_id :: pystr
  qr_vector :: "qvector option"
  qr_payload :: "payload option"

text \<open>
  The conditions of a filter are keys with the strings they have to match. \<open>qd_get\<close>, \<open>qd_order\<close> and
  \<open>qd_size\<close> are not used by the code: they say what the collection holds, in which order it is scrolled, and the
  length of its vectors. \<open>qd_unit\<close> is what the server makes of a vector for cosine distance, \<open>qd_obj\<close>
  what it makes of an object.
\<close>

record 's qdrant =
  qd_exists :: "'s \<Rightarrow> bool"
  qd_create :: "int \<Rightarrow> 's \<Rightarrow> 's"
  qd_upsert :: "point_struct list \<Rightarrow> 's \<Rightarrow> 's"
  qd_query :: "'s \<Rightarrow> (pystr \<times> pystr) list \<Rightarrow> real list \<Rightarrow> int \<Rightarrow> real \<Rightarrow> (qrecord \<times> real) list"
  qd_retrieve :: "'s \<Rightarrow> pystr list \<Rightarrow> qrecord list"
  qd_delete :: "pystr list \<Rightarrow> 's \<Rightarrow> 's"
  qd_scroll :: "'s \<Rightarrow> (pystr \<times> pystr) list \<Rightarrow> int \<Rightarrow> pystr option \<Rightarrow> qrecord list \<times> pystr option"
  qd_get :: "'s \<Rightarrow> pystr \<Rightarrow> (real list \<times> payload) option"
  qd_order :: "'s \<Rightarrow> pystr list"
  qd_size :: "'s \<Rightarrow> int"
  qd_unit :: "real list \<Rightarrow> real list"
  qd_obj :: "payload \<Rightarrow> payload"

text \<open>A condition holds of a string, and of a list one of whose elements is the string.\<close>

definition field_matches :: "payload \<Rightarrow> pystr \<times> pystr \<Rightarrow> bool" where
  "field_matches d c = (case map_of d (fst c) of
       Some (JStr s) \<Rightarrow> s = snd c | Some (JList xs) \<Rightarrow> JStr (snd c) \<in> set xs | _ \<Rightarrow> False)"

definition stored_record :: "'s qdrant \<Rightarrow> 's \<Rightarrow> pystr \<Rightarrow> qrecord" where
  "stored_record R s i = (case qd_get R s i of
       None \<Rightarrow> \<lparr>qr_id = i, qr_vector = None, qr_payload = None\<rparr>
     | Some (v, d) \<Rightarrow> \<lparr>qr_id = i, qr_vector = Some (Unnamed v), qr_payload = Some d\<rparr>)"

text \<open>The stored points that match, in the order they are scrolled.\<close>

definition scroll_ids :: "'s qdrant \<Rightarrow> 's \<Rightarrow> (pystr \<times> pystr) list \<Rightarrow> pystr list" where
  "scroll_ids R s must = filter (\<lambda>i. case qd_get R s i of None \<Rightarrow> False | Some (v, d) \<Rightarrow> list_all (field_matches d) must) (qd_order R s)"

definition scroll_page :: "'s qdrant \<Rightarrow> 's \<Rightarrow> pystr list \<Rightarrow> int \<Rightarrow> qrecord list \<times> pystr option" where
  "scroll_page R s ids limit = (map (stored_record R s) (take (nat limit) ids),
     if nat limit < length ids then Some (ids ! nat limit) else None)"

text \<open>A missing collection holds nothing; creating it gives it its size.\<close>

definition collection_laws :: "'s qdrant \<Rightarrow> bool" where
  "collection_laws R \<longleftrightarrow> (\<forall>s i. \<not> qd_exists R s \<longrightarrow> qd_get R s i = None)
     \<and> (\<forall>s n. \<not> qd_exists R s \<longrightarrow> qd_exists R (qd_create R n s) \<and> qd_size R (qd_create R n s) = n)
     \<and> (\<forall>s n i. \<not> qd_exists R s \<longrightarrow> qd_get R (qd_create R n s) i = None)
     \<and> (\<forall>d. map_of (qd_obj R d) = map_of d)"

text \<open>Vectors of the collection's size are stored, the last one of an id counts; a deletion removes the ids it names.\<close>

definition write_laws :: "'s qdrant \<Rightarrow> bool" where
  "write_laws R \<longleftrightarrow> (\<forall>s ps. qd_exists R s \<and> (\<forall>p \<in> set ps. int (length (ps_vector p)) = qd_size R s) \<longrightarrow>
          qd_exists R (qd_upsert R ps s) \<and> qd_size R (qd_upsert R ps s) = qd_size R s
          \<and> (\<forall>i. qd_get R (qd_upsert R ps s) i = (case find (\<lambda>p. ps_id p = i) (rev ps) of
               None \<Rightarrow> qd_get R s i | Some p \<Rightarrow> Some (qd_unit R (ps_vector p), qd_obj R (ps_payload p)))))
     \<and> (\<forall>s ids. qd_exists R s \<longrightarrow> qd_exists R (qd_delete R ids s) \<and> qd_size R (qd_delete R ids s) = qd_size R s
          \<and> (\<forall>i. qd_get R (qd_delete R ids s) i = (if i \<in> set ids then None else qd_get R s i)))"

text \<open>
  A query returns at most \<open>k\<close> matching points that reach the threshold, best first. A scroll walks the matching
  points, each once, and its next offset is the id the following page starts with.
\<close>

definition read_laws :: "'s qdrant \<Rightarrow> bool" where
  "read_laws R \<longleftrightarrow> (\<forall>s must q k ms. qd_exists R s \<and> 0 < k \<longrightarrow>
          int (length (qd_query R s must q k ms)) \<le> k
          \<and> sorted_wrt (\<lambda>a b. snd b \<le> snd a) (qd_query R s must q k ms)
          \<and> (\<forall>(r, x) \<in> set (qd_query R s must q k ms). ms \<le> x \<and> r \<in> stored_record R s ` set (scroll_ids R s must)))
     \<and> (\<forall>s ids. qd_exists R s \<longrightarrow> (\<lambda>r. (qr_id r, qr_payload r)) ` set (qd_retrieve R s ids)
          = {(i, Some d) | i v d. i \<in> set ids \<and> qd_get R s i = Some (v, d)})
     \<and> (\<forall>s. qd_exists R s \<longrightarrow> distinct (qd_order R s) \<and> set (qd_order R s) = {i. qd_get R s i \<noteq> None})
     \<and> (\<forall>s must limit c. qd_exists R s \<longrightarrow> set (fst (qd_scroll R s must limit c)) \<subseteq> stored_record R s ` set (scroll_ids R s must))
     \<and> (\<forall>s must limit. qd_exists R s \<and> 0 < limit \<longrightarrow> qd_scroll R s must limit None = scroll_page R s (scroll_ids R s must) limit)
     \<and> (\<forall>s must limit xs i ys. qd_exists R s \<and> 0 < limit \<and> scroll_ids R s must = xs @ i # ys \<longrightarrow>
          qd_scroll R s must limit (Some i) = scroll_page R s (i # ys) limit)"

definition qdrant_laws :: "'s qdrant \<Rightarrow> bool" where
  "qdrant_laws R \<longleftrightarrow> collection_laws R \<and> write_laws R \<and> read_laws R"

section \<open>The adapter\<close>

text \<open>\<open>_build_client\<close> chooses the client by the mode.\<close>

datatype qdrant_client = InProcess | FileBacked pystr | Remote pystr

definition build_client :: "pystr \<Rightarrow> pystr \<Rightarrow> pystr \<Rightarrow> qdrant_client" where
  "build_client mode path url =
     (if mode = py ''memory'' then InProcess else if mode = py ''file'' then FileBacked path else Remote url)"

definition AK_ID_KEY :: pystr where
  "AK_ID_KEY = py ''_ak_id''"

record 's qstore =
  qs_server :: 's
  qs_initialized :: bool

definition qs_init :: "'s \<Rightarrow> 's qstore" where
  "qs_init server = \<lparr>qs_server = server, qs_initialized = False\<rparr>"

definition qs_ensure :: "'s qdrant \<Rightarrow> int \<Rightarrow> 's qstore \<Rightarrow> 's qstore" where
  "qs_ensure R vector_size s =
     (if qs_initialized s then s
      else s\<lparr>qs_server := (if qd_exists R (qs_server s) then qs_server s else qd_create R vector_size (qs_server s)),
             qs_initialized := True\<rparr>)"

definition to_struct :: "(pystr \<Rightarrow> pystr) \<Rightarrow> memory_point \<Rightarrow> point_struct" where
  "to_struct uuid5 p = \<lparr>ps_id = uuid5 (mp_id p), ps_vector = mp_vector p,
     ps_payload = dict_set AK_ID_KEY (JStr (mp_id p)) (mp_payload p)\<rparr>"

definition qs_add :: "'s qdrant \<Rightarrow> (pystr \<Rightarrow> pystr) \<Rightarrow> int \<Rightarrow> 's qstore \<Rightarrow> memory_point list \<Rightarrow> 's qstore" where
  "qs_add R uuid5 vector_size s points =
     (if points = [] then s
      else let s = qs_ensure R vector_size s
           in s\<lparr>qs_server := qd_upsert R (map (to_struct uuid5) points) (qs_server s)\<rparr>)"

text \<open>The reading of a record; the id in the payload, which is a string, is taken out of it.\<close>

definition record_vector :: "qvector option \<Rightarrow> real list" where
  "record_vector v = (case v of None \<Rightarrow> [] | Some (Unnamed xs) \<Rightarrow> xs
     | Some (Named d) \<Rightarrow> (case d of [] \<Rightarrow> [] | (name, xs) # _ \<Rightarrow> xs))"

definition from_record :: "qrecord \<Rightarrow> memory_point" where
  "from_record r =
     (let payload = (case qr_payload r of None \<Rightarrow> [] | Some d \<Rightarrow> d)
      in \<lparr>mp_id = (case map_of payload AK_ID_KEY of Some (JStr original_id) \<Rightarrow> original_id | _ \<Rightarrow> qr_id r),
          mp_vector = record_vector (qr_vector r), mp_payload = dict_del AK_ID_KEY payload\<rparr>)"

definition qs_search :: "'s qdrant \<Rightarrow> int \<Rightarrow> 's qstore \<Rightarrow> pystr \<Rightarrow> real list \<Rightarrow> int \<Rightarrow> real \<Rightarrow> memory_hit list \<times> 's qstore" where
  "qs_search R vector_size s user_id query_vector k min_score =
     (if k \<le> 0 \<or> query_vector = [] then ([], s)
      else let s = qs_ensure R vector_size s;
               response = qd_query R (qs_server s) [(py ''user_id'', user_id)] query_vector k min_score
           in (map (\<lambda>(scored, score). \<lparr>hit_point = from_record scored, hit_score = score\<rparr>) response, s))"

definition qs_delete :: "'s qdrant \<Rightarrow> (pystr \<Rightarrow> pystr) \<Rightarrow> int \<Rightarrow> 's qstore \<Rightarrow> pystr list \<Rightarrow> pystr \<Rightarrow> 's qstore" where
  "qs_delete R uuid5 vector_size s point_ids user_id =
     (if point_ids = [] then s
      else let s = qs_ensure R vector_size s;
               records = qd_retrieve R (qs_server s) (map uuid5 point_ids);
               owned = map qr_id (filter (\<lambda>r. map_of (case qr_payload r of None \<Rightarrow> [] | Some d \<Rightarrow> d) (py ''user_id'') = Some (JStr user_id)) records)
           in if owned = [] then s else s\<lparr>qs_server := qd_delete R owned (qs_server s)\<rparr>)"

definition scroll_filter :: "pystr \<Rightarrow> pystr option \<Rightarrow> (pystr \<times> pystr) list" where
  "scroll_filter user_id kind = (py ''user_id'', user_id) # (case kind of None \<Rightarrow> [] | Some k \<Rightarrow> [(py ''kind'', k)])"

definition qs_list_points :: "'s qdrant \<Rightarrow> int \<Rightarrow> 's qstore \<Rightarrow> pystr \<Rightarrow> pystr option \<Rightarrow> int \<Rightarrow> pystr option
    \<Rightarrow> (memory_point list \<times> pystr option) \<times> 's qstore" where
  "qs_list_points R vector_size s user_id kind limit cursor =
     (let s = qs_ensure R vector_size s;
          (records, next_offset) = qd_scroll R (qs_server s) (scroll_filter user_id kind) limit cursor
      in ((map from_record records, next_offset), s))"

section \<open>What the store holds\<close>

text \<open>Filters match elements of lists too, so the owner and the kind of a point have to be no lists.\<close>

definition scalar_keys :: "payload \<Rightarrow> bool" where
  "scalar_keys d \<longleftrightarrow> (\<forall>k \<in> {py ''user_id'', py ''kind''}. case map_of d k of Some (JList xs) \<Rightarrow> False | _ \<Rightarrow> True)"

definition qs_get :: "'s qdrant \<Rightarrow> 's qstore \<Rightarrow> pystr \<Rightarrow> (real list \<times> payload) option" where
  "qs_get R s i = qd_get R (qs_server s) i"

definition qs_points :: "'s qdrant \<Rightarrow> 's qstore \<Rightarrow> memory_point set" where
  "qs_points R s = (\<lambda>i. from_record (stored_record R (qs_server s) i)) ` {i. qs_get R s i \<noteq> None}"

definition qs_ok :: "'s qdrant \<Rightarrow> (pystr \<Rightarrow> pystr) \<Rightarrow> int \<Rightarrow> 's qstore \<Rightarrow> bool" where
  "qs_ok R uuid5 n s \<longleftrightarrow> qdrant_laws R \<and> inj uuid5 \<and> (qs_initialized s \<longrightarrow> qd_exists R (qs_server s))
     \<and> (qd_exists R (qs_server s) \<longrightarrow> qd_size R (qs_server s) = n)
     \<and> (\<forall>i v d. qs_get R s i = Some (v, d) \<longrightarrow>
          (\<exists>pid. map_of d AK_ID_KEY = Some (JStr pid) \<and> i = uuid5 pid) \<and> scalar_keys d)"

lemma ensure_facts:
  assumes "qs_ok R uuid5 n s"
  shows "qs_ok R uuid5 n (qs_ensure R n s)" and "qd_exists R (qs_server (qs_ensure R n s))"
    and "qd_size R (qs_server (qs_ensure R n s)) = n" and "qs_get R (qs_ensure R n s) = qs_get R s"
    and "qs_points R (qs_ensure R n s) = qs_points R s" and "qs_ensure R n (qs_ensure R n s) = qs_ensure R n s"
proof -
  show e: "qd_exists R (qs_server (qs_ensure R n s))" "qd_size R (qs_server (qs_ensure R n s)) = n"
    using assms by (auto simp: qs_ok_def qs_ensure_def qdrant_laws_def collection_laws_def)
  show g: "qs_get R (qs_ensure R n s) = qs_get R s"
    using assms by (auto simp: qs_ok_def qs_ensure_def qs_get_def qdrant_laws_def collection_laws_def)
  show "qs_ok R uuid5 n (qs_ensure R n s)"
    using assms e unfolding qs_ok_def g by blast
  have "stored_record R (qs_server (qs_ensure R n s)) = stored_record R (qs_server s)"
    using g by (simp add: fun_eq_iff stored_record_def qs_get_def)
  with g show "qs_points R (qs_ensure R n s) = qs_points R s"
    by (simp add: qs_points_def)
  show "qs_ensure R n (qs_ensure R n s) = qs_ensure R n s"
    by (simp add: qs_ensure_def)
qed

lemma key_names [simp]: "py ''user_id'' \<noteq> AK_ID_KEY" "py ''kind'' \<noteq> AK_ID_KEY" "AK_ID_KEY \<noteq> py ''user_id''" "AK_ID_KEY \<noteq> py ''kind''"
  by (simp_all add: AK_ID_KEY_def)

lemma from_stored:
  assumes "qs_ok R uuid5 n s" and "qs_get R s i = Some (v, d)"
  shows "i = uuid5 (mp_id (from_record (stored_record R (qs_server s) i)))"
    and "mp_vector (from_record (stored_record R (qs_server s) i)) = v"
    and "map_of (mp_payload (from_record (stored_record R (qs_server s) i))) = (map_of d)(AK_ID_KEY := None)"
proof -
  from assms obtain pid where pid: "map_of d AK_ID_KEY = Some (JStr pid)" "i = uuid5 pid"
    unfolding qs_ok_def by blast
  have r: "stored_record R (qs_server s) i = \<lparr>qr_id = i, qr_vector = Some (Unnamed v), qr_payload = Some d\<rparr>"
    using assms(2) by (simp add: stored_record_def qs_get_def)
  show "i = uuid5 (mp_id (from_record (stored_record R (qs_server s) i)))"
    "mp_vector (from_record (stored_record R (qs_server s) i)) = v"
    "map_of (mp_payload (from_record (stored_record R (qs_server s) i))) = (map_of d)(AK_ID_KEY := None)"
    unfolding r by (simp_all add: from_record_def record_vector_def pid dict_simps fun_eq_iff)
qed

lemma qs_pointsE:
  assumes "qs_ok R uuid5 n s" and "p \<in> qs_points R s"
  obtains d where "qs_get R s (uuid5 (mp_id p)) = Some (mp_vector p, d)" and "map_of (mp_payload p) = (map_of d)(AK_ID_KEY := None)"
    and "p = from_record (stored_record R (qs_server s) (uuid5 (mp_id p)))"
proof -
  from assms(2) obtain i v d where i: "qs_get R s i = Some (v, d)" and p: "p = from_record (stored_record R (qs_server s) i)"
    by (auto simp: qs_points_def)
  show thesis
    by (rule that [of d]) (use from_stored [OF assms(1) i] i p in auto)
qed

text \<open>The filters select by owner and by kind.\<close>

lemma scalar_match:
  assumes "scalar_keys d" and "k = py ''user_id'' \<or> k = py ''kind''"
  shows "field_matches d (k, x) \<longleftrightarrow> map_of d k = Some (JStr x)"
  using assms by (auto simp: scalar_keys_def field_matches_def split: option.splits json.splits)

lemma filter_matches:
  assumes "scalar_keys d" and "map_of (mp_payload p) = (map_of d)(AK_ID_KEY := None)"
  shows "list_all (field_matches d) (scroll_filter u kind) \<longleftrightarrow> owned_by u p \<and> of_kind kind p"
  using assms by (auto simp: scroll_filter_def scalar_match owned_by_def of_kind_def split: option.splits)

lemma scroll_points:
  assumes "qs_ok R uuid5 n s" and "qd_exists R (qs_server s)"
  shows "from_record ` stored_record R (qs_server s) ` set (scroll_ids R (qs_server s) (scroll_filter u kind)) =
    {p \<in> qs_points R s. owned_by u p \<and> of_kind kind p}"
proof -
  let ?rec = "\<lambda>i. from_record (stored_record R (qs_server s) i)"
  have order: "set (qd_order R (qs_server s)) = {i. qs_get R s i \<noteq> None}"
    using assms by (auto simp: qs_ok_def qdrant_laws_def read_laws_def qs_get_def)
  have m: "list_all (field_matches d) (scroll_filter u kind) \<longleftrightarrow> owned_by u (?rec i) \<and> of_kind kind (?rec i)"
    if "qs_get R s i = Some (v, d)" for i v d
    using that assms(1) by (intro filter_matches from_stored(3) [OF assms(1)]) (auto simp: qs_ok_def)
  have "set (scroll_ids R (qs_server s) (scroll_filter u kind)) = {i. qs_get R s i \<noteq> None \<and> owned_by u (?rec i) \<and> of_kind kind (?rec i)}"
    unfolding scroll_ids_def set_filter order
    by (auto simp: qs_get_def [symmetric] m split: option.splits)
  then show ?thesis by (auto simp: qs_points_def)
qed

section \<open>Writes\<close>

lemma upsert_facts:
  assumes "qdrant_laws R" and "qd_exists R s" and "\<forall>p \<in> set ps. int (length (ps_vector p)) = qd_size R s"
  shows "qd_exists R (qd_upsert R ps s)" and "qd_size R (qd_upsert R ps s) = qd_size R s"
    and "qd_get R (qd_upsert R ps s) i = (case find (\<lambda>p. ps_id p = i) (rev ps) of
       None \<Rightarrow> qd_get R s i | Some p \<Rightarrow> Some (qd_unit R (ps_vector p), qd_obj R (ps_payload p)))"
  using assms unfolding qdrant_laws_def write_laws_def by blast+

lemma delete_facts:
  assumes "qdrant_laws R" and "qd_exists R s"
  shows "qd_exists R (qd_delete R ids s)" and "qd_size R (qd_delete R ids s) = qd_size R s"
    and "qd_get R (qd_delete R ids s) i = (if i \<in> set ids then None else qd_get R s i)"
  using assms unfolding qdrant_laws_def write_laws_def by blast+

lemma obj_same: "qdrant_laws R \<Longrightarrow> map_of (qd_obj R d) = map_of d"
  by (simp add: qdrant_laws_def collection_laws_def)

lemma retrieved:
  "qdrant_laws R \<Longrightarrow> qd_exists R s \<Longrightarrow> (\<lambda>r. (qr_id r, qr_payload r)) ` set (qd_retrieve R s ids) =
     {(i, Some d) | i v d. i \<in> set ids \<and> qd_get R s i = Some (v, d)}"
  by (simp add: qdrant_laws_def read_laws_def)

lemma qs_okD:
  assumes "qs_ok R uuid5 n s"
  shows "qdrant_laws R" and "uuid5 a = uuid5 b \<longleftrightarrow> a = b"
  using assms by (auto simp: qs_ok_def dest: injD)

lemma qs_okI:
  assumes "qs_ok R uuid5 n s" and "qd_exists R (qs_server t)" and "qd_size R (qs_server t) = n"
    and "\<And>i v d. qs_get R t i = Some (v, d) \<Longrightarrow> (\<exists>pid. map_of d AK_ID_KEY = Some (JStr pid) \<and> i = uuid5 pid) \<and> scalar_keys d"
  shows "qs_ok R uuid5 n t"
  using assms by (simp add: qs_ok_def)

lemma find_map: "find P (map f xs) = map_option f (find (\<lambda>x. P (f x)) xs)"
  by (induction xs) auto

lemma qs_add_lookup:
  assumes "qs_ok R uuid5 n s" and "\<forall>p \<in> set ps. int (length (mp_vector p)) = n" and "ps \<noteq> []"
  shows "qs_get R (qs_add R uuid5 n s ps) i = (case find (\<lambda>p. uuid5 (mp_id p) = i) (rev ps) of
      None \<Rightarrow> qs_get R s i
    | Some p \<Rightarrow> Some (qd_unit R (mp_vector p), qd_obj R (dict_set AK_ID_KEY (JStr (mp_id p)) (mp_payload p))))"
    and "qd_exists R (qs_server (qs_add R uuid5 n s ps))" and "qd_size R (qs_server (qs_add R uuid5 n s ps)) = n"
proof -
  note e = ensure_facts(2,3) [OF assms(1)]
  have v: "\<forall>p \<in> set (map (to_struct uuid5) ps). int (length (ps_vector p)) = qd_size R (qs_server (qs_ensure R n s))"
    using assms(2) e(2) by (simp add: to_struct_def)
  note u = upsert_facts [OF qs_okD(1) [OF assms(1)] e(1) v]
  have t: "qs_server (qs_add R uuid5 n s ps) = qd_upsert R (map (to_struct uuid5) ps) (qs_server (qs_ensure R n s))"
    using assms(3) by (simp add: qs_add_def Let_def)
  show "qd_exists R (qs_server (qs_add R uuid5 n s ps))" "qd_size R (qs_server (qs_add R uuid5 n s ps)) = n"
    using u e by (simp_all add: t)
  show "qs_get R (qs_add R uuid5 n s ps) i = (case find (\<lambda>p. uuid5 (mp_id p) = i) (rev ps) of
      None \<Rightarrow> qs_get R s i
    | Some p \<Rightarrow> Some (qd_unit R (mp_vector p), qd_obj R (dict_set AK_ID_KEY (JStr (mp_id p)) (mp_payload p))))"
    using fun_cong [OF ensure_facts(4) [OF assms(1)]]
    by (simp add: qs_get_def t u(3) rev_map find_map to_struct_def split: option.split)
qed

lemma qs_add_get:
  assumes "qs_ok R uuid5 n s" and "\<forall>p \<in> set ps. int (length (mp_vector p)) = n"
  shows "qs_get R (qs_add R uuid5 n s ps) (uuid5 pid) = (case find (\<lambda>p. mp_id p = pid) (rev ps) of
      None \<Rightarrow> qs_get R s (uuid5 pid)
    | Some p \<Rightarrow> Some (qd_unit R (mp_vector p), qd_obj R (dict_set AK_ID_KEY (JStr (mp_id p)) (mp_payload p))))"
  by (cases "ps = []") (simp_all add: qs_add_def [of _ _ _ _ "[]"] qs_add_lookup(1) [OF assms] qs_okD(2) [OF assms(1)])

lemma qs_add_ok:
  assumes "qs_ok R uuid5 n s" and "\<forall>p \<in> set ps. int (length (mp_vector p)) = n \<and> scalar_keys (mp_payload p)"
  shows "qs_ok R uuid5 n (qs_add R uuid5 n s ps)"
proof (cases "ps = []")
  case False
  from assms(2) have v: "\<forall>p \<in> set ps. int (length (mp_vector p)) = n" by simp
  note a = qs_add_lookup [OF assms(1) v False]
  show ?thesis
  proof (rule qs_okI [OF assms(1) a(2,3)])
    fix i v d
    assume d: "qs_get R (qs_add R uuid5 n s ps) i = Some (v, d)"
    show "(\<exists>pid. map_of d AK_ID_KEY = Some (JStr pid) \<and> i = uuid5 pid) \<and> scalar_keys d"
    proof (cases "find (\<lambda>p. uuid5 (mp_id p) = i) (rev ps)")
      case None
      with d a(1) [of i] assms(1) show ?thesis by (simp add: qs_ok_def)
    next
      case (Some p)
      then have "p \<in> set ps" "uuid5 (mp_id p) = i"
        using nth_mem [of _ "rev ps"] by (auto simp: find_Some_iff simp del: nth_mem)
      with Some d a(1) [of i] assms(2) show ?thesis
        by (auto simp: obj_same [OF qs_okD(1) [OF assms(1)]] dict_simps scalar_keys_def)
    qed
  qed
qed (use assms(1) in \<open>simp add: qs_add_def\<close>)

lemma qs_delete_get:
  assumes "qs_ok R uuid5 n s"
  shows "qs_get R (qs_delete R uuid5 n s ids u) i = (case qs_get R s i of None \<Rightarrow> None
    | Some (v, d) \<Rightarrow> if i \<in> uuid5 ` set ids \<and> map_of d (py ''user_id'') = Some (JStr u) then None else Some (v, d))"
    and "qs_ok R uuid5 n (qs_delete R uuid5 n s ids u)"
proof -
  let ?s = "qs_ensure R n s" and ?t = "qs_delete R uuid5 n s ids u"
  let ?rs = "qd_retrieve R (qs_server ?s) (map uuid5 ids)"
  let ?owned = "map qr_id (filter (\<lambda>r. map_of (case qr_payload r of None \<Rightarrow> [] | Some d \<Rightarrow> d) (py ''user_id'') = Some (JStr u)) ?rs)"
  note R = qs_okD(1) [OF assms] and e = ensure_facts [OF assms]
  have own: "i \<in> set ?owned \<longleftrightarrow> (\<exists>d. (i, Some d) \<in> (\<lambda>r. (qr_id r, qr_payload r)) ` set ?rs \<and> map_of d (py ''user_id'') = Some (JStr u))" for i
  proof -
    have "(map_of (case q of None \<Rightarrow> [] | Some d \<Rightarrow> d) k = Some x) \<longleftrightarrow> (\<exists>d. q = Some d \<and> map_of d k = Some x)" for q :: "payload option" and k x
      by (cases q) auto
    then show ?thesis by (fastforce simp: image_iff)
  qed
  have owned: "i \<in> set ?owned \<longleftrightarrow> (\<exists>v d. i \<in> uuid5 ` set ids \<and> qs_get R s i = Some (v, d) \<and> map_of d (py ''user_id'') = Some (JStr u))" for i
    unfolding own retrieved [OF R e(2)] using fun_cong [OF e(4)] by (auto simp: qs_get_def)
  have get: "qs_get R ?t i = (if i \<in> set ?owned then None else qs_get R s i)" for i
  proof (cases "ids = []")
    case True
    then have "?t = s" by (simp add: qs_delete_def)
    moreover have "i \<notin> set ?owned" unfolding owned using True by simp
    ultimately show ?thesis by (simp only: if_False)
  next
    case False
    then have t: "qs_server ?t = (if ?owned = [] then qs_server ?s else qd_delete R ?owned (qs_server ?s))"
      by (simp only: qs_delete_def Let_def) simp
    show ?thesis
      using fun_cong [OF e(4), of i] delete_facts(3) [OF R e(2), of ?owned i]
      by (cases "?owned = []") (simp_all only: qs_get_def t if_True if_False list.set empty_iff simp_thms)
  qed
  show g: "qs_get R ?t i = (case qs_get R s i of None \<Rightarrow> None
    | Some (v, d) \<Rightarrow> if i \<in> uuid5 ` set ids \<and> map_of d (py ''user_id'') = Some (JStr u) then None else Some (v, d))" for i
    unfolding get owned by (auto split: option.splits)
  show "qs_ok R uuid5 n ?t"
  proof (cases "ids = []")
    case False
    have x: "qd_exists R (qs_server ?t)" "qd_size R (qs_server ?t) = n"
      using False e(2,3) delete_facts(1,2) [OF R e(2)] by (simp_all add: qs_delete_def Let_def)
    show ?thesis
      by (rule qs_okI [OF assms x]) (use assms in \<open>auto simp: g qs_ok_def split: option.splits if_splits\<close>)
  qed (use assms in \<open>simp add: qs_delete_def\<close>)
qed

section \<open>The contract\<close>

lemma queried:
  assumes "qdrant_laws R" and "qd_exists R s" and "0 < k"
  shows "int (length (qd_query R s must q k ms)) \<le> k"
    and "sorted_wrt (\<lambda>a b. snd b \<le> snd a) (qd_query R s must q k ms)"
    and "(r, x) \<in> set (qd_query R s must q k ms) \<Longrightarrow> ms \<le> x \<and> r \<in> stored_record R s ` set (scroll_ids R s must)"
proof -
  from assms have laws: "int (length (qd_query R s must q k ms)) \<le> k \<and> sorted_wrt (\<lambda>a b. snd b \<le> snd a) (qd_query R s must q k ms)
      \<and> (\<forall>(r, x) \<in> set (qd_query R s must q k ms). ms \<le> x \<and> r \<in> stored_record R s ` set (scroll_ids R s must))"
    by (simp add: qdrant_laws_def read_laws_def)
  then show "int (length (qd_query R s must q k ms)) \<le> k"
    and "sorted_wrt (\<lambda>a b. snd b \<le> snd a) (qd_query R s must q k ms)" by simp_all
  from laws show "(r, x) \<in> set (qd_query R s must q k ms) \<Longrightarrow> ms \<le> x \<and> r \<in> stored_record R s ` set (scroll_ids R s must)"
    by blast
qed

lemma scrolled:
  assumes "qdrant_laws R" and "qd_exists R s"
  shows "set (fst (qd_scroll R s must limit c)) \<subseteq> stored_record R s ` set (scroll_ids R s must)"
    and "distinct (qd_order R s)"
    and "0 < limit \<Longrightarrow> qd_scroll R s must limit None = scroll_page R s (scroll_ids R s must) limit"
    and "0 < limit \<Longrightarrow> scroll_ids R s must = xs @ i # ys \<Longrightarrow> qd_scroll R s must limit (Some i) = scroll_page R s (i # ys) limit"
  using assms by (simp_all add: qdrant_laws_def read_laws_def)

lemma search_filter: "[(py ''user_id'', u)] = scroll_filter u None"
  by (simp add: scroll_filter_def)

lemma qs_search_hits:
  assumes "qs_ok R uuid5 n s" and "h \<in> set (fst (qs_search R n s u q k ms))"
  shows "ms \<le> hit_score h \<and> owned_by u (hit_point h) \<and> hit_point h \<in> qs_points R s"
proof -
  let ?s = "qs_server (qs_ensure R n s)"
  note e = ensure_facts [OF assms(1)]
  from assms(2) obtain r x where "0 < k" and r: "(r, x) \<in> set (qd_query R ?s (scroll_filter u None) q k ms)"
    and h: "h = \<lparr>hit_point = from_record r, hit_score = x\<rparr>"
    by (auto simp: qs_search_def Let_def search_filter split: if_splits)
  from queried(3) [OF qs_okD(1) [OF assms(1)] e(2) this(1) r] scroll_points [OF e(1,2), of u None] h
  show ?thesis by (auto simp: e(5))
qed

lemma qs_search_order:
  assumes "qs_ok R uuid5 n s"
  shows "int (length (fst (qs_search R n s u q k ms))) \<le> max 0 k"
    and "sorted_wrt (\<lambda>a b. hit_score b \<le> hit_score a) (fst (qs_search R n s u q k ms))"
  using queried(1,2) [OF qs_okD(1) [OF assms] ensure_facts(2) [OF assms], of k]
  by (auto simp: qs_search_def Let_def sorted_wrt_map case_prod_unfold)

lemma qs_delete_points:
  assumes "qs_ok R uuid5 n s"
  shows "qs_points R (qs_delete R uuid5 n s ids u) = {p \<in> qs_points R s. \<not> (mp_id p \<in> set ids \<and> owned_by u p)}"
proof -
  let ?t = "qs_delete R uuid5 n s ids u"
  note g = qs_delete_get(1) [OF assms, of ids u]
  have same: "stored_record R (qs_server ?t) i = stored_record R (qs_server s) i" if "qs_get R ?t i \<noteq> None" for i
    using that g [of i] by (auto simp: stored_record_def qs_get_def split: option.splits if_splits)
  have kept: "qs_get R ?t i \<noteq> None \<longleftrightarrow> \<not> (mp_id (from_record (stored_record R (qs_server s) i)) \<in> set ids
      \<and> owned_by u (from_record (stored_record R (qs_server s) i)))" if i: "qs_get R s i = Some (v, d)" for i v d
  proof -
    have "i \<in> uuid5 ` set ids \<longleftrightarrow> mp_id (from_record (stored_record R (qs_server s) i)) \<in> set ids"
      using from_stored(1) [OF assms i] qs_okD(2) [OF assms] by (metis image_iff)
    with from_stored(3) [OF assms i] show ?thesis
      by (simp add: g i owned_by_def)
  qed
  have "qs_get R ?t i \<noteq> None \<Longrightarrow> qs_get R s i \<noteq> None" for i
    by (auto simp: g split: option.splits)
  with kept same show ?thesis
    unfolding qs_points_def by (auto simp: image_iff) (metis option.distinct(1))+
qed

lemma qs_list_owned:
  assumes "qs_ok R uuid5 n s" and "p \<in> set (fst (fst (qs_list_points R n s u kind limit c)))"
  shows "owned_by u p \<and> of_kind kind p \<and> p \<in> qs_points R s"
proof -
  note e = ensure_facts [OF assms(1)]
  from assms(2) have "p \<in> from_record ` set (fst (qd_scroll R (qs_server (qs_ensure R n s)) (scroll_filter u kind) limit c))"
    by (auto simp: qs_list_points_def Let_def split: prod.splits)
  with scrolled(1) [OF qs_okD(1) [OF assms(1)] e(2)] scroll_points [OF e(1,2), of u kind] e(5) show ?thesis
    by blast
qed

interpretation qdrant_vectors: vector_store_spec "qs_points R" "\<lambda>s u q k ms. fst (qs_search R n s u q k ms)"
    "qs_delete R uuid5 n" "\<lambda>s u kind limit c. fst (qs_list_points R n s u kind limit c)" "qs_ok R uuid5 n"
  by unfold_locales (simp_all add: qs_search_hits qs_search_order qs_delete_points qs_delete_get(2) qs_list_owned)

section \<open>Pages\<close>

lemma scroll_all:
  assumes "0 < limit" and page: "\<And>xs i ys. ids = xs @ i # ys \<Longrightarrow> list_page (Some i) =
      (map f (take (nat limit) (i # ys)), if nat limit < length (i # ys) then Some ((i # ys) ! nat limit) else None)"
    and first: "list_page None = (map f (take (nat limit) ids), if nat limit < length ids then Some (ids ! nat limit) else None)"
  shows "load_pages list_page None acc = Some (acc @ map f ids)"
proof -
  let ?n = "nat limit"
  have rest: "load_pages list_page (Some i) acc = Some (acc @ map f (i # ys))" if "ids = xs @ i # ys" for xs i ys acc
    using that
  proof (induction "length ys" arbitrary: xs i ys acc rule: less_induct)
    case less
    show ?case
    proof (cases "?n < length (i # ys)")
      case True
      let ?l = "i # ys"
      from True have split: "take ?n ?l @ ?l ! ?n # drop (Suc ?n) ?l = ?l" by (rule id_take_nth_drop [symmetric])
      have "length (drop (Suc ?n) ?l) < length ys" using True assms(1) by simp
      moreover from less.prems split have "ids = (xs @ take ?n ?l) @ ?l ! ?n # drop (Suc ?n) ?l" by simp
      ultimately have "load_pages list_page (Some (?l ! ?n)) (acc @ map f (take ?n ?l)) =
          Some ((acc @ map f (take ?n ?l)) @ map f (?l ! ?n # drop (Suc ?n) ?l))"
        by (rule less.hyps)
      also have "(acc @ map f (take ?n ?l)) @ map f (?l ! ?n # drop (Suc ?n) ?l) = acc @ map f ?l"
        by (simp only: append_assoc map_append [symmetric] split)
      finally show ?thesis
        using page [OF less.prems] True by (subst load_pages.simps) (simp only: prod.case if_True option.case)
    next
      case False
      then show ?thesis
        using page [OF less.prems] by (subst load_pages.simps) simp
    qed
  qed
  show ?thesis
  proof (cases "?n < length ids")
    case True
    then have split: "take ?n ids @ ids ! ?n # drop (Suc ?n) ids = ids" by (rule id_take_nth_drop [symmetric])
    have "acc @ map f ids = (acc @ map f (take ?n ids)) @ map f (ids ! ?n # drop (Suc ?n) ids)"
      by (simp only: append_assoc map_append [symmetric] split)
    with rest [OF split [symmetric], of "acc @ map f (take ?n ids)"] True show ?thesis
      by (subst load_pages.simps) (simp only: first prod.case if_True option.case)
  next
    case False
    then show ?thesis by (subst load_pages.simps) (simp add: first)
  qed
qed

lemma qs_pages:
  assumes "qs_ok R uuid5 n s" and "0 < limit"
  shows "\<exists>pages. load_pages (\<lambda>c. fst (qs_list_points R n s u kind limit c)) None [] = Some pages
    \<and> distinct (map mp_id pages) \<and> set pages = {p \<in> qs_points R s. owned_by u p \<and> of_kind kind p}"
proof -
  let ?s = "qs_server (qs_ensure R n s)"
  let ?ids = "scroll_ids R ?s (scroll_filter u kind)"
  let ?f = "\<lambda>i. from_record (stored_record R ?s i)"
  note R = qs_okD(1) [OF assms(1)] and e = ensure_facts [OF assms(1)]
  note sc = scrolled [OF R e(2)]
  have "load_pages (\<lambda>c. fst (qs_list_points R n s u kind limit c)) None [] = Some ([] @ map ?f ?ids)"
  proof (rule scroll_all [OF assms(2)])
    show "fst (qs_list_points R n s u kind limit (Some i)) =
        (map ?f (take (nat limit) (i # ys)), if nat limit < length (i # ys) then Some ((i # ys) ! nat limit) else None)"
      if "?ids = xs @ i # ys" for xs i ys
      unfolding qs_list_points_def Let_def sc(4) [OF assms(2) that] scroll_page_def prod.case fst_conv map_map comp_def ..
    show "fst (qs_list_points R n s u kind limit None) =
        (map ?f (take (nat limit) ?ids), if nat limit < length ?ids then Some (?ids ! nat limit) else None)"
      unfolding qs_list_points_def Let_def sc(3) [OF assms(2)] scroll_page_def prod.case fst_conv map_map comp_def ..
  qed
  moreover have "distinct (map mp_id (map ?f ?ids))"
  proof -
    have "uuid5 (mp_id (?f i)) = i" if i: "i \<in> set ?ids" for i
    proof -
      from i obtain v d where "qs_get R (qs_ensure R n s) i = Some (v, d)"
        by (auto simp: scroll_ids_def qs_get_def split: option.splits)
      show ?thesis by (rule sym, rule from_stored(1) [OF e(1) \<open>qs_get R (qs_ensure R n s) i = Some (v, d)\<close>])
    qed
    then have "inj_on (\<lambda>i. mp_id (?f i)) (set ?ids)"
      by (rule inj_on_inverseI [where g = uuid5]) simp
    moreover have "distinct ?ids" using sc(2) by (simp add: scroll_ids_def)
    ultimately show ?thesis by (simp add: distinct_map comp_def)
  qed
  moreover have "set (map ?f ?ids) = {p \<in> qs_points R s. owned_by u p \<and> of_kind kind p}"
    using scroll_points [OF e(1,2), of u kind] by (simp add: e(5) image_comp comp_def)
  ultimately show ?thesis by (metis append_Nil)
qed

section \<open>Refinement of the in-memory store\<close>

text \<open>The same operations on both stores; reads create the collection too.\<close>

datatype vector_op =
    AddPoints "memory_point list"
  | DeletePoints "pystr list" pystr
  | SearchPoints pystr "real list" int real
  | ListPoints pystr "pystr option" int "pystr option"

fun qs_apply :: "'s qdrant \<Rightarrow> (pystr \<Rightarrow> pystr) \<Rightarrow> int \<Rightarrow> vector_op \<Rightarrow> 's qstore \<Rightarrow> 's qstore" where
  "qs_apply R uuid5 n (AddPoints ps) s = qs_add R uuid5 n s ps"
| "qs_apply R uuid5 n (DeletePoints ids u) s = qs_delete R uuid5 n s ids u"
| "qs_apply R uuid5 n (SearchPoints u q k ms) s = snd (qs_search R n s u q k ms)"
| "qs_apply R uuid5 n (ListPoints u kind limit c) s = snd (qs_list_points R n s u kind limit c)"

fun vs_apply :: "vector_op \<Rightarrow> vector_store \<Rightarrow> vector_store" where
  "vs_apply (AddPoints ps) m = vs_add m ps"
| "vs_apply (DeletePoints ids u) m = vs_delete m ids u"
| "vs_apply _ m = m"

text \<open>Points of the collection's size, with payloads that do not use the adapter's key.\<close>

fun vector_op_valid :: "int \<Rightarrow> vector_op \<Rightarrow> bool" where
  "vector_op_valid n (AddPoints ps) \<longleftrightarrow> list_all (\<lambda>p. int (length (mp_vector p)) = n \<and> scalar_keys (mp_payload p)
     \<and> map_of (mp_payload p) AK_ID_KEY = None) ps"
| "vector_op_valid n _ \<longleftrightarrow> True"

text \<open>The server keeps a vector in its own form and an object as a map.\<close>

definition same_point :: "'s qdrant \<Rightarrow> memory_point \<Rightarrow> memory_point \<Rightarrow> bool" where
  "same_point R p' p \<longleftrightarrow> mp_id p' = mp_id p \<and> mp_vector p' = qd_unit R (mp_vector p) \<and> map_of (mp_payload p') = map_of (mp_payload p)"

definition stored_as :: "'s qdrant \<Rightarrow> pystr \<Rightarrow> (real list \<times> payload) option \<Rightarrow> memory_point option \<Rightarrow> bool" where
  "stored_as R pid got had \<longleftrightarrow> (case had of
       None \<Rightarrow> got = None
     | Some p \<Rightarrow> map_of (mp_payload p) AK_ID_KEY = None \<and> (\<exists>d. got = Some (qd_unit R (mp_vector p), d)
         \<and> map_of d = (map_of (mp_payload p))(AK_ID_KEY \<mapsto> JStr pid)))"

definition qs_rel :: "'s qdrant \<Rightarrow> (pystr \<Rightarrow> pystr) \<Rightarrow> 's qstore \<Rightarrow> vector_store \<Rightarrow> bool" where
  "qs_rel R uuid5 s m \<longleftrightarrow> vs_ok m \<and> (\<forall>pid. stored_as R pid (qs_get R s (uuid5 pid)) (map_of m pid))"

lemma qs_relD: "qs_rel R uuid5 s m \<Longrightarrow> stored_as R pid (qs_get R s (uuid5 pid)) (map_of m pid)"
  by (simp add: qs_rel_def)

lemma qs_rel_cong: "qs_get R t = qs_get R s \<Longrightarrow> qs_rel R uuid5 s m \<Longrightarrow> qs_rel R uuid5 t m"
  by (simp add: qs_rel_def)

lemma qs_rel_add:
  assumes "qs_ok R uuid5 n s" and "qs_rel R uuid5 s m" and "vector_op_valid n (AddPoints ps)"
  shows "qs_rel R uuid5 (qs_add R uuid5 n s ps) (vs_add m ps)"
proof -
  have sizes: "\<forall>p \<in> set ps. int (length (mp_vector p)) = n" using assms(3) by (simp add: list_all_iff)
  have new: "mp_id p = pid" "map_of (mp_payload p) AK_ID_KEY = None" if "find (\<lambda>p. mp_id p = pid) (rev ps) = Some p" for pid p
    using that assms(3) nth_mem [of _ "rev ps"] by (auto simp: find_Some_iff list_all_iff simp del: nth_mem)
  have "stored_as R pid (qs_get R (qs_add R uuid5 n s ps) (uuid5 pid)) (map_of (vs_add m ps) pid)" for pid
  proof (cases "find (\<lambda>p. mp_id p = pid) (rev ps)")
    case None
    then show ?thesis
      using qs_relD [OF assms(2), of pid] by (simp add: qs_add_get [OF assms(1) sizes] vs_add_get)
  next
    case (Some p)
    then show ?thesis
      using new [OF Some] by (simp add: qs_add_get [OF assms(1) sizes] vs_add_get stored_as_def obj_same [OF qs_okD(1) [OF assms(1)]] dict_simps fun_eq_iff)
  qed
  then show ?thesis using assms(2) by (simp add: qs_rel_def)
qed

lemma qs_rel_delete:
  assumes "qs_ok R uuid5 n s" and "qs_rel R uuid5 s m"
  shows "qs_rel R uuid5 (qs_delete R uuid5 n s ids u) (vs_delete m ids u)"
proof -
  have "uuid5 pid \<in> uuid5 ` set ids \<longleftrightarrow> pid \<in> set ids" for pid
    using qs_okD(2) [OF assms(1)] by auto
  then have "stored_as R pid (qs_get R (qs_delete R uuid5 n s ids u) (uuid5 pid)) (map_of (vs_delete m ids u) pid)" for pid
    using qs_relD [OF assms(2), of pid] unfolding qs_delete_get(1) [OF assms(1)] vs_delete_get
    by (cases "map_of m pid") (auto simp: stored_as_def owned_by_def)
  then show ?thesis using assms(2) by (simp add: qs_rel_def)
qed

lemma qs_apply_rel:
  assumes "qs_ok R uuid5 n s" and "qs_rel R uuid5 s m" and "vector_op_valid n op"
  shows "qs_ok R uuid5 n (qs_apply R uuid5 n op s) \<and> qs_rel R uuid5 (qs_apply R uuid5 n op s) (vs_apply op m)"
proof (cases op)
  case (AddPoints ps)
  with assms show ?thesis
    by (auto simp: list_all_iff intro!: qs_add_ok qs_rel_add)
next
  case (DeletePoints ids u)
  with assms show ?thesis by (simp add: qs_delete_get(2) qs_rel_delete)
next
  case (SearchPoints u q k ms)
  with assms ensure_facts [OF assms(1)] show ?thesis
    by (auto simp: qs_search_def Let_def intro: qs_rel_cong)
next
  case (ListPoints u kind limit c)
  with assms ensure_facts [OF assms(1)] show ?thesis
    by (auto simp: qs_list_points_def Let_def split: prod.splits intro: qs_rel_cong)
qed

lemma qs_run_rel:
  "qs_ok R uuid5 n s \<Longrightarrow> qs_rel R uuid5 s m \<Longrightarrow> list_all (vector_op_valid n) ops \<Longrightarrow>
     qs_ok R uuid5 n (fold (qs_apply R uuid5 n) ops s) \<and> qs_rel R uuid5 (fold (qs_apply R uuid5 n) ops s) (fold vs_apply ops m)"
proof (induction ops arbitrary: s m)
  case (Cons op ops)
  have v: "vector_op_valid n op" "list_all (vector_op_valid n) ops" using Cons.prems(3) by simp_all
  from qs_apply_rel [OF Cons.prems(1,2) v(1)] have "qs_ok R uuid5 n (qs_apply R uuid5 n op s)"
    "qs_rel R uuid5 (qs_apply R uuid5 n op s) (vs_apply op m)" by simp_all
  from Cons.IH [OF this v(2)] show ?case by simp
qed simp

lemma qs_init_ok:
  assumes "qdrant_laws R" and "inj uuid5" and "\<not> qd_exists R c"
  shows "qs_ok R uuid5 n (qs_init c)" and "qs_rel R uuid5 (qs_init c) []"
  using assms by (auto simp: qs_ok_def qs_rel_def stored_as_def qs_init_def qs_get_def qdrant_laws_def collection_laws_def vs_ok_def)

text \<open>The points of both stores correspond, with their owners and kinds.\<close>

lemma same_point_view: "same_point R p' p \<Longrightarrow> owned_by u p' = owned_by u p \<and> of_kind kind p' = of_kind kind p"
  by (simp add: same_point_def owned_by_def of_kind_def split: option.split)

lemma set_candidates: "vs_ok m \<Longrightarrow> p \<in> set (list_candidates m u kind) \<longleftrightarrow> map_of m (mp_id p) = Some p \<and> owned_by u p \<and> of_kind kind p"
  by (auto simp: list_candidates_def vs_ok_def dict_mem_iff image_iff dest: map_of_SomeD) (metis case_prodD map_of_SomeD map_of_in_set snd_conv)+

lemma qs_rel_points:
  assumes "qs_ok R uuid5 n s" and "qs_rel R uuid5 s m"
  shows "p' \<in> qs_points R s \<Longrightarrow> owned_by u p' \<Longrightarrow> of_kind kind p' \<Longrightarrow> \<exists>p \<in> set (list_candidates m u kind). same_point R p' p"
    and "p \<in> set (list_candidates m u kind) \<Longrightarrow> \<exists>p' \<in> qs_points R s. owned_by u p' \<and> of_kind kind p' \<and> same_point R p' p"
proof -
  have ok: "vs_ok m" using assms(2) by (simp add: qs_rel_def)
  have id: "mp_id p = pid" if "map_of m pid = Some p" for p pid
    using that ok by (auto simp: vs_ok_def dest: map_of_SomeD)
  {
    assume p': "p' \<in> qs_points R s" "owned_by u p'" "of_kind kind p'"
    then obtain d where d: "qs_get R s (uuid5 (mp_id p')) = Some (mp_vector p', d)" "map_of (mp_payload p') = (map_of d)(AK_ID_KEY := None)"
      by (auto elim: qs_pointsE [OF assms(1)])
    then obtain p where p: "map_of m (mp_id p') = Some p" "map_of (mp_payload p) AK_ID_KEY = None"
      "mp_vector p' = qd_unit R (mp_vector p)" "map_of d = (map_of (mp_payload p))(AK_ID_KEY \<mapsto> JStr (mp_id p'))"
      by (cases "map_of m (mp_id p')") (use qs_relD [OF assms(2), of "mp_id p'"] in \<open>auto simp: stored_as_def\<close>)
    have "same_point R p' p"
      using id [OF p(1)] p d(2) by (auto simp: same_point_def fun_eq_iff)
    with p' p(1) id [OF p(1)] show "\<exists>p \<in> set (list_candidates m u kind). same_point R p' p"
      by (metis same_point_view set_candidates [OF ok])
  }
  assume "p \<in> set (list_candidates m u kind)"
  then have p: "map_of m (mp_id p) = Some p" "owned_by u p" "of_kind kind p"
    by (simp_all add: set_candidates [OF ok])
  from p(1) obtain d where d: "qs_get R s (uuid5 (mp_id p)) = Some (qd_unit R (mp_vector p), d)"
    "map_of (mp_payload p) AK_ID_KEY = None" "map_of d = (map_of (mp_payload p))(AK_ID_KEY \<mapsto> JStr (mp_id p))"
    using qs_relD [OF assms(2), of "mp_id p"] by (auto simp: stored_as_def)
  let ?p' = "from_record (stored_record R (qs_server s) (uuid5 (mp_id p)))"
  have "same_point R ?p' p"
    using from_stored [OF assms(1) d(1)] d qs_okD(2) [OF assms(1)] by (auto simp: same_point_def fun_eq_iff)
  moreover have "?p' \<in> qs_points R s" using d(1) by (auto simp: qs_points_def)
  ultimately show "\<exists>p' \<in> qs_points R s. owned_by u p' \<and> of_kind kind p' \<and> same_point R p' p"
    using p same_point_view by blast
qed

end
