(* ===== verification/Sample_Collection.thy ===== *)
theory Sample_Collection
  imports Qdrant_Store
begin

text \<open>
  A Qdrant collection in memory that keeps vectors and objects as they are and scores by the dot product: an instance of
  the laws of \<open>Qdrant_Store\<close>.
\<close>

record mem_collection =
  mq_exists :: bool
  mq_size :: int
  mq_points :: "(pystr \<times> real list \<times> payload) list"

definition mq_get :: "mem_collection \<Rightarrow> pystr \<Rightarrow> (real list \<times> payload) option" where
  "mq_get s i = (if mq_exists s then map_of (mq_points s) i else None)"

definition mq_record :: "mem_collection \<Rightarrow> pystr \<Rightarrow> qrecord" where
  "mq_record s i = (case mq_get s i of
       None \<Rightarrow> \<lparr>qr_id = i, qr_vector = None, qr_payload = None\<rparr>
     | Some (v, d) \<Rightarrow> \<lparr>qr_id = i, qr_vector = Some (Unnamed v), qr_payload = Some d\<rparr>)"

definition mq_order :: "mem_collection \<Rightarrow> pystr list" where
  "mq_order s = (if mq_exists s then map fst (AList.clearjunk (mq_points s)) else [])"

definition mq_ids :: "mem_collection \<Rightarrow> (pystr \<times> pystr) list \<Rightarrow> pystr list" where
  "mq_ids s must = filter (\<lambda>i. case mq_get s i of None \<Rightarrow> False | Some (v, d) \<Rightarrow> list_all (field_matches d) must) (mq_order s)"

definition mq_score :: "mem_collection \<Rightarrow> real list \<Rightarrow> pystr \<Rightarrow> real" where
  "mq_score s q i = (case mq_get s i of None \<Rightarrow> 0 | Some (v, d) \<Rightarrow> sum_list (map2 (*) q v))"

definition mem_qdrant :: "mem_collection qdrant" where
  "mem_qdrant = \<lparr>qd_exists = mq_exists, qd_create = (\<lambda>n s. \<lparr>mq_exists = True, mq_size = n, mq_points = []\<rparr>),
     qd_upsert = (\<lambda>ps s. s\<lparr>mq_points := fold (\<lambda>p. dict_set (ps_id p) (ps_vector p, ps_payload p)) ps (mq_points s)\<rparr>),
     qd_query = (\<lambda>s must q k ms. take (nat k) (sort_desc snd (filter (\<lambda>(r, x). ms \<le> x)
       (map (\<lambda>i. (mq_record s i, mq_score s q i)) (mq_ids s must))))),
     qd_retrieve = (\<lambda>s ids. map (mq_record s) (filter (\<lambda>i. mq_get s i \<noteq> None) ids)),
     qd_delete = (\<lambda>ids s. s\<lparr>mq_points := filter (\<lambda>(i, _). i \<notin> set ids) (mq_points s)\<rparr>),
     qd_scroll = (\<lambda>s must limit c. let ids = (case c of None \<Rightarrow> mq_ids s must | Some i \<Rightarrow> dropWhile (\<lambda>j. j \<noteq> i) (mq_ids s must))
       in (map (mq_record s) (take (nat limit) ids), if nat limit < length ids then Some (ids ! nat limit) else None)),
     qd_get = mq_get, qd_order = mq_order, qd_size = mq_size, qd_unit = id, qd_obj = id\<rparr>"

lemma mem_qdrant_simps:
  "stored_record mem_qdrant = mq_record" "scroll_ids mem_qdrant = mq_ids"
  by (simp_all add: fun_eq_iff stored_record_def mq_record_def scroll_ids_def mq_ids_def mem_qdrant_def split: option.splits)

lemma mq_upsert_get:
  "map_of (fold (\<lambda>p. dict_set (ps_id p) (ps_vector p, ps_payload p)) ps d) i =
     (case find (\<lambda>p. ps_id p = i) (rev ps) of None \<Rightarrow> map_of d i | Some p \<Rightarrow> Some (ps_vector p, ps_payload p))"
proof (induction ps arbitrary: d)
  case (Cons p ps)
  then show ?case by (simp add: find_snoc dict_simps split: option.split)
qed simp

lemma mem_qdrant_collection: "collection_laws mem_qdrant"
  by (simp add: collection_laws_def mem_qdrant_def mq_get_def)

lemma mem_qdrant_write: "write_laws mem_qdrant"
  unfolding write_laws_def
proof (intro conjI allI impI, goal_cases)
  case (3 s ps i)
  then show ?case by (simp add: mem_qdrant_def mq_get_def mq_upsert_get split: option.splits)
next
  case (6 s ids i)
  have "map_of (filter (\<lambda>(i, _). i \<notin> set ids) d) i = (if i \<in> set ids then None else map_of d i)" for d :: "(pystr \<times> real list \<times> payload) list"
    by (induction d) auto
  then show ?case by (simp add: mem_qdrant_def mq_get_def)
qed (simp_all add: mem_qdrant_def)

lemma mq_order_ids: "distinct (mq_order s)" "mq_exists s \<Longrightarrow> set (mq_order s) = {i. mq_get s i \<noteq> None}"
  using dom_map_of_conv_image_fst [of "AList.clearjunk (mq_points s)"]
  by (simp_all add: mq_order_def mq_get_def dom_def map_of_clearjunk)

lemma dropWhile_until: "i \<notin> set xs \<Longrightarrow> dropWhile (\<lambda>j. j \<noteq> i) (xs @ i # ys) = i # ys"
  by (induction xs) auto

lemma mem_qdrant_read: "read_laws mem_qdrant"
  unfolding read_laws_def mem_qdrant_simps
proof (intro conjI allI impI, goal_cases)
  case (1 s must q k ms)
  then show ?case by (auto simp: mem_qdrant_def min_def)
next
  case (2 s must q k ms)
  show ?case by (simp add: mem_qdrant_def sorted_wrt_take sorted_sort_desc)
next
  case (3 s must q k ms)
  show ?case by (auto simp: mem_qdrant_def dest!: in_set_takeD)
next
  case (4 s ids)
  show ?case by (fastforce simp: mem_qdrant_def mq_record_def image_iff split: option.splits)
next
  case (5 s)
  show ?case by (simp add: mem_qdrant_def mq_order_ids)
next
  case (6 s)
  then show ?case by (simp add: mem_qdrant_def mq_order_ids)
next
  case (7 s must limit c)
  show ?case by (auto simp: mem_qdrant_def Let_def split: option.splits dest!: in_set_takeD set_dropWhileD)
next
  case (8 s must limit)
  show ?case unfolding scroll_page_def mem_qdrant_simps by (simp add: mem_qdrant_def Let_def)
next
  case (9 s must limit xs i ys)
  have "distinct (mq_ids s must)" by (simp add: mq_ids_def mq_order_ids)
  with 9 have "dropWhile (\<lambda>j. j \<noteq> i) (mq_ids s must) = i # ys" by (auto intro: dropWhile_until)
  then show ?case unfolding scroll_page_def mem_qdrant_simps by (simp add: mem_qdrant_def Let_def)
qed

lemma mem_qdrant_laws: "qdrant_laws mem_qdrant"
  by (simp add: qdrant_laws_def mem_qdrant_collection mem_qdrant_write mem_qdrant_read)

end
