(* ===== verification/Samples.thy ===== *)
theory Samples
  imports Application MCP_Lifecycle Jobs Redis_Session Config_Loader Sample_Collection
begin

text \<open>
  Concrete worlds, tools, memories and agents: small instances of the model at which the properties are
  applied.
\<close>

definition sample_world :: "real \<Rightarrow> world" where
  "sample_world now = \<lparr>w_now = now, w_sessions = ss_init (Some 3600), w_profiles = Map.empty, w_vectors = [],
     w_perms = pm_init [py ''echo''], w_skills = sk_init, w_monotonic = 0, w_limiter = lru_init 1000\<rparr>"

definition echo_tool :: "unit tool" where
  "echo_tool = \<lparr>t_definition = \<lparr>td_name = py ''echo'', td_description = [], td_parameters = []\<rparr>,
     t_handler = in_time (\<lambda>u args. ret (py ''hi''))\<rparr>"

definition sample_registry :: "unit registry" where
  "sample_registry = reg_init [echo_tool] 30 [(py ''echo'', default_tool_policy\<lparr>tp_requires_approval := True\<rparr>)] (\<lambda>_. [])"

definition sample_call :: "string \<Rightarrow> string \<Rightarrow> tool_call" where
  "sample_call i name = \<lparr>tc_id = py i, tc_name = py name, tc_arguments = []\<rparr>"

text \<open>Two calls: one that needs approval, one of a tool nobody may use.\<close>

definition sample_env :: "unit batch_env" where
  "sample_env = \<lparr>be_registry = sample_registry, be_user = py ''alice'', be_conversation = py ''c'',
     be_calls = [sample_call ''1'' ''echo'', sample_call ''2'' ''rm'']\<rparr>"

definition sample_labels :: "unit label list" where
  "sample_labels = [Start 0, Start 1, Execute 1, Receive, Resolve (py ''1'') True (py ''c''), Receive, Resume 0,
     Receive, Receive, Execute 0, Receive, Receive, Receive]"

definition sample_session :: "real \<Rightarrow> turn list \<Rightarrow> session_state" where
  "sample_session now buffer = (new_session (py ''alice'') now)\<lparr>working_buffer := buffer\<rparr>"

text \<open>A world in which Alice has the conversation \<open>c\<close>.\<close>

definition alice_world :: "real \<Rightarrow> real \<Rightarrow> turn list \<Rightarrow> world" where
  "alice_world upd now buffer = (sample_world now)\<lparr>w_sessions :=
     \<lparr>sessions = [(py ''c'', sample_session upd buffer)], ttl_s = Some 3600\<rparr>\<rparr>"

definition sample_builder :: "unit context_builder" where
  "sample_builder = \<lparr>cb_agent_cfg = default_agent_config, cb_episodic = None, cb_registry = sample_registry,
     cb_context_cfg = default_context_config, cb_estimate = estimate_tokens, cb_system_prompt_fn = None,
     cb_skills = None, cb_float_str = (\<lambda>_. [])\<rparr>"

definition sample_working :: "(message list \<Rightarrow> (unit, pystr option) wio) \<Rightarrow> int \<Rightarrow> unit working_memory" where
  "sample_working summarizer limit = \<lparr>wm_cfg = (default_working_config [])\<lparr>wc_buffer_token_budget := limit\<rparr>,
     wm_llm = Some summarizer, wm_estimate = estimate_tokens, wm_store_retry = default_retry_policy, wm_rnd = (\<lambda>_. 0)\<rparr>"

definition sample_numpy :: numpy where
  "sample_numpy = \<lparr>np_norm = (\<lambda>v. 1), np_dot = (\<lambda>u v. 1)\<rparr>"

definition sample_episodic :: "unit episodic_memory" where
  "sample_episodic = \<lparr>em_cfg = default_episodic_config [] [], em_numpy = sample_numpy, em_embed_one = (\<lambda>t. ret [1]),
     em_llm_query = None, em_llm_moments = None, em_store_retry = default_retry_policy, em_rnd = (\<lambda>_. 0)\<rparr>"

definition sample_llm :: "unit stream_llm" where
  "sample_llm ms tools w = (w, [TextChunk (py ''hello''),
     StreamEnd \<lparr>rs_text = py ''hello'', rs_tool_calls = [], rs_usage = no_usage\<rparr>], None)"

definition sample_agent :: "unit agent" where
  "sample_agent = \<lparr>ag_llm = sample_llm, ag_llm_factory = None, ag_builder = sample_builder,
     ag_working = sample_working (\<lambda>ms. ret None) 2048, ag_episodic = Some sample_episodic,
     ag_factual = \<lparr>fm_cfg = default_factual_config [], fm_llm = None, fm_store_retry = default_retry_policy, fm_rnd = (\<lambda>_. 0)\<rparr>,
     ag_cfg = default_agent_config\<rparr>"

definition sample_dedup :: "unit dedup_job" where
  "sample_dedup = \<lparr>dj_cfg = default_deduplication_config, dj_numpy = sample_numpy,
     dj_run_batch = (\<lambda>n items. ret (map (\<lambda>i. \<lparr>br_id = bi_id i, br_text = Some (py ''merged''), br_metadata = bi_metadata i\<rparr>) items)),
     dj_embed_batch = (\<lambda>items. ret (map (\<lambda>(i, t). (i, Some [1])) items)), dj_uuid5 = (\<lambda>s. s),
     dj_store_retry = default_retry_policy, dj_rnd = (\<lambda>_. 0)\<rparr>"

text \<open>A re-summarization during whose batch the user forgets the conversation \<open>a\<close>.\<close>

definition sample_resummarize :: "unit resummarize_job" where
  "sample_resummarize = \<lparr>rj_cfg = default_resummarization_config,
     rj_run_batch = (\<lambda>n items. seq (vectors_delete [conv_id (py ''a'')] (py ''alice''))
       (\<lambda>_. ret (map (\<lambda>i. \<lparr>br_id = bi_id i, br_text = Some (py ''short''), br_metadata = bi_metadata i\<rparr>) items))),
     rj_embed_batch = (\<lambda>items. ret (map (\<lambda>(i, t). (i, Some [1])) items)),
     rj_store_retry = default_retry_policy, rj_rnd = (\<lambda>_. 0)\<rparr>"

text \<open>A Redis server of two maps.\<close>

record mem_server =
  ms_strings :: "pystr \<Rightarrow> (payload \<times> real option) option"
  ms_zsets :: "pystr \<Rightarrow> (pystr \<times> real) list"

definition mem_redis :: "mem_server redis" where
  "mem_redis = \<lparr>rd_get = (\<lambda>s now k. case ms_strings s k of None \<Rightarrow> None
       | Some (v, expiry) \<Rightarrow> (case expiry of None \<Rightarrow> Some v | Some t \<Rightarrow> if now < t then Some v else None)),
     rd_set = (\<lambda>k v ttl now s. s\<lparr>ms_strings := (ms_strings s)(k \<mapsto> (v, map_option (\<lambda>e. now + of_int e) ttl))\<rparr>),
     rd_zadd = (\<lambda>k m x s. s\<lparr>ms_zsets := (ms_zsets s)(k := (m, x) # ms_zsets s k)\<rparr>),
     rd_zrem = (\<lambda>k m s. s\<lparr>ms_zsets := (ms_zsets s)(k := filter (\<lambda>(m', _). m' \<noteq> m) (ms_zsets s k))\<rparr>),
     rd_zrangebyscore = (\<lambda>s k mx. map fst (sort_key snd (filter (\<lambda>(_, x). x \<le> mx) (AList.clearjunk (ms_zsets s k))))),
     rd_zrevrange = (\<lambda>s k. map fst (sort_desc snd (AList.clearjunk (ms_zsets s k)))),
     rd_zscore = (\<lambda>s k m. map_of (ms_zsets s k) m)\<rparr>"

definition mem_server_init :: mem_server where
  "mem_server_init = \<lparr>ms_strings = (\<lambda>_. None), ms_zsets = (\<lambda>_. [])\<rparr>"

definition empty_context :: assembled_context where
  "empty_context = \<lparr>ctx_messages = [], ctx_tools = [], ctx_episodic_hits = 0, ctx_buffer_turns = 0, ctx_used_tokens = 0,
     ctx_dropped_turns = 0, ctx_rolled_summary = []\<rparr>"

section \<open>What the instances satisfy\<close>

lemma echo_total: "\<forall>(name, t) \<in> set (rg_tools sample_registry). handler_total t"
  unfolding sample_registry_def reg_init_def echo_tool_def
  by (simp, rule in_time_total, simp add: ret_def)

lemma sample_batch_run: "\<exists>b. batch_run sample_env sample_labels (batch_init sample_env (sample_world 0) []) = Some b \<and> bt_remaining b = 0"
  by (simp add: sample_labels_def batch_step_def batch_init_def sample_env_def worker_start_def worker_execute_def
      worker_resume_def approval_policy_def reg_get_policy_def sample_registry_def reg_init_def sample_call_def echo_tool_def
      tool_name_def default_tool_policy_def start_tool_def set_phase_def put_items_def finish_worker_def deny_def fan_in_def
      resolve_approval_def pop_pending_def reg_execute_def reg_run_def permissions_allowed_def seq_def ret_def rate_gate_def
      run_handler_def in_time_def sample_world_def pm_init_def pm_allowed_tools_def get_set_def Let_def
      effective_timeout_def reg_failure_def reg_success_def)

lemma alice_live: "upd \<le> now \<Longrightarrow> now \<le> upd + 3600 \<Longrightarrow>
    ss_live (w_sessions (alice_world upd now buffer)) (w_now (alice_world upd now buffer)) (py ''c'') = Some (sample_session upd buffer)"
  by (simp add: alice_world_def sample_world_def ss_live_def ss_expired_def sample_session_def new_session_def)

lemma alice_ok: "ss_ok (w_sessions (alice_world upd now buffer))"
  by (simp add: alice_world_def ss_ok_def)

lemma alice_user: "st_user_id (sample_session upd buffer) = py ''alice''" "working_buffer (sample_session upd buffer) = buffer"
  by (simp_all add: sample_session_def new_session_def)

lemma sample_agent_quiet: "quiet_agent sample_agent"
  by (simp add: quiet_agent_def sample_agent_def sample_working_def default_retry_policy_def quiet_episodic_def sample_episodic_def)

lemma sample_dedup_ok: "0 \<le> max_retries (dj_store_retry sample_dedup)" "faithful_services sample_dedup"
  by (simp add: sample_dedup_def default_retry_policy_def)
    (auto simp: faithful_services_def sample_dedup_def ret_apply)

lemma map_of_filter_key: "map_of (filter (\<lambda>(k', _). k' \<noteq> k) d) k'' = (if k'' = k then None else map_of d k'')"
  by (induction d) auto

lemma clearjunk_range:
  "dict_ok d \<Longrightarrow> sorted_wrt (\<lambda>x y. P (snd x) (snd y)) d \<Longrightarrow> (\<And>m x. (m, x) \<in> set d \<Longrightarrow> f m = Some x) \<Longrightarrow>
     sorted_wrt (\<lambda>a b. P (the (f a)) (the (f b))) (map fst d)"
  by (induction d) (force simp: sorted_wrt_map)+

lemma dict_ok_sort [simp]: "dict_ok (sort_key f d) \<longleftrightarrow> dict_ok d"
  by (rule mset_eq_imp_distinct_iff) simp

lemma clearjunk_get: "(m, x) \<in> set (AList.clearjunk d) \<Longrightarrow> map_of d m = Some x"
  by (metis distinct_clearjunk map_of_clearjunk map_of_is_SomeI)

lemma range_members: "fst ` {p \<in> set (AList.clearjunk (d :: (pystr \<times> real) list)). case p of (_, x) \<Rightarrow> x \<le> mx}
    = {m. \<exists>x. map_of d m = Some x \<and> x \<le> mx}"
proof -
  have iff: "(m, x) \<in> set (AList.clearjunk d) \<longleftrightarrow> map_of d m = Some x" for m x
    using map_of_in_set [OF distinct_clearjunk, of d m x] by (simp add: map_of_clearjunk)
  show ?thesis
  proof (intro set_eqI iffI)
    fix m
    assume "m \<in> {m. \<exists>x. map_of d m = Some x \<and> x \<le> mx}"
    then obtain x where "(m, x) \<in> set (AList.clearjunk d)" "x \<le> mx" using iff by blast
    then show "m \<in> fst ` {p \<in> set (AList.clearjunk d). case p of (_, x) \<Rightarrow> x \<le> mx}"
      by (intro image_eqI [of _ _ "(m, x)"]) simp_all
  qed (use iff in auto)
qed

lemma range_ascending: "sorted_wrt (\<lambda>a b. the (map_of d a) \<le> the (map_of d b))
    (map fst (sort_key snd (filter P (AList.clearjunk (d :: (pystr \<times> real) list)))))"
proof (rule clearjunk_range [where P = "(\<le>)"])
  show "sorted_wrt (\<lambda>x y. snd x \<le> snd y) (sort_key snd (filter P (AList.clearjunk d)))"
    using sorted_sort_key [of snd "filter P (AList.clearjunk d)"] by (simp only: sorted_map)
qed (simp_all add: distinct_map_filter clearjunk_get)

lemma range_descending: "sorted_wrt (\<lambda>a b. the (map_of d b) \<le> the (map_of d a))
    (map fst (sort_desc snd (AList.clearjunk (d :: (pystr \<times> real) list))))"
  by (rule clearjunk_range [where P = "\<lambda>x y. y \<le> x"])
    (simp_all add: sorted_sort_desc, simp_all add: sort_desc_def clearjunk_get)

lemma mem_redis_laws: "redis_laws mem_redis"
proof -
  have "expiry_laws mem_redis" "frame_laws mem_redis"
    by (auto simp: expiry_laws_def frame_laws_def mem_redis_def)
  moreover have "zset_laws mem_redis"
    by (simp add: zset_laws_def mem_redis_def map_of_filter_key)
  moreover have "range_laws mem_redis"
    unfolding range_laws_def
  proof (intro conjI allI, goal_cases)
    case (1 s k mx)
    show ?case by (simp add: mem_redis_def distinct_map_filter)
  next
    case (2 s k mx)
    show ?case by (simp add: mem_redis_def range_members)
  next
    case (3 s k mx)
    show ?case by (simp add: mem_redis_def range_ascending)
  next
    case (4 s k)
    show ?case by (simp add: mem_redis_def sort_desc_def)
  next
    case (5 s k)
    have "fst ` set (AList.clearjunk (ms_zsets s k)) = dom (map_of (ms_zsets s k))"
      by (metis dom_map_of_conv_image_fst map_of_clearjunk)
    then show ?case by (simp add: mem_redis_def dom_def)
  next
    case (6 s k)
    show ?case by (simp add: mem_redis_def range_descending)
  qed
  ultimately show ?thesis by (simp add: redis_laws_def)
qed

lemma mem_redis_empty: "rd_get mem_redis mem_server_init t k = None"
  by (simp add: mem_redis_def mem_server_init_def)

text \<open>A configuration document with a reference to the environment.\<close>

definition sample_document :: payload where
  "sample_document = [(py ''memory'', JObj [(py ''working'', JObj
     [(py ''idle_finalize_s'', JStr (py ''${IDLE}'')), (py ''ttl_s'', JInt 600)])])]"

lemma sample_reference: "sub_env (\<lambda>v. if v = py ''IDLE'' then Some (py ''60'') else None) (py ''${IDLE}'') = Inr (py ''60'')"
  by (simp add: sub_env.simps match_var_def py_def var_char_def is_digit_def replace_env_match_def)

lemma sample_document_loads:
  "config_from_dict (\<lambda>v. if v = py ''IDLE'' then Some (py ''60'') else None) (\<lambda>d. Inr (AppV d)) sample_document = Inr (ObjV (py ''HarnessKitConfig'')
      [(py ''memory'', ObjV (py ''MemoryConfig'') [(py ''working'', ObjV (py ''WorkingMemoryConfig'')
        [(py ''idle_finalize_s'', Plain (JInt 60)), (py ''ttl_s'', Plain (JInt 600))])])])"
proof -
  have i: "coerce_scalar IntA (JStr (py ''60'')) = Inr (Plain (JInt 60))"
    by (simp add: coerce_scalar_def int_of_str_def py_def strip_def rstrip_def is_space_def split_sign_def digit_group_def is_digit_def digits_value_def)
  show ?thesis
    by (simp add: config_from_dict_def load_dict_def build_dataclass_def sample_document_def sample_reference coerce.simps i
        class_fields_def SCHEMA_def construct_def bind_res_def numeric_def kwarg_def)
qed

section \<open>Turns of Alice\<close>

lemma alice_load: "session_load (py ''c'') (py ''alice'') (alice_world 0 0 b) = (alice_world 0 0 b, Inr (Some (sample_session 0 b)))"
  using session_load_own [OF alice_live [of 0 0 b]] alice_user by simp

lemma alice_build: "\<exists>ctx. cb_build sample_builder (py ''alice'') (py ''c'') (py ''hello'') (alice_world 0 0 []) =
   ((alice_world 0 0 [])\<lparr>w_profiles := [py ''alice'' \<mapsto> new_profile (py ''alice'') 0]\<rparr>, Inr ctx)"
  apply (simp add: cb_build_def sample_builder_def seq_def wm_load_def alice_load ret_def
    fm_get_def profile_get_def pr_get_def alice_user reg_definitions_def permissions_allowed_def Let_def)
  apply (simp add: alice_world_def sample_world_def new_profile_def cb_assemble_def allocate_def budget_inputs_of_def tier0_def keep_whole_def Let_def
   estimate_tokens_def default_context_config_def default_agent_config_def budget_def py_def sample_session_def new_session_def format_factual_def
   sample_registry_def echo_tool_def reg_init_def pm_init_def pm_allowed_tools_def get_set_def tool_name_def sort_desc_def)
  done


text \<open>A turn of an agent whose model answers \<open>hello\<close>, or whose stream breaks off after \<open>he\<close>.\<close>

definition broken_agent :: "unit agent" where
  "broken_agent = sample_agent\<lparr>ag_llm := \<lambda>ms tools w. (w, [TextChunk (py ''he'')], Some TimeoutError)\<rparr>"

lemma alice_context:
  obtains w ctx where "cb_build sample_builder (py ''alice'') (py ''c'') (py ''hello'') (alice_world 0 0 []) = (w, Inr ctx)"
    and "\<forall>texts tool_turns. \<exists>w' ts. persist (py ''alice'') (py ''c'') (py ''hello'') texts tool_turns w = (w', Inr ts)"
proof -
  let ?w = "(alice_world 0 0 [])\<lparr>w_profiles := [py ''alice'' \<mapsto> new_profile (py ''alice'') 0]\<rparr>"
  have live: "ss_live (w_sessions ?w) (w_now ?w) (py ''c'') = Some (sample_session 0 [])" and ok: "ss_ok (w_sessions ?w)"
    using alice_live [of 0 0 "[]"] alice_ok [of 0 0 "[]"] by simp_all
  from alice_build persist_appended [OF ok live] that show ?thesis by blast
qed

lemma alice_turn: "\<exists>r. run_turn sample_agent (py ''alice'') (py ''c'') (py ''hello'') [] [] (alice_world 0 0 []) = Some r
  \<and> tr_events r = [TextDelta (py ''hello''), TurnComplete no_usage 1 (py ''completed'')] \<and> tr_raised r = None"
proof -
  obtain w ctx where ctx: "cb_build sample_builder (py ''alice'') (py ''c'') (py ''hello'') (alice_world 0 0 []) = (w, Inr ctx)"
    "\<forall>texts tool_turns. \<exists>w' ts. persist (py ''alice'') (py ''c'') (py ''hello'') texts tool_turns w = (w', Inr ts)"
    by (rule alice_context) blast
  then obtain w' ts where p: "persist (py ''alice'') (py ''c'') (py ''hello'') [py ''hello''] [] w = (w', Inr ts)" by blast
  have n: "nat (ac_max_iterations default_agent_config) = Suc 5" by (simp add: default_agent_config_def)
  show ?thesis
    using ctx(1) p n
    by (simp add: run_turn_def sample_agent_def seq_def select_llm_def ret_def turn_deadline_def
      turn_iteration_def sample_llm_def Let_def turn_start_def turn_end_def accumulate_def no_usage_def
      eval_nat_numeral py_def) (simp add: default_agent_config_def)
qed

lemma alice_broken_turn: "\<exists>r. run_turn broken_agent (py ''alice'') (py ''c'') (py ''hello'') [] [] (alice_world 0 0 []) = Some r
  \<and> tr_events r \<noteq> [] \<and> tr_raised r = Some TimeoutError"
proof -
  obtain w ctx where ctx: "cb_build sample_builder (py ''alice'') (py ''c'') (py ''hello'') (alice_world 0 0 []) = (w, Inr ctx)"
    "\<forall>texts tool_turns. \<exists>w' ts. persist (py ''alice'') (py ''c'') (py ''hello'') texts tool_turns w = (w', Inr ts)"
    by (rule alice_context) blast
  then obtain w' ts where p: "persist (py ''alice'') (py ''c'') (py ''hello'') [] [] w = (w', Inr ts)" by blast
  have n: "nat (ac_max_iterations default_agent_config) = Suc 5" by (simp add: default_agent_config_def)
  show ?thesis
    using ctx(1) p n
    by (simp add: run_turn_def broken_agent_def sample_agent_def seq_def select_llm_def ret_def turn_deadline_def
      turn_iteration_def Let_def turn_start_def turn_end_def turn_failed_def is_control_flow_def
      eval_nat_numeral py_def) (simp add: default_agent_config_def)
qed

section \<open>Servers\<close>

text \<open>A server that answers, or whose handshake fails.\<close>

definition sample_server :: "string \<Rightarrow> mcp_server_config" where
  "sample_server name = \<lparr>ms_name = py name, ms_transport = STDIO, ms_command = Some (py ''serve''), ms_url = None, ms_args = [],
     ms_auto_allow = False\<rparr>"

definition sample_sdk :: "exn option \<Rightarrow> unit mcp_process_ext mcp_sdk" where
  "sample_sdk failure = \<lparr>sd_answer = (\<lambda>a. if a = Initialize then failure else None), sd_effect = (\<lambda>a w. w), sd_tools = [],
     sd_call_tool = (\<lambda>t args timeout w. (w, None))\<rparr>"

definition sample_process :: mcp_process where
  "sample_process = world.extend (sample_world 0) \<lparr>mp_open = {}, mp_stack = Map.empty\<rparr>"

lemma sample_sdk_quiet: "quiet_sdk (sample_sdk None)" "quiet_sdk (sample_sdk (Some TimeoutError))"
  by (simp_all add: quiet_sdk_def sample_sdk_def is_control_flow_def)

end
