(* ===== verification/Job_Command.thy ===== *)
theory Job_Command
  imports Jobs Service
begin

text \<open>
  \<open>jobs/__main__.py\<close>: the command line of the offline jobs. \<open>argparse\<close> is the library's, the model starts from the
  parsed arguments; the clients' constructors have no effect, closing the HTTP client is a parameter.
\<close>

datatype job_command = DedupCommand | ResummarizeCommand

text \<open>\<open>str.split(c)\<close>, and the ids of \<open>--users\<close>.\<close>

fun split_on :: "'a \<Rightarrow> 'a list \<Rightarrow> 'a list list" where
  "split_on c [] = [[]]"
| "split_on c (x # xs) =
     (if x = c then [] # split_on c xs
      else case split_on c xs of [] \<Rightarrow> [[x]] | ys # yss \<Rightarrow> (x # ys) # yss)"

definition user_ids_of :: "pystr \<Rightarrow> pystr list" where
  "user_ids_of users = filter (\<lambda>u. u \<noteq> []) (map strip (split_on 44 users))"

text \<open>The process exits with an error code or prints its totals.\<close>

datatype job_outcome = ExitCode int | Printed pystr

definition print_dedup :: "dedup_result list \<Rightarrow> pystr" where
  "print_dedup results =
     py ''dedup complete: '' @ py_int (sum_list (map clusters_merged results)) @ py '' clusters merged, ''
     @ py_int (sum_list (map points_deleted results)) @ py '' points deleted''"

definition print_resummarize :: "resummarization_result list \<Rightarrow> pystr" where
  "print_resummarize results =
     py ''resummarize complete: '' @ py_int (sum_list (map updated results)) @ py ''/''
     @ py_int (sum_list (map scanned results)) @ py '' points refreshed''"

text \<open>
  The jobs run on the store \<open>build_stores\<close> makes: a new in-memory store is empty, a Qdrant collection holds what it
  held.
\<close>

definition open_vectors :: "vector_impl \<Rightarrow> 'x world_scheme \<Rightarrow> 'x world_scheme" where
  "open_vectors impl w = (case impl of MemoryVectors vs \<Rightarrow> w\<lparr>w_vectors := vs\<rparr> | QdrantVectors _ \<Rightarrow> w)"

definition run_command :: "'app harness_kit_config \<Rightarrow> job_command \<Rightarrow> 'x dedup_job \<Rightarrow> 'x resummarize_job \<Rightarrow> pystr list
    \<Rightarrow> ('x, job_outcome) wio" where
  "run_command cfg command dedup resummarize user_ids =
     (case command of
        DedupCommand \<Rightarrow>
          seq (dedup_run_for_all (dedup\<lparr>dj_cfg := hk_deduplication cfg\<rparr>) user_ids) (\<lambda>results. ret (Printed (print_dedup results)))
      | ResummarizeCommand \<Rightarrow>
          seq (resummarize_run_for_all (resummarize\<lparr>rj_cfg := hk_resummarization cfg\<rparr>) user_ids)
            (\<lambda>results. ret (Printed (print_resummarize results))))"

definition job_main :: "'app harness_kit_config res \<Rightarrow> job_command \<Rightarrow> pystr \<Rightarrow> 'x dedup_job \<Rightarrow> 'x resummarize_job
    \<Rightarrow> ('x, unit) wio \<Rightarrow> ('x, job_outcome) wio" where
  "job_main config command users dedup resummarize close_client w =
     (case config of
        Inl e \<Rightarrow> (w, Inl e)
      | Inr cfg \<Rightarrow>
          (let user_ids = user_ids_of users
           in if user_ids = [] then (w, Inr (ExitCode 1))
              else case build_stores cfg [] of
                  Inl e \<Rightarrow> (w, Inl e)
                | Inr sts \<Rightarrow> ensuring (run_command cfg command dedup resummarize user_ids) close_client (open_vectors (sr_vectors sts) w)))"

section \<open>Lemmas\<close>

text \<open>The ids a caller joins with commas are read back.\<close>

lemma split_on_plain: "c \<notin> set xs \<Longrightarrow> split_on c xs = [xs]"
  by (induction xs) auto

lemma split_on_append: "c \<notin> set xs \<Longrightarrow> split_on c (xs @ c # ys) = xs # split_on c ys"
  by (induction xs) auto

lemma split_on_join: "us \<noteq> [] \<Longrightarrow> \<forall>u \<in> set us. c \<notin> set u \<Longrightarrow> split_on c (join [c] us) = us"
  by (induction "[c]" us rule: join.induct) (auto simp: split_on_plain split_on_append)

lemma user_ids_of_join:
  assumes "\<forall>u \<in> set us. 44 \<notin> set u \<and> strip u = u \<and> u \<noteq> []"
  shows "user_ids_of (join [44] us) = us"
proof (cases "us = []")
  case False
  then have "split_on 44 (join [44] us) = us"
    using assms by (intro split_on_join) auto
  moreover have "map strip us = us" and "filter (\<lambda>u. u \<noteq> []) us = us"
    using assms by (auto simp: map_idI)
  ultimately show ?thesis by (simp add: user_ids_of_def)
qed (simp add: user_ids_of_def)

text \<open>Once the stores are built the client is closed, whatever the job did.\<close>

lemma job_main_closes:
  assumes "user_ids_of users \<noteq> []" and "build_stores cfg [] = Inr sts"
    and "run_command cfg command dedup resummarize (user_ids_of users) (open_vectors (sr_vectors sts) w) = (w1, r)"
  shows "fst (job_main (Inr cfg) command users dedup resummarize close_client w) = fst (close_client w1)"
  using assms by (simp add: job_main_def ensuring_state)

text \<open>With the in-memory backend, the default, there is nothing to do: the command reports success on an empty store.\<close>

lemma dedup_candidates_Nil [simp]: "dedup_candidates cfg [] = []"
  by (simp add: dedup_candidates_def slice_def sort_desc_def)

lemma dedup_nothing: "w_vectors w = [] \<Longrightarrow> dedup_run_for_all j uids w = (w, Inr (map (\<lambda>_. no_dedup) uids))"
  by (induction uids)
    (simp_all add: seq_def except_exception_def dedup_run_for_user_def list_candidates_def ret_def)

lemma memory_backend_is_noop:
  assumes "user_ids_of users \<noteq> []" and "build_stores cfg [] = Inr sts" and "sc_vector_backend (hk_stores cfg) = MEMORY"
  shows "job_main (Inr cfg) DedupCommand users dedup resummarize (ret ()) w =
    (w\<lparr>w_vectors := []\<rparr>, Inr (Printed (py ''dedup complete: 0 clusters merged, 0 points deleted'')))"
proof -
  have "sr_vectors sts = MemoryVectors []"
    using assms(2,3) by (auto simp: build_stores_def build_vectors_def split: sum.splits)
  moreover have "sum_list (map f (map (\<lambda>_. no_dedup) us)) = (0 :: int)" if "f no_dedup = 0" for f and us :: "pystr list"
    using that by (induction us) auto
  ultimately show ?thesis
    using assms(1,2)
    by (simp add: job_main_def run_command_def open_vectors_def ensuring_def seq_def dedup_nothing ret_def print_dedup_def
        no_dedup_def py_int_def nat_digits.simps py_def)
qed

end
