(* ===== verification/Overlapping_Turns.thy ===== *)
theory Overlapping_Turns
  imports Conversation_End Redis_Session
begin

text \<open>
  Two turns of one conversation that persist at the same time, as when a user has it open twice. \<open>_persist\<close> awaits one
  append after the other. On the in-memory store no await suspends; on Redis each is a round trip, and the appends of two
  turns can come in any interleaving. Here each append is taken as a whole; what happens when two of them overlap is
  \<open>redis_append_race\<close>.
\<close>

section \<open>Appending on Redis\<close>

text \<open>A series of appends with the times they are made at; it ends at the first that raises.\<close>

fun rs_append_all :: "'s redis \<Rightarrow> int option \<Rightarrow> 's \<Rightarrow> pystr \<Rightarrow> (turn \<times> real) list \<Rightarrow> unit res \<times> 's" where
  "rs_append_all R ttl s c [] = (Inr (), s)"
| "rs_append_all R ttl s c ((turn, now) # rest) =
     (case rs_append R ttl s c turn now of
        (Inl e, s) \<Rightarrow> (Inl e, s)
      | (Inr _, s) \<Rightarrow> rs_append_all R ttl s c rest)"

text \<open>The instants from \<open>start\<close> on at which a session written then has not expired.\<close>

definition in_window :: "int option \<Rightarrow> real \<Rightarrow> real \<Rightarrow> bool" where
  "in_window ttl start t \<longleftrightarrow> start \<le> t \<and> (case ttl of None \<Rightarrow> True | Some e \<Rightarrow> t < start + of_int e)"

lemma rs_append_window:
  assumes "rs_ok R ttl s" and "\<forall>t. in_window ttl start t \<longrightarrow> rs_live R s t c = Some st" and "in_window ttl start now"
  obtains s' where "rs_append R ttl s c turn now = (Inr (), s')" and "rs_ok R ttl s'"
    and "\<forall>t. in_window ttl start t \<longrightarrow>
      rs_live R s' t c = Some (st\<lparr>working_buffer := working_buffer st @ [turn], updated_at := now, finalized_at := None\<rparr>)"
proof -
  have R: "redis_laws R" "ttl_valid ttl" "rs_inv R s" using assms(1) by (simp_all add: rs_ok_def)
  have "rs_live R s now c = Some st" using assms(2,3) by blast
  then have a: "rs_append R ttl s c turn now = (Inr (), rs_append_write R ttl c st turn now s)"
    by (simp add: rs_append_result [OF R(3)])
  have "rs_ok R ttl (rs_append_write R ttl c st turn now s)"
    using rs_ok_append [OF assms(1), of c turn now] a by simp
  moreover have "rs_live R (rs_append_write R ttl c st turn now s) t c =
      Some (st\<lparr>working_buffer := working_buffer st @ [turn], updated_at := now, finalized_at := None\<rparr>)" if "in_window ttl start t" for t
    using that assms(3) unfolding rs_append_write_def
    by (intro rs_write_live(2) [OF R(1,2)]) (auto simp: in_window_def split: option.splits)
  ultimately show thesis using a that by blast
qed

text \<open>A series of appends adds its turns in order.\<close>

lemma rs_append_all_live:
  assumes "rs_ok R ttl s" and "\<forall>t. in_window ttl start t \<longrightarrow> rs_live R s t c = Some st"
    and "\<forall>z \<in> set zs. in_window ttl start (snd z)" and "in_window ttl start t"
  shows "fst (rs_append_all R ttl s c zs) = Inr () \<and>
    (\<exists>st'. rs_load R (snd (rs_append_all R ttl s c zs)) c (st_user_id st) t = Inr (Some st')
      \<and> working_buffer st' = working_buffer st @ map fst zs)"
  using assms(1-3)
proof (induction zs arbitrary: s st)
  case Nil
  then show ?case
    using assms(4) by (simp add: rs_ok_def rs_load_result)
next
  case (Cons z zs)
  obtain turn now where z: "z = (turn, now)" by fastforce
  with Cons.prems(3) have now: "in_window ttl start now" by simp
  obtain s' where s': "rs_append R ttl s c turn now = (Inr (), s')" "rs_ok R ttl s'"
    "\<forall>t. in_window ttl start t \<longrightarrow>
      rs_live R s' t c = Some (st\<lparr>working_buffer := working_buffer st @ [turn], updated_at := now, finalized_at := None\<rparr>)"
    by (rule rs_append_window [OF Cons.prems(1,2) now])
  from Cons.IH [OF s'(2,3)] Cons.prems(3) s'(1) show ?case
    by (simp add: z)
qed

section \<open>Interleavings\<close>

lemma shuffles_insert: "xs @ ys @ zs \<in> shuffles (xs @ zs) ys"
proof (induction xs)
  case Nil
  show ?case
    by (induction ys) (auto intro: Cons_in_shuffles_rightI)
qed (auto intro: Cons_in_shuffles_leftI)

lemma shuffles_append: "xs @ ys \<in> shuffles xs ys"
  using shuffles_insert [of xs ys "[]"] by simp

text \<open>After a paired history a call that is followed by something else than its result is not answered.\<close>

lemma paired_append_iff: "paired pend xs \<Longrightarrow> paired pend (xs @ ys) \<longleftrightarrow> paired [] ys"
  by (induction "pend" xs rule: paired.induct) auto

lemma split_pair_unpaired:
  assumes "buffer_ok xs" and "turn_role call = py ''assistant''" and "turn_tool_calls call \<noteq> []" and "turn_role t = py ''user''"
  shows "\<not> paired [] (map turn_to_message (xs @ call # t # ys))"
proof -
  have "turn_to_message call = MAssistantToolCalls (turn_tool_calls call) (or_none (turn_text call))"
    and "turn_to_message t = MUser (turn_text t)"
    using assms(2-4) by (simp_all add: turn_to_message_def)
  then show ?thesis
    using paired_append_iff [OF buffer_ok_paired [OF assms(1)]] assms(3) by simp
qed

text \<open>
  If one of the turns called a tool, the message of the other one can come between the call and its result.
\<close>

lemma interleaving_splits_pair:
  assumes "buffer_ok buf" and "tools = call # result # rest" and "turn_role call = py ''assistant''" and "turn_tool_calls call \<noteq> []"
  shows "\<exists>zs \<in> shuffles (persisted_turns msg texts tools now) (persisted_turns msg' texts' tools' now').
    \<not> paired [] (map turn_to_message (buf @ zs))"
proof -
  let ?front = "persisted_turns msg texts [] now" and ?other = "persisted_turns msg' texts' tools' now'"
  let ?zs = "(?front @ [call]) @ ?other @ (result # rest)"
  obtain others where other: "?other = new_turn (py ''user'') msg' now' # others"
    by (simp add: persisted_turns_def)
  have "?zs \<in> shuffles (persisted_turns msg texts tools now) ?other"
    using shuffles_insert [of "?front @ [call]" ?other "result # rest"] assms(2) by (simp add: persisted_turns_def)
  moreover have "buffer_ok (buf @ ?front)"
    by (intro buffer_ok_append assms(1) persisted_turns_ok) simp
  from split_pair_unpaired [OF this assms(3,4), of "new_turn (py ''user'') msg' now'" "others @ result # rest"]
  have "\<not> paired [] (map turn_to_message (buf @ ?zs))"
    by (simp add: other new_turn_def)
  ultimately show ?thesis by blast
qed

end
