(* ===== verification/Connection_Service.thy ===== *)
theory Connection_Service
  imports Application
begin

text \<open>
  A connection at work: the tasks of \<open>Websocket\<close> on the shared state of the service. A turn that is taken from the
  queue runs as \<open>run_turn\<close> does and its events are sent one by one; \<open>set_model\<close> acts when it is received, the end
  of the conversation when \<open>gather\<close> ends. What the rest of the process does while a turn runs is part of what its
  external calls do, as in \<open>Agent_Loop\<close>. Every frame is taken to be sent and the handler is not cancelled: what a
  lost client does to a turn is left to \<open>Websocket\<close>.
\<close>

section \<open>The system\<close>

record 'x served =
  cs_conn :: ws_conn
  cs_world :: "'x world_scheme"
  cs_approvals :: approvals
  cs_enqueued :: "bg_task list"

definition cs_init :: "'x world_scheme \<Rightarrow> approvals \<Rightarrow> 'x served" where
  "cs_init w approvals = \<lparr>cs_conn = ws_init, cs_world = w, cs_approvals = approvals, cs_enqueued = []\<rparr>"

datatype 'x cs_label =
    CsText "json res"
  | CsDisconnect
  | CsTake "'x label list list"
  | CsSend
  | CsTurnOver
  | CsClose

text \<open>
  The turn of a payload; a missing message raises before the turn starts, and so does one that is no string here.
\<close>

definition serve_turn :: "'x agent \<Rightarrow> pystr \<Rightarrow> payload \<Rightarrow> 'x label list list \<Rightarrow> approvals \<Rightarrow> 'x world_scheme
    \<Rightarrow> 'x turn_result option" where
  "serve_turn ag conversation_id payload scheds approvals w =
     (case bind_res (payload_str payload (py ''message'')) (\<lambda>m.
             bind_res (payload_str payload (py ''user_id'')) (\<lambda>u. Inr (u, m))) of
        Inl e \<Rightarrow> Some \<lparr>tr_world = w, tr_events = [], tr_raised = Some e, tr_enqueued = [], tr_approvals = approvals\<rparr>
      | Inr (user_id, message) \<Rightarrow> run_turn ag user_id conversation_id message scheds approvals w)"

text \<open>What a message does when it is received: an approval takes its entry, \<open>set_model\<close> may be refused.\<close>

definition receive_action :: "json res \<Rightarrow> ws_action option" where
  "receive_action frame = (case frame of
       Inr (JObj p) \<Rightarrow> (case ws_receive p of Inl e \<Rightarrow> None | Inr a \<Rightarrow> Some a)
     | _ \<Rightarrow> None)"

definition receive_model :: "'x agent \<Rightarrow> pystr \<Rightarrow> json res \<Rightarrow> ('x, unit) wio" where
  "receive_model ag conversation_id frame = (case receive_action frame of
       Some (WsSetModel user_id model) \<Rightarrow> set_conversation_model ag conversation_id user_id model
     | _ \<Rightarrow> ret ())"

definition receive_approval :: "json res \<Rightarrow> approvals \<Rightarrow> approvals" where
  "receive_approval frame approvals = (case receive_action frame of
       Some (WsResolve call_id approved) \<Rightarrow> dict_del call_id approvals
     | _ \<Rightarrow> approvals)"

definition move :: "ws_label \<Rightarrow> 'x served \<Rightarrow> 'x served option" where
  "move l s = map_option (\<lambda>k. s\<lparr>cs_conn := k\<rparr>) (ws_step l (cs_conn s))"

fun cs_step :: "'x agent \<Rightarrow> pystr \<Rightarrow> 'x cs_label \<Rightarrow> 'x served \<Rightarrow> 'x served option" where
  "cs_step ag c (CsText frame) s =
     (case receive_model ag c frame (cs_world s) of
        (w, answer) \<Rightarrow> move (WsText frame answer)
          (s\<lparr>cs_world := w, cs_approvals := receive_approval frame (cs_approvals s)\<rparr>))"
| "cs_step ag c CsDisconnect s = move WsDisconnect s"
| "cs_step ag c (CsTake scheds) s =
     (case wsc_queue (cs_conn s) of
        Some payload # _ \<Rightarrow>
          (case serve_turn ag c payload scheds (cs_approvals s) (cs_world s) of
             None \<Rightarrow> None
           | Some r \<Rightarrow> move (WsTake (tr_events r) (tr_raised r))
               (s\<lparr>cs_world := tr_world r, cs_approvals := tr_approvals r, cs_enqueued := cs_enqueued s @ tr_enqueued r\<rparr>))
      | _ \<Rightarrow> move (WsTake [] None) s)"
| "cs_step ag c CsSend s = move (WsSend Sent) s"
| "cs_step ag c CsTurnOver s = move WsTurnOver s"
| "cs_step ag c CsClose s =
     move WsClose (s\<lparr>cs_world := (case wsc_last_user (cs_conn s) of
         None \<Rightarrow> cs_world s
       | Some user_id \<Rightarrow> fst (suppress_exception (end_conversation ag user_id c) (cs_world s)))\<rparr>)"

fun cs_run :: "'x agent \<Rightarrow> pystr \<Rightarrow> 'x cs_label list \<Rightarrow> 'x served \<Rightarrow> 'x served option" where
  "cs_run ag c [] s = Some s"
| "cs_run ag c (l # ls) s = (case cs_step ag c l s of None \<Rightarrow> None | Some s' \<Rightarrow> cs_run ag c ls s')"

section \<open>The specification: one operation after the other\<close>

text \<open>The frames of a turn are those its SSE stream would have.\<close>

datatype 'x served_op =
    DoTurn payload "'x label list list"
  | DoReceive "json res"
  | DoEnd pystr

record 'x serial =
  sr_world :: "'x world_scheme"
  sr_approvals :: approvals
  sr_enqueued :: "bg_task list"
  sr_frames :: "payload list"

fun serial_op :: "'x agent \<Rightarrow> pystr \<Rightarrow> 'x served_op \<Rightarrow> 'x serial \<Rightarrow> 'x serial option" where
  "serial_op ag c (DoTurn payload scheds) z =
     map_option (\<lambda>r. \<lparr>sr_world = tr_world r, sr_approvals = tr_approvals r, sr_enqueued = sr_enqueued z @ tr_enqueued r,
         sr_frames = sr_frames z @ sse_frames r\<rparr>)
       (serve_turn ag c payload scheds (sr_approvals z) (sr_world z))"
| "serial_op ag c (DoReceive frame) z =
     Some (z\<lparr>sr_world := fst (receive_model ag c frame (sr_world z)), sr_approvals := receive_approval frame (sr_approvals z)\<rparr>)"
| "serial_op ag c (DoEnd user_id) z =
     Some (z\<lparr>sr_world := fst (suppress_exception (end_conversation ag user_id c) (sr_world z))\<rparr>)"

fun serial_run :: "'x agent \<Rightarrow> pystr \<Rightarrow> 'x served_op list \<Rightarrow> 'x serial \<Rightarrow> 'x serial option" where
  "serial_run ag c [] z = Some z"
| "serial_run ag c (x # xs) z = (case serial_op ag c x z of None \<Rightarrow> None | Some z' \<Rightarrow> serial_run ag c xs z')"

definition serial_init :: "'x world_scheme \<Rightarrow> approvals \<Rightarrow> 'x serial" where
  "serial_init w approvals = \<lparr>sr_world = w, sr_approvals = approvals, sr_enqueued = [], sr_frames = []\<rparr>"

fun op_turn :: "'x served_op \<Rightarrow> payload list" where
  "op_turn (DoTurn payload _) = [payload]"
| "op_turn _ = []"

fun op_end :: "'x served_op \<Rightarrow> pystr list" where
  "op_end (DoEnd u) = [u]"
| "op_end _ = []"

lemma serial_run_append:
  "serial_run ag c (xs @ ys) z = (case serial_run ag c xs z of None \<Rightarrow> None | Some z' \<Rightarrow> serial_run ag c ys z')"
  by (induction xs arbitrary: z) (auto split: option.splits)

section \<open>The simulation\<close>

text \<open>The frames the runner has still to send.\<close>

definition frames_left :: "runner \<Rightarrow> payload list" where
  "frames_left r = (case r of
       RunnerSending fs raised \<Rightarrow> fs @ (case raised of None \<Rightarrow> [] | Some e \<Rightarrow> if is_control_flow e then [] else [error_frame e])
     | RunnerReporting f \<Rightarrow> [f]
     | _ \<Rightarrow> [])"

definition serial_of :: "'x served \<Rightarrow> 'x serial" where
  "serial_of s = \<lparr>sr_world = cs_world s, sr_approvals = cs_approvals s, sr_enqueued = cs_enqueued s,
     sr_frames = wsc_sent (cs_conn s) @ frames_left (wsc_runner (cs_conn s))\<rparr>"

definition orderly :: "ws_conn \<Rightarrow> bool" where
  "orderly k \<longleftrightarrow> wsc_closed k \<and> wsc_receiver k = ReceiverDone \<and> wsc_runner k = RunnerDone"

definition final_op :: "ws_conn \<Rightarrow> 'x served_op list" where
  "final_op k = (case wsc_last_user k of None \<Rightarrow> [] | Some u \<Rightarrow> [DoEnd u])"

definition simulated :: "'x agent \<Rightarrow> pystr \<Rightarrow> 'x serial \<Rightarrow> 'x served_op list \<Rightarrow> 'x served \<Rightarrow> bool" where
  "simulated ag c z ops s \<longleftrightarrow> ws_inv (cs_conn s) \<and> \<not> wsc_broken (cs_conn s) \<and> (wsc_closed (cs_conn s) \<longrightarrow> gather_ended (cs_conn s)) 
     \<and> serial_run ag c ops z = Some (serial_of s)
     \<and> concat (map op_turn ops) = wsc_started (cs_conn s) \<and> concat (map op_end ops) = ws_ended (cs_conn s)
     \<and> (orderly (cs_conn s) \<longrightarrow> (\<exists>before. ops = before @ final_op (cs_conn s) \<and> concat (map op_end before) = []))"

lemma simulated_init: "simulated ag c (serial_init w ap) [] (cs_init w ap)"
  using ws_inv_init
  by (simp add: simulated_def cs_init_def serial_init_def serial_of_def frames_left_def ws_ended_def orderly_def ws_init_def)

lemma moveE:
  assumes "move l s = Some s'"
  obtains k where "ws_step l (cs_conn s) = Some k" and "s' = s\<lparr>cs_conn := k\<rparr>"
  using assms by (auto simp: move_def)

lemmas ws_splits = if_splits sum.splits option.splits list.splits runner.splits send_outcome.splits

text \<open>A text frame is the receiver's alone.\<close>

lemma ws_text:
  assumes "ws_step (WsText frame answer) k = Some k'"
  shows "wsc_receiver k = ReceiverActive" and "wsc_runner k' = wsc_runner k" and "wsc_closed k' = wsc_closed k"
    and "wsc_sent k' = wsc_sent k" and "wsc_started k' = wsc_started k" and "wsc_broken k' = wsc_broken k"
    and "ws_ended k' = ws_ended k"
  using assms by (auto simp: ws_dispatch_def ws_ended_def split: if_splits sum.splits json.splits ws_action.splits)

text \<open>A \<open>gather\<close> that has ended stays so; an orderly end is reached by the closing step.\<close>

lemma runner_stays:
  assumes "\<not> runner_active (wsc_runner k)" and "ws_step l k = Some k'"
  shows "wsc_runner k' = wsc_runner k"
proof (cases l)
  case (WsText frame answer)
  with ws_text(2) assms(2) show ?thesis by blast
qed (use assms in \<open>cases "wsc_runner k"; auto simp: runner_active_def split: if_splits\<close>)+

lemma receiver_stays: "wsc_receiver k \<noteq> ReceiverActive \<Longrightarrow> ws_step l k = Some k' \<Longrightarrow> wsc_receiver k' = wsc_receiver k"
  by (cases l) (auto split: ws_splits)

lemma gather_stays:
  assumes "gather_ended k" and "ws_step l k = Some k'"
  shows "gather_ended k'"
  using assms(1) runner_stays [OF _ assms(2)] receiver_stays [OF _ assms(2)]
  by (auto simp: gather_ended_def runner_active_def)

lemma closed_before:
  assumes "ws_step l k = Some k'" and "wsc_closed k'" and "l \<noteq> WsClose"
  shows "wsc_closed k"
proof (cases l)
  case (WsText frame answer)
  with ws_text assms show ?thesis by blast
qed (use assms in \<open>auto split: ws_splits\<close>)

lemma gather_closed:
  assumes "ws_step l k = Some k'" and "wsc_closed k \<longrightarrow> gather_ended k" and "wsc_closed k'"
  shows "gather_ended k'"
proof (cases "l = WsClose")
  case True
  with assms show ?thesis by (auto simp: gather_ended_def split: if_splits)
next
  case False
  with assms closed_before gather_stays show ?thesis by blast
qed

lemma orderly_step:
  assumes "ws_step l k = Some k'" and "wsc_closed k \<longrightarrow> gather_ended k" and "orderly k'"
  shows "l = WsClose"
proof (rule ccontr)
  assume l: "l \<noteq> WsClose"
  with assms closed_before have k: "wsc_closed k" "gather_ended k"
    unfolding orderly_def by blast+
  with runner_stays [OF _ assms(1)] receiver_stays [OF _ assms(1)] assms(3)
  have "wsc_receiver k = ReceiverDone" "wsc_runner k = RunnerDone"
    by (auto simp: gather_ended_def orderly_def runner_active_def)
  with l assms(1) k(1) show False by (cases l) auto
qed

text \<open>What each step does to the frames, the turns and the ends.\<close>

lemma serve_turn_no_message:
  "serve_turn ag c p scheds ap w = Some r \<Longrightarrow> map_of p (py ''message'') = None \<Longrightarrow>
     tr_events r = [] \<and> tr_raised r = Some (KeyError (py ''message''))"
  by (auto simp: serve_turn_def payload_str_def bind_res_def)

lemma take_turn:
  assumes "ws_step (WsTake (tr_events r) (tr_raised r)) k = Some k'" and "wsc_queue k = Some p # q"
    and "serve_turn ag c p scheds ap w = Some r"
  shows "wsc_sent k' @ frames_left (wsc_runner k') = wsc_sent k @ frames_left (wsc_runner k) @ sse_frames r"
    and "wsc_started k' = wsc_started k @ [p]" and "ws_ended k' = ws_ended k"
  using assms serve_turn_no_message [OF assms(3)]
  by (auto simp: frames_left_def sse_frames_def ws_ended_def split: if_splits option.splits)

lemma quiet_moves:
  assumes "ws_step l k = Some k'" and "l \<in> {WsDisconnect, WsSend Sent, WsTurnOver} \<or> (l = WsTake [] None \<and> \<not> (\<exists>p q. wsc_queue k = Some p # q))"
  shows "wsc_sent k' @ frames_left (wsc_runner k') = wsc_sent k @ frames_left (wsc_runner k)"
    and "wsc_started k' = wsc_started k" and "ws_ended k' = ws_ended k" and "wsc_broken k' = wsc_broken k"
  using assms by (auto simp: frames_left_def ws_ended_def turn_over_def split: ws_splits)

lemma simulated_extend:
  assumes "simulated ag c z ops s" and "ws_step l (cs_conn s) = Some (cs_conn s')" and "l \<noteq> WsClose"
    and "wsc_broken (cs_conn s') = wsc_broken (cs_conn s)" and "serial_run ag c new (serial_of s) = Some (serial_of s')"
    and "wsc_started (cs_conn s') = wsc_started (cs_conn s) @ concat (map op_turn new)"
    and "ws_ended (cs_conn s') = ws_ended (cs_conn s) @ concat (map op_end new)"
  shows "simulated ag c z (ops @ new) s'"
proof -
  have "ws_inv (cs_conn s')"
    using ws_inv_step [OF _ assms(2)] assms(1) by (simp add: simulated_def)
  moreover have "wsc_closed (cs_conn s') \<longrightarrow> gather_ended (cs_conn s')"
    using gather_closed [OF assms(2)] assms(1) by (simp add: simulated_def)
  moreover have "\<not> orderly (cs_conn s')"
    using orderly_step [OF assms(2)] assms(1,3) by (auto simp: simulated_def)
  ultimately show ?thesis
    using assms(1,4-7) by (simp add: simulated_def serial_run_append)
qed

lemma simulated_quiet:
  assumes "simulated ag c z ops s" and "move l s = Some s'"
    and "l \<in> {WsDisconnect, WsSend Sent, WsTurnOver} \<or> (l = WsTake [] None \<and> \<not> (\<exists>p q. wsc_queue (cs_conn s) = Some p # q))"
  shows "simulated ag c z ops s'"
proof -
  obtain k where k: "ws_step l (cs_conn s) = Some k" "s' = s\<lparr>cs_conn := k\<rparr>"
    by (rule moveE [OF assms(2)])
  have "l \<noteq> WsClose" using assms(3) by auto
  from simulated_extend [OF assms(1) _ this, of s' "[]"] k quiet_moves [OF k(1) assms(3)] show ?thesis
    by (simp add: serial_of_def)
qed

lemma simulated_close:
  assumes "simulated ag c z ops s" and "cs_step ag c CsClose s = Some s'"
  shows "simulated ag c z (ops @ final_op (cs_conn s)) s'"
proof -
  let ?k = "cs_conn s"
  from assms(2) obtain k where k: "ws_step WsClose ?k = Some k" and s': "s' = s\<lparr>cs_world := (case wsc_last_user ?k of
       None \<Rightarrow> cs_world s | Some u \<Rightarrow> fst (suppress_exception (end_conversation ag u c) (cs_world s))), cs_conn := k\<rparr>"
    by (auto elim!: moveE)
  from k have open_before: "\<not> wsc_closed ?k" "gather_ended ?k"
    and kd: "k = ?k\<lparr>wsc_closed := True, wsc_effects := wsc_effects ?k @ (case wsc_last_user ?k of None \<Rightarrow> [] | Some u \<Rightarrow> [EndConversation u])\<rparr>"
    by (auto split: if_splits)
  have none: "ws_ended ?k = []" using assms(1) open_before by (auto simp: simulated_def ws_inv_def)
  have "serial_run ag c (final_op ?k) (serial_of s) = Some (serial_of s')"
    by (auto simp: final_op_def serial_of_def s' kd split: option.split)
  moreover have "ws_inv k" using ws_inv_step [OF _ k] assms(1) by (simp add: simulated_def)
  moreover have "gather_ended k" using gather_stays [OF open_before(2) k] .
  moreover have "concat (map op_turn (final_op ?k :: 'a served_op list)) = []" "concat (map op_end (final_op ?k :: 'a served_op list)) = ws_ended k"
    using none by (auto simp: final_op_def kd ws_ended_def split: option.split)
  moreover have "final_op k = (final_op ?k :: 'a served_op list)" by (simp add: final_op_def kd)
  ultimately show ?thesis
    using assms(1) none by (auto simp: simulated_def s' serial_run_append) (auto simp: kd)
qed

lemma simulated_step:
  assumes "simulated ag c z ops s" and "cs_step ag c l s = Some s'"
  shows "\<exists>new. simulated ag c z (ops @ new) s'"
proof (cases l)
  case (CsText frame)
  obtain w answer where m: "receive_model ag c frame (cs_world s) = (w, answer)" by fastforce
  with assms(2) CsText obtain k where k: "ws_step (WsText frame answer) (cs_conn s) = Some k"
    and s': "s' = s\<lparr>cs_world := w, cs_approvals := receive_approval frame (cs_approvals s), cs_conn := k\<rparr>"
    by (auto elim!: moveE)
  have "simulated ag c z (ops @ [DoReceive frame]) s'"
    by (rule simulated_extend [OF assms(1), of "WsText frame answer"])
      (use k m in \<open>simp_all add: s' ws_text [OF k] serial_of_def del: ws_step.simps\<close>)
  then show ?thesis by blast
next
  case (CsTake scheds)
  show ?thesis
  proof (cases "\<exists>p q. wsc_queue (cs_conn s) = Some p # q")
    case True
    then obtain p q where q: "wsc_queue (cs_conn s) = Some p # q" by blast
    with assms(2) CsTake obtain r k where r: "serve_turn ag c p scheds (cs_approvals s) (cs_world s) = Some r"
      and k: "ws_step (WsTake (tr_events r) (tr_raised r)) (cs_conn s) = Some k"
      and s': "s' = s\<lparr>cs_world := tr_world r, cs_approvals := tr_approvals r, cs_enqueued := cs_enqueued s @ tr_enqueued r, cs_conn := k\<rparr>"
      by (auto split: option.splits elim!: moveE)
    have "wsc_broken k = wsc_broken (cs_conn s)" using k q by (auto split: if_splits)
    then have "simulated ag c z (ops @ [DoTurn p scheds]) s'"
      using take_turn [OF k q r] k r
      by (intro simulated_extend [OF assms(1), of "WsTake (tr_events r) (tr_raised r)"]) (simp_all add: s' serial_of_def del: ws_step.simps)
    then show ?thesis by blast
  next
    case False
    with assms(2) CsTake have "move (WsTake [] None) s = Some s'"
      by (auto split: list.splits option.splits)
    with simulated_quiet [OF assms(1)] False show ?thesis by (metis append_Nil2 insertCI)
  qed
next
  case CsClose
  with simulated_close assms show ?thesis by blast
qed (rule exI [of _ "[]"], use simulated_quiet [OF assms(1)] assms(2) in simp)+

lemma simulated_run: "simulated ag c z ops s \<Longrightarrow> cs_run ag c ls s = Some s' \<Longrightarrow> \<exists>ops'. simulated ag c z ops' s'"
proof (induction ls arbitrary: ops s)
  case (Cons l ls)
  from Cons.prems(2) obtain s1 where s1: "cs_step ag c l s = Some s1" "cs_run ag c ls s1 = Some s'"
    by (auto split: option.splits simp del: cs_step.simps)
  from simulated_step [OF Cons.prems(1) s1(1)] Cons.IH [OF _ s1(2)] show ?case by blast
qed auto

text \<open>The end leaves no session of the user that is not finalized, when the services answer.\<close>

lemma end_finalizes:
  assumes "quiet_agent ag" and "map_of (sessions (w_sessions (fst (suppress_exception (end_conversation ag u c) w)))) c = Some st"
    and "st_user_id st = u"
  shows "finalized_at st \<noteq> None"
proof (cases "\<forall>st. map_of (sessions (w_sessions w)) c = Some st \<longrightarrow> st_user_id st = u")
  case True
  from end_conversation_ended [OF assms(1) True] obtain w' where w': "end_conversation ag u c w = (w', Inr ())"
    "ended_sessions (w_sessions w) c (w_now w) (w_sessions w')" .
  with assms(2) show ?thesis
    by (simp add: suppress_exception_def except_exception_def ended_sessions_def)
next
  case False
  then obtain st' where st': "map_of (sessions (w_sessions w)) c = Some st'" "st_user_id st' \<noteq> u" by blast
  show ?thesis
  proof (cases "ss_live (w_sessions w) (w_now w) c")
    case None
    from assms(2,3) st' end_conversation_absent [OF None, of ag u] None show ?thesis
      by (auto simp: suppress_exception_def except_exception_def ss_load_def ss_live_def dict_simps split: if_splits)
  next
    case (Some st2)
    with st' have "st_user_id st2 \<noteq> u" by (auto simp: ss_live_def split: if_splits)
    from end_conversation_other [OF Some this] assms(2,3) st' show ?thesis
      by (simp add: suppress_exception_def except_exception_def)
  qed
qed

text \<open>The operations of a connection, and how an orderly one ends.\<close>

lemma connection_serial:
  assumes "cs_run ag c ls (cs_init w approvals) = Some s"
  obtains ops where "serial_run ag c ops (serial_init w approvals) = Some (serial_of s)"
    and "concat (map op_turn ops) @ ws_pending (cs_conn s) = map snd (wsc_received (cs_conn s))"
    and "wsc_closed (cs_conn s) \<and> wsc_runner (cs_conn s) = RunnerDone \<Longrightarrow> ws_pending (cs_conn s) = []
      \<and> (\<exists>before. ops = before @ final_op (cs_conn s) \<and> concat (map op_end before) = [])"
    and "wsc_last_user (cs_conn s) = (if wsc_received (cs_conn s) = [] then None else Some (fst (last (wsc_received (cs_conn s)))))"
proof -
  obtain ops where sim: "simulated ag c (serial_init w approvals) ops s"
    using simulated_run [OF simulated_init assms] by blast
  note sim = sim [unfolded simulated_def ws_inv_def]
  show thesis
  proof (rule that [of ops])
    show "ws_pending (cs_conn s) = [] \<and> (\<exists>before. ops = before @ final_op (cs_conn s) \<and> concat (map op_end before) = [])"
      if "wsc_closed (cs_conn s) \<and> wsc_runner (cs_conn s) = RunnerDone"
      using sim that by (simp add: orderly_def)
  qed (use sim in simp_all)
qed

lemma orderly_finalizes:
  assumes "serial_run ag c (before @ [DoEnd u]) z = Some (serial_of s)" and "quiet_agent ag"
    and "map_of (sessions (w_sessions (cs_world s))) c = Some st" and "st_user_id st = u"
  shows "finalized_at st \<noteq> None"
proof -
  from assms(1) obtain z' where "z'\<lparr>sr_world := fst (suppress_exception (end_conversation ag u c) (sr_world z'))\<rparr> = serial_of s"
    by (auto simp: serial_run_append split: option.splits)
  from this [symmetric] have "sr_world (serial_of s) = fst (suppress_exception (end_conversation ag u c) (sr_world z'))"
    by simp
  with assms(3) show ?thesis
    by (intro end_finalizes [OF assms(2) _ assms(4)]) (simp add: serial_of_def)
qed

end
