(* ===== verification/Clients.thy ===== *)
theory Clients
  imports Application
begin

text \<open>
  The programs of \<open>examples/\<close>: \<open>ws_client.py\<close>, which reads frames from a connection, \<open>single_turn.py\<close> and
  \<open>multi_user.py\<close>, which drive the agent. What is printed is a string; the texts of floats and of a usage value are
  parameters. A client of the connection sees the frames of each turn as \<open>Connection_Service\<close> has them sent.
\<close>

section \<open>A client of the WebSocket\<close>

definition get_field :: "payload \<Rightarrow> string \<Rightarrow> json" where
  "get_field frame k = (case map_of frame (py k) of None \<Rightarrow> JNull | Some v \<Rightarrow> v)"

definition frame_kind :: "payload \<Rightarrow> pystr" where
  "frame_kind frame = get_str frame ''type''"

text \<open>What a frame makes the client print.\<close>

definition print_frame :: "(real \<Rightarrow> pystr) \<Rightarrow> payload \<Rightarrow> pystr" where
  "print_frame fl frame =
     (let field = (\<lambda>k. json_str fl (get_field frame k))
      in if frame_kind frame = py ''text'' then field ''text''
         else if frame_kind frame = py ''tool_call''
         then nl @ py ''[calling '' @ field ''name'' @ py ''('' @ field ''arguments'' @ py '')]'' @ nl
         else if frame_kind frame = py ''tool_result''
         then nl @ py ''['' @ field ''name'' @ py '' -> ok='' @ field ''ok'' @ py '': '' @ field ''content'' @ py '']'' @ nl
         else if frame_kind frame = py ''turn_complete''
         then nl @ py ''--- '' @ field ''stop_reason'' @ py '', usage='' @ field ''usage'' @ nl
         else if frame_kind frame = py ''error'' then nl @ py ''[error] '' @ field ''error'' @ nl
         else [])"

text \<open>\<open>turn\<close>: frames are read until one ends the turn; the result is the frames it read and those left, \<open>None\<close> if it waits.\<close>

fun read_turn :: "payload list \<Rightarrow> (payload list \<times> payload list) option" where
  "read_turn [] = None"
| "read_turn (frame # frames) =
     (if frame_kind frame \<in> {py ''turn_complete'', py ''error''} then Some ([frame], frames)
      else map_option (\<lambda>(seen, left). (frame # seen, left)) (read_turn frames))"

text \<open>The client sends a message and reads a turn, then the next: \<open>answers\<close> are the frames each message makes the server send.\<close>

fun client_turns :: "payload list \<Rightarrow> payload list list \<Rightarrow> payload list list option" where
  "client_turns buffered [] = Some []"
| "client_turns buffered (answer # answers) =
     (case read_turn (buffered @ answer) of
        None \<Rightarrow> None
      | Some (seen, left) \<Rightarrow> map_option (\<lambda>rest. seen # rest) (client_turns left answers))"

section \<open>Programs that drive the agent\<close>

definition say_event :: "(real \<Rightarrow> pystr) \<Rightarrow> (token_usage \<Rightarrow> pystr) \<Rightarrow> agent_event \<Rightarrow> pystr" where
  "say_event fl usage_text event = (case event of
       TextDelta txt \<Rightarrow> txt
     | ToolCallStarted call_id name arguments \<Rightarrow>
         nl @ py ''[calling '' @ name @ py ''('' @ json_repr fl (JObj arguments) @ py '')]'' @ nl
     | ToolResult call_id name ok content \<Rightarrow>
         nl @ py ''['' @ name @ py '' -> ok='' @ json_repr fl (JBool ok) @ py '': '' @ content @ py '']'' @ nl
     | TurnComplete usage iterations stop_reason \<Rightarrow>
         nl @ py ''--- turn done: '' @ py_int iterations @ py '' iter(s), stop='' @ stop_reason @ py '', usage='' @ usage_text usage @ nl
     | _ \<Rightarrow> [])"

text \<open>\<open>say\<close>: what one message makes the program print; \<open>None\<close> is a turn that is still running.\<close>

definition say :: "(real \<Rightarrow> pystr) \<Rightarrow> (token_usage \<Rightarrow> pystr) \<Rightarrow> 'x agent \<Rightarrow> pystr \<Rightarrow> 'x label list list \<Rightarrow> approvals
    \<Rightarrow> 'x world_scheme \<Rightarrow> ('x turn_result \<times> pystr) option" where
  "say fl usage_text ag message scheds approvals w =
     map_option (\<lambda>r. (r, nl @ py ''>>> '' @ message @ nl @ nl @ concat (map (say_event fl usage_text) (tr_events r))))
       (run_turn ag (py ''demo-user'') (py ''demo-conversation'') message scheds approvals w)"

record demo_user =
  du_user_id :: pystr
  du_conversation_id :: pystr
  du_allowed_tools :: "pystr set"
  du_messages :: "pystr list"

definition FULL_TOOLS :: "pystr set" where
  "FULL_TOOLS = {py ''remember_fact'', py ''forget_fact'', py ''list_facts'', py ''recall''}"

definition USERS :: "demo_user list" where
  "USERS = [
     \<lparr>du_user_id = py ''alice'', du_conversation_id = py ''alice-demo'', du_allowed_tools = FULL_TOOLS,
      du_messages = [py ''Hi! Please remember that I'm allergic to peanuts.'', py ''What food should I avoid?'']\<rparr>,
     \<lparr>du_user_id = py ''bob'', du_conversation_id = py ''bob-demo'', du_allowed_tools = FULL_TOOLS,
      du_messages = [py ''Remember that my favorite programming language is Rust.'',
        py ''What's my favorite language '' @ [8212] @ py '' and do you know anything about my allergies?'']\<rparr>,
     \<lparr>du_user_id = py ''carol'', du_conversation_id = py ''carol-demo'', du_allowed_tools = FULL_TOOLS - {py ''remember_fact''},
      du_messages = [py ''Please remember that my password is hunter2.'']\<rparr>]"

text \<open>The block of lines of a turn: finished lines, and the texts since the last of them.\<close>

fun turn_lines :: "(real \<Rightarrow> pystr) \<Rightarrow> (token_usage \<Rightarrow> pystr) \<Rightarrow> pystr \<Rightarrow> agent_event list \<Rightarrow> pystr list \<Rightarrow> pystr list \<Rightarrow> pystr list" where
  "turn_lines fl ut user [] lines parts = lines"
| "turn_lines fl ut user (event # events) lines parts = (case event of
       TextDelta txt \<Rightarrow> turn_lines fl ut user events lines (parts @ [txt])
     | ToolCallStarted call_id name arguments \<Rightarrow>
         turn_lines fl ut user events
           (lines @ (if parts = [] then [] else [concat parts]) @ [py ''[calling '' @ name @ py ''('' @ json_repr fl (JObj arguments) @ py '')]'']) []
     | ToolResult call_id name ok content \<Rightarrow>
         turn_lines fl ut user events (lines @ [py ''['' @ name @ py '' -> ok='' @ json_repr fl (JBool ok) @ py '': '' @ content @ py '']'']) parts
     | TurnComplete usage iterations stop_reason \<Rightarrow>
         turn_lines fl ut user events (lines @ (if parts = [] then [] else [concat parts])
           @ [py ''--- '' @ user @ py '': '' @ py_int iterations @ py '' iter(s), stop='' @ stop_reason @ py '', usage='' @ ut usage]) parts
     | _ \<Rightarrow> turn_lines fl ut user events lines parts)"

text \<open>The permissions a user is given first.\<close>

definition user_permissions :: "demo_user \<Rightarrow> perm_store \<Rightarrow> perm_store" where
  "user_permissions user s =
     (let s = pm_grant s (du_user_id user) (du_allowed_tools user);
          revoked = FULL_TOOLS - du_allowed_tools user
      in if revoked \<noteq> {} then pm_revoke s (du_user_id user) revoked else s)"

text \<open>
  The messages one after the other, with the schedules of their batches; the printed blocks, and the exception that ended
  it, if any. \<open>None\<close>: a turn that is still running.
\<close>

fun user_turns :: "(real \<Rightarrow> pystr) \<Rightarrow> (token_usage \<Rightarrow> pystr) \<Rightarrow> 'x agent \<Rightarrow> demo_user \<Rightarrow> (pystr \<times> 'x label list list) list \<Rightarrow> approvals
    \<Rightarrow> 'x world_scheme \<Rightarrow> ('x world_scheme \<times> pystr list res) option" where
  "user_turns fl ut ag user [] approvals w = Some (w, Inr [])"
| "user_turns fl ut ag user ((message, scheds) # rest) approvals w =
     (case run_turn ag (du_user_id user) (du_conversation_id user) message scheds approvals w of
        None \<Rightarrow> None
      | Some r \<Rightarrow>
          (case tr_raised r of
             Some e \<Rightarrow> Some (tr_world r, Inl e)
           | None \<Rightarrow>
               let block = join nl (turn_lines fl ut (du_user_id user) (tr_events r)
                     [py ''>>> ['' @ du_user_id user @ py ''] '' @ message, []] []) @ nl @ nl
               in map_option (\<lambda>(w, out). (w, map_sum id (\<lambda>blocks. block # blocks) out))
                    (user_turns fl ut ag user rest (tr_approvals r) (tr_world r))))"

definition run_user :: "(real \<Rightarrow> pystr) \<Rightarrow> (token_usage \<Rightarrow> pystr) \<Rightarrow> 'x agent \<Rightarrow> demo_user \<Rightarrow> 'x label list list list \<Rightarrow> approvals
    \<Rightarrow> 'x world_scheme \<Rightarrow> ('x world_scheme \<times> pystr list res) option" where
  "run_user fl ut ag user scheds approvals w =
     map_option (\<lambda>(w, out). case out of
         Inl e \<Rightarrow> (w, Inl e)
       | Inr blocks \<Rightarrow> (case end_conversation ag (du_user_id user) (du_conversation_id user) w of
             (w, Inl e) \<Rightarrow> (w, Inl e) | (w, Inr _) \<Rightarrow> (w, Inr blocks)))
       (user_turns fl ut ag user (zip (du_messages user) scheds) approvals
          (w\<lparr>w_perms := user_permissions user (w_perms w)\<rparr>))"

section \<open>The client in step with the server\<close>

definition terminal :: "agent_event \<Rightarrow> bool" where
  "terminal e \<longleftrightarrow> (case e of TurnComplete _ _ _ \<Rightarrow> True | TurnFailed _ \<Rightarrow> True | _ \<Rightarrow> False)"

lemma frame_kind_terminal: "frame_kind (encode_event e) \<in> {py ''turn_complete'', py ''error''} \<longleftrightarrow> terminal e"
  by (cases e) (simp_all add: frame_kind_def get_str_def encode_event_def terminal_def)

lemma frame_kind_error: "frame_kind (error_frame e) = py ''error''"
  by (simp add: frame_kind_def get_str_def error_frame_def)

lemma read_turn_events:
  "list_all (\<lambda>e. \<not> terminal e) es \<Longrightarrow> terminal e \<Longrightarrow>
     read_turn (map encode_event es @ encode_event e # left) = Some (map encode_event es @ [encode_event e], left)"
  by (induction es) (simp_all add: frame_kind_terminal [simplified])

text \<open>A batch yields events of tool calls only.\<close>

definition calls_only :: "'x batch \<Rightarrow> bool" where
  "calls_only b \<longleftrightarrow> list_all (\<lambda>e. \<not> terminal e) (bt_emitted b) \<and> (\<forall>e. QEvent e \<in> set (bt_queue b) \<longrightarrow> \<not> terminal e)"

lemma calls_only_frame [simp]:
  "calls_only (b\<lparr>bt_world := w\<rparr>) = calls_only b" "calls_only (b\<lparr>bt_pending := p\<rparr>) = calls_only b"
  "calls_only (b\<lparr>bt_futures := f\<rparr>) = calls_only b" "calls_only (set_phase i ph b) = calls_only b"
  "calls_only (pop_pending k b) = calls_only b"
  by (simp_all add: calls_only_def set_phase_def pop_pending_def)

lemma calls_only_put: "calls_only (put_items items b) \<longleftrightarrow> calls_only b \<and> (\<forall>e. QEvent e \<in> set items \<longrightarrow> \<not> terminal e)"
  by (auto simp: calls_only_def put_items_def)

lemma calls_only_finish [simp]: "calls_only (finish_worker env i ok d obs ts b) = calls_only b"
  by (simp add: finish_worker_def Let_def calls_only_put terminal_def)

lemma calls_only_start [simp]: "calls_only (start_tool env i b) = calls_only b"
  by (simp add: start_tool_def Let_def calls_only_put terminal_def)

lemma calls_only_cancel [simp]: "calls_only (cancel_workers env n b) = calls_only b"
  by (induction n) (auto simp: Let_def split: phase.splits)

lemma calls_only_step: "calls_only b \<Longrightarrow> batch_step env lab b = Some b' \<Longrightarrow> calls_only b'"
proof (cases lab)
  case Receive
  assume "calls_only b" "batch_step env lab b = Some b'"
  with Receive show ?thesis
    by (auto simp: batch_step_def fan_in_def calls_only_def split: if_splits list.splits queue_item.splits)
qed (auto simp: batch_step_def worker_start_def worker_resume_def worker_timeout_def worker_execute_def deny_def resolve_approval_def
    Let_def calls_only_put terminal_def split: if_splits option.splits prod.splits sum.splits)

lemma calls_only_run: "calls_only b \<Longrightarrow> batch_run env labs b = Some b' \<Longrightarrow> calls_only b'"
  by (induction labs arbitrary: b) (auto split: option.splits dest: calls_only_step)

section \<open>The events of a turn\<close>

lemma text_deltas_open: "list_all (\<lambda>e. \<not> terminal e) (text_deltas es)"
  by (induction es rule: text_deltas.induct) (simp_all add: terminal_def)

lemma execute_open:
  assumes "execute_tool_calls ag u c calls labs s = Some s'" and "list_all (\<lambda>e. \<not> terminal e) (ts_events s)"
  shows "list_all (\<lambda>e. \<not> terminal e) (ts_events s')"
proof -
  from assms(1) obtain b where b: "batch_run (batch_env_of ag u c calls) labs
      (batch_init (batch_env_of ag u c calls) (ts_world s) (ts_approvals s)) = Some b" "s' = after_batch b s"
    by (auto simp: execute_tool_calls_def Let_def split: option.splits if_splits)
  have "calls_only (batch_init (batch_env_of ag u c calls) (ts_world s) (ts_approvals s))"
    by (simp add: calls_only_def batch_init_def)
  from calls_only_run [OF this b(1)] assms(2) b(2) show ?thesis
    by (simp add: after_batch_def calls_only_def)
qed

lemma iteration_leaves_open:
  assumes "turn_iteration ag llm d tools u c scheds s = Inl (s', x)" and "list_all (\<lambda>e. \<not> terminal e) (ts_events s)"
  shows "list_all (\<lambda>e. \<not> terminal e) (ts_events s')"
  using assms by (auto simp: turn_iteration_def Let_def text_deltas_open split: prod.splits option.splits list.splits if_splits)

lemma iteration_goes_on_open:
  assumes "turn_iteration ag llm d tools u c scheds s = Inr s'" and "list_all (\<lambda>e. \<not> terminal e) (ts_events s)"
  shows "list_all (\<lambda>e. \<not> terminal e) (ts_events s')"
proof -
  from assms(1) obtain calls labs stream s1 where s1: "execute_tool_calls ag u c calls labs s1 = Some s'"
    "ts_events s1 = ts_events s @ text_deltas stream"
    by (auto simp: turn_iteration_def Let_def split: prod.splits option.splits list.splits if_splits)
  from execute_open [OF s1(1)] s1(2) assms(2) show ?thesis by (simp add: text_deltas_open)
qed

lemma loop_open:
  "list_all (\<lambda>e. \<not> terminal e) (ts_events s) \<Longrightarrow> turn_loop ag llm d tools u c n scheds s = (s', x) \<Longrightarrow>
     list_all (\<lambda>e. \<not> terminal e) (ts_events s')"
proof (induction n arbitrary: scheds s)
  case (Suc n)
  then show ?case
    by (cases "turn_iteration ag llm d tools u c scheds s") (auto dest: iteration_leaves_open iteration_goes_on_open)
qed simp

text \<open>How a turn ends, as its events show it.\<close>

definition ends_properly :: "'x turn_result \<Rightarrow> bool" where
  "ends_properly r \<longleftrightarrow> (\<exists>es. list_all (\<lambda>e. \<not> terminal e) es \<and> (case tr_raised r of
       None \<Rightarrow> \<exists>usage n reason. tr_events r = es @ [TurnComplete usage n reason]
     | Some e \<Rightarrow> tr_events r = es \<and> (is_control_flow e \<or> es = []) \<or> (\<exists>m. tr_events r = es @ [TurnFailed m])))"

lemma turn_failed_ends:
  assumes "list_all (\<lambda>e. \<not> terminal e) (ts_events s)"
  shows "ends_properly (turn_failed u c m e s)"
  unfolding ends_properly_def using assms
  by (intro exI [of _ "ts_events s"]) (auto simp: turn_failed_def split: prod.splits sum.splits)

lemma turn_end_ends:
  assumes "list_all (\<lambda>e. \<not> terminal e) (ts_events s)" and "turn_end u c m (s, x) = Some r"
  shows "ends_properly r"
proof (cases x)
  case (Stopped reason)
  show ?thesis
  proof (cases "snd (persist u c m (ts_texts s) (ts_tool_turns s) (ts_world s))")
    case (Inl e)
    with assms Stopped turn_failed_ends [of "s\<lparr>ts_world := fst (persist u c m (ts_texts s) (ts_tool_turns s) (ts_world s))\<rparr>"]
    show ?thesis by (auto simp: turn_end_def split: prod.splits)
  next
    case (Inr tasks)
    with assms Stopped show ?thesis
      unfolding ends_properly_def
      by (intro exI [of _ "ts_events s"]) (auto simp: turn_end_def split: prod.splits)
  qed
qed (use assms turn_failed_ends [OF assms(1)] in \<open>auto simp: turn_end_def\<close>)

lemma run_turn_ends:
  assumes "run_turn ag u c m scheds ap w = Some r"
  shows "ends_properly r"
proof -
  let ?start = "seq (cb_build (ag_builder ag) u c m) (\<lambda>ctx. seq (select_llm ag u c) (\<lambda>llm. ret (ctx, llm))) w"
  obtain w' b where b: "?start = (w', b)" by fastforce
  show ?thesis
  proof (cases b)
    case (Inl e)
    with assms b show ?thesis by (auto simp: run_turn_def ends_properly_def)
  next
    case (Inr p)
    obtain ctx llm where p: "p = (ctx, llm)" by fastforce
    obtain s x where l: "turn_loop ag llm (turn_deadline (ag_cfg ag) (w_monotonic w')) (ctx_tools ctx) u c
        (nat (ac_max_iterations (ag_cfg ag))) scheds (turn_start ctx ap w') = (s, x)" by fastforce
    have "list_all (\<lambda>e. \<not> terminal e) (ts_events s)"
      by (rule loop_open [OF _ l]) (simp add: turn_start_def)
    from turn_end_ends [OF this] assms b Inr p l show ?thesis by (simp add: run_turn_def)
  qed
qed

text \<open>
  The client's reading of a turn: a completed turn is read to its last frame, and so is one that was refused before it
  began; one that failed midway has a second error frame, which is left for the next turn.
\<close>

lemma client_reads_turn:
  assumes "ends_properly r"
  shows "tr_raised r = None \<Longrightarrow> read_turn (sse_frames r @ later) = Some (sse_frames r, later)"
    and "tr_raised r = Some e \<Longrightarrow> \<not> is_control_flow e \<Longrightarrow> tr_events r = [] \<Longrightarrow> read_turn (sse_frames r @ later) = Some (sse_frames r, later)"
    and "tr_raised r = Some e \<Longrightarrow> \<not> is_control_flow e \<Longrightarrow> tr_events r \<noteq> [] \<Longrightarrow>
      read_turn (sse_frames r @ later) = Some (map encode_event (tr_events r), error_frame e # later)"
proof -
  from assms obtain es where es: "list_all (\<lambda>e. \<not> terminal e) es" and ends: "case tr_raised r of
       None \<Rightarrow> \<exists>usage n reason. tr_events r = es @ [TurnComplete usage n reason]
     | Some e \<Rightarrow> tr_events r = es \<and> (is_control_flow e \<or> es = []) \<or> (\<exists>m. tr_events r = es @ [TurnFailed m])"
    unfolding ends_properly_def by blast
  have t: "terminal (TurnComplete usage n reason)" "terminal (TurnFailed m)" for usage n reason m
    by (simp_all add: terminal_def)
  show "tr_raised r = None \<Longrightarrow> read_turn (sse_frames r @ later) = Some (sse_frames r, later)"
    using ends read_turn_events [OF es t(1)] by (auto simp: sse_frames_def)
  show "tr_raised r = Some e \<Longrightarrow> \<not> is_control_flow e \<Longrightarrow> tr_events r = [] \<Longrightarrow> read_turn (sse_frames r @ later) = Some (sse_frames r, later)"
    by (simp add: sse_frames_def frame_kind_error)
  show "tr_raised r = Some e \<Longrightarrow> \<not> is_control_flow e \<Longrightarrow> tr_events r \<noteq> [] \<Longrightarrow>
      read_turn (sse_frames r @ later) = Some (map encode_event (tr_events r), error_frame e # later)"
    using ends read_turn_events [OF es t(2)] by (auto simp: sse_frames_def)
qed

text \<open>If every turn completes, each is read as the answer to its message.\<close>

lemma client_in_step:
  "\<forall>r \<in> set rs. ends_properly r \<and> tr_raised r = None \<Longrightarrow> client_turns [] (map sse_frames rs) = Some (map sse_frames rs)"
proof (induction rs)
  case (Cons r rs)
  with client_reads_turn(1) [of r "[]"] show ?case by simp
qed simp

text \<open>A turn that failed midway leaves every later answer to be read one message late.\<close>

lemma client_lags:
  assumes "\<And>later. read_turn (stale @ later) = Some (stale, later)"
    and "\<forall>r \<in> set rs. ends_properly r \<and> tr_raised r = None"
  shows "client_turns stale (map sse_frames rs) = Some (butlast (stale # map sse_frames rs))"
  using assms
proof (induction rs arbitrary: stale)
  case (Cons r rs)
  have "read_turn (sse_frames r @ later) = Some (sse_frames r, later)" for later
    using Cons.prems(2) client_reads_turn(1) [of r] by simp
  with Cons show ?case by simp
qed simp

lemma client_turns_append:
  "\<forall>r \<in> set rs. ends_properly r \<and> tr_raised r = None \<Longrightarrow>
     client_turns [] (map sse_frames rs @ answers) = map_option (\<lambda>rest. map sse_frames rs @ rest) (client_turns [] answers)"
proof (induction rs)
  case (Cons r rs)
  with client_reads_turn(1) [of r "[]"] show ?case
    by (simp add: option.map_comp comp_def)
qed (simp add: option.map_ident_strong)

lemma client_out_of_step:
  assumes "ends_properly r" and "tr_raised r = Some e" and "\<not> is_control_flow e" and "tr_events r \<noteq> []"
    and "\<forall>r \<in> set rs. ends_properly r \<and> tr_raised r = None"
  shows "client_turns [] (sse_frames r # map sse_frames rs)
    = Some (map encode_event (tr_events r) # butlast ([error_frame e] # map sse_frames rs))"
proof -
  have "read_turn ([error_frame e] @ later) = Some ([error_frame e], later)" for later
    by (simp add: frame_kind_error)
  with client_reads_turn(3) [OF assms(1-4), of "[]"] client_lags [OF _ assms(5), of "[error_frame e]"]
  show ?thesis by simp
qed

text \<open>What a user of \<open>multi_user.py\<close> may call is what the script lists and what is allowed by default but not revoked.\<close>

lemma user_permissions_allowed:
  "pm_allowed_tools (user_permissions user s) v =
     (if v = du_user_id user
      then (pm_allowed_tools s v \<union> du_allowed_tools user) - (FULL_TOOLS - du_allowed_tools user)
      else pm_allowed_tools s v)"
  by (auto simp: user_permissions_def Let_def pm_allowed_tools_def get_set_def pm_grant_def pm_revoke_def split: option.splits)

text \<open>After the permissions of all three are set, whatever the order, Carol alone may not store facts.\<close>

lemma users_permissions:
  assumes "set users = set USERS" and "distinct users" and "u \<in> set USERS"
  shows "py ''remember_fact'' \<in> pm_allowed_tools (fold user_permissions users s) (du_user_id u) \<longleftrightarrow> du_user_id u \<noteq> py ''carol''"
proof -
  have others: "x \<notin> du_user_id ` set us \<Longrightarrow> pm_allowed_tools (fold user_permissions us s) x = pm_allowed_tools s x" for us x s
    by (induction us arbitrary: s) (simp_all add: user_permissions_allowed)
  have ids: "distinct (map du_user_id us) \<Longrightarrow> v \<in> set us \<Longrightarrow> pm_allowed_tools (fold user_permissions us s) (du_user_id v)
      = (pm_allowed_tools s (du_user_id v) \<union> du_allowed_tools v) - (FULL_TOOLS - du_allowed_tools v)" for us v
  proof (induction us arbitrary: s)
    case (Cons x us)
    show ?case
    proof (cases "v \<in> set us")
      case True
      with Cons.prems have "du_user_id v \<noteq> du_user_id x" by (metis distinct.simps(2) imageI list.simps(9) set_map)
      with Cons True show ?thesis by (simp add: user_permissions_allowed)
    next
      case False
      with Cons.prems others [of "du_user_id x" us] show ?thesis by (simp add: user_permissions_allowed)
    qed
  qed simp
  have "inj_on du_user_id (set USERS)" by (simp add: USERS_def)
  with assms have "distinct (map du_user_id users)" "u \<in> set users" by (simp_all add: distinct_map)
  from ids [OF this] have allowed: "py ''remember_fact'' \<in> pm_allowed_tools (fold user_permissions users s) (du_user_id u)
      \<longleftrightarrow> py ''remember_fact'' \<in> du_allowed_tools u"
    by (auto simp: FULL_TOOLS_def)
  have "\<forall>u \<in> set USERS. py ''remember_fact'' \<in> du_allowed_tools u \<longleftrightarrow> du_user_id u \<noteq> py ''carol''"
    by (simp add: USERS_def FULL_TOOLS_def)
  with allowed assms(3) show ?thesis by blast
qed

end
