(* ===== verification/Write_Faults.thy ===== *)
theory Write_Faults
  imports World
begin

text \<open>
  What a retry may repeat. The memory layer retries its store writes (\<open>retry.py\<close>), and an attempt that failed may
  have taken effect. A write whose repetition absorbs what an earlier attempt did takes effect once, at the time of
  its last attempt. Every operation given to \<open>store_write\<close> is such a write; \<open>append_turn\<close>, which is not, is never
  retried. Between the attempts only the clock moves.
\<close>

section \<open>Dictionaries\<close>

lemma dict_set_set [simp]: "dict_set k v (dict_set k v' d) = dict_set k v d"
  by (induction d) auto

lemma dict_set_commute:
  "k2 \<in> fst ` set d \<Longrightarrow> k1 \<noteq> k2 \<Longrightarrow> dict_set k1 v1 (dict_set k2 v2 d) = dict_set k2 v2 (dict_set k1 v1 d)"
  by (induction d) auto

lemma dict_update_keys: "fst ` set (dict_update d e) = fst ` set d \<union> fst ` set e"
  by (induction d e rule: dict_update.induct) (auto simp: dom_update)

lemma dict_update_overwritten:
  "fst ` set e \<subseteq> fst ` set d \<Longrightarrow> dict_set k v (dict_update (dict_set k v' d) e) = dict_set k v (dict_update d e)"
proof (induction e arbitrary: d v')
  case (Cons p e)
  obtain q x where p: "p = (q, x)" by fastforce
  with Cons.prems have q: "q \<in> fst ` set d" "fst ` set e \<subseteq> fst ` set (dict_set q x d)"
    by (auto simp: dom_update)
  show ?case
  proof (cases "q = k")
    case True
    then show ?thesis by (simp add: p)
  next
    case False
    with q(1) have "dict_set q x (dict_set k v' d) = dict_set k v' (dict_set q x d)"
      by (simp add: dict_set_commute [of q d k])
    with Cons.IH [OF q(2)] show ?thesis by (simp add: p)
  qed
qed simp

lemma dict_update_concat: "dict_update d (e @ e') = dict_update (dict_update d e) e'"
  by (induction d e rule: dict_update.induct) simp_all

lemma dict_update_twice [simp]: "dict_update (dict_update d e) e = dict_update d e"
proof (induction e rule: rev_induct)
  case (snoc p e)
  obtain k v where p: "p = (k, v)" by fastforce
  have "fst ` set e \<subseteq> fst ` set (dict_update d e)" by (simp add: dict_update_keys)
  from dict_update_overwritten [OF this] snoc show ?case
    by (simp add: p dict_update_concat)
qed simp

section \<open>The retried writes\<close>

datatype bg_write =
    WritePoints "memory_point list"
  | WriteDeletion "pystr list" pystr
  | WriteFacts pystr payload
  | WriteSession pystr session_state
  | WriteMark pystr

fun write_op :: "bg_write \<Rightarrow> ('x, unit) wio" where
  "write_op (WritePoints points) = vectors_add points"
| "write_op (WriteDeletion ids user_id) = vectors_delete ids user_id"
| "write_op (WriteFacts user_id new_facts) = profile_upsert user_id new_facts"
| "write_op (WriteSession conversation_id state) = session_save conversation_id state"
| "write_op (WriteMark conversation_id) = session_mark conversation_id"

text \<open>The effect of one write, made at a given time.\<close>

fun written :: "bg_write \<Rightarrow> real \<Rightarrow> 'x world_scheme \<Rightarrow> 'x world_scheme" where
  "written (WritePoints points) t w = w\<lparr>w_vectors := vs_add (w_vectors w) points\<rparr>"
| "written (WriteDeletion ids user_id) t w = w\<lparr>w_vectors := vs_delete (w_vectors w) ids user_id\<rparr>"
| "written (WriteFacts user_id new_facts) t w = w\<lparr>w_profiles := pr_upsert_facts (w_profiles w) user_id new_facts t\<rparr>"
| "written (WriteSession conversation_id state) t w = w\<lparr>w_sessions := ss_save (w_sessions w) conversation_id state t\<rparr>"
| "written (WriteMark conversation_id) t w = w\<lparr>w_sessions := ss_mark_finalized (w_sessions w) conversation_id t\<rparr>"

section \<open>A backend that fails\<close>

text \<open>
  The attempts a backend fails: each comes some time after the one before, and works, is refused without an effect, or
  takes effect but raises before it is confirmed.
\<close>

datatype attempt = Works | Refused exn | Unconfirmed exn

fun flaky :: "('x, 'a) wio \<Rightarrow> ((real \<times> attempt) list \<times> 'x world_scheme, 'a) io" where
  "flaky op ([], w) = (case op w of (w', r) \<Rightarrow> (([], w'), r))"
| "flaky op ((elapsed, a) # script, w) =
     (let w = w\<lparr>w_now := w_now w + elapsed\<rparr>
      in case a of
           Works \<Rightarrow> (case op w of (w', r) \<Rightarrow> ((script, w'), r))
         | Refused e \<Rightarrow> ((script, w), Inl e)
         | Unconfirmed e \<Rightarrow> ((script, fst (op w)), Inl e))"

lemma after_attempts_last: "after_attempts op (Suc n) s = fst (op (after_attempts op n s))"
  by (induction n arbitrary: s) simp_all

section \<open>The contract of a write that may be repeated\<close>

locale repeatable_write =
  fixes put :: "real \<Rightarrow> 'x world_scheme \<Rightarrow> 'x world_scheme"
    and op :: "('x, unit) wio"
  assumes op_put: "op w = (put (w_now w) w, Inr ())"
    and absorbs: "put t' (put t w) = put t' w"
    and frame: "put t (w\<lparr>w_now := n\<rparr>) = (put t w)\<lparr>w_now := n\<rparr>"
begin

text \<open>What attempts leave: the clock moved, and nothing else or one write.\<close>

definition at_most_once :: "'x world_scheme \<Rightarrow> 'x world_scheme \<Rightarrow> bool" where
  "at_most_once w w' \<longleftrightarrow> (\<exists>n. w' = w\<lparr>w_now := n\<rparr> \<or> (\<exists>t. w' = (put t w)\<lparr>w_now := n\<rparr>))"

lemma op_after:
  assumes "at_most_once w w'"
  shows "op (w'\<lparr>w_now := n\<rparr>) = ((put n w)\<lparr>w_now := n\<rparr>, Inr ())"
  using assms by (auto simp: at_most_once_def op_put frame absorbs)

lemma clock_after: "at_most_once w w' \<Longrightarrow> at_most_once w (w'\<lparr>w_now := n\<rparr>)"
  by (fastforce simp: at_most_once_def)

lemma flaky_attempt:
  assumes "at_most_once w w'" and "flaky op (script, w') = ((script', w''), r)"
  shows "at_most_once w w''" and "r = Inr x \<Longrightarrow> w'' = (put (w_now w'') w)\<lparr>w_now := w_now w''\<rparr>"
proof -
  have same: "w'\<lparr>w_now := w_now w'\<rparr> = w'" by simp
  have put: "at_most_once w ((put n w)\<lparr>w_now := n\<rparr>)" for n
    by (auto simp: at_most_once_def)
  note op = op_after [OF assms(1)]
  show "at_most_once w w''"
    using assms(2) op [of "w_now w'", unfolded same] op put clock_after [OF assms(1)]
    by (cases "(op, (script, w'))" rule: flaky.cases) (auto simp: Let_def split: attempt.splits)
  show "r = Inr x \<Longrightarrow> w'' = (put (w_now w'') w)\<lparr>w_now := w_now w''\<rparr>"
    using assms(2) op [of "w_now w'", unfolded same] op
    by (cases "(op, (script, w'))" rule: flaky.cases) (auto simp: Let_def split: attempt.splits)
qed

lemma flaky_attempts:
  assumes "after_attempts (flaky op) n (script, w0) = (script', w')" and "at_most_once w w0"
  shows "at_most_once w w'"
  using assms
proof (induction n arbitrary: script w0)
  case (Suc n)
  obtain script1 w1 r where a: "flaky op (script, w0) = ((script1, w1), r)" by (metis prod.collapse)
  with Suc.prems flaky_attempt(1) [OF Suc.prems(2) a] Suc.IH [of script1 w1] show ?case by simp
qed simp

text \<open>A retried write takes effect once if it ends well, at the time of its end, and at most once if it fails.\<close>

lemma retried_once:
  assumes "0 \<le> max_retries policy" and "retried_write policy rnd name (flaky op) (script, w) = ((script', w'), r)"
  shows "at_most_once w w' \<and> (r = Inr () \<longrightarrow> w' = (put (w_now w') w)\<lparr>w_now := w_now w'\<rparr>)"
proof -
  obtain n where n: "retry_async policy default_retryable rnd (flaky op) (script, w)
      = (after_attempts (flaky op) (Suc n) (script, w), attempt_result (flaky op) n (script, w),
         map (\<lambda>i. backoff_delay (rnd i) i policy) [0 ..< n])"
    by (rule retry_async_attempts [OF assms(1)])
  obtain script1 w1 where before: "after_attempts (flaky op) n (script, w) = (script1, w1)" by fastforce
  obtain script2 w2 r2 where last: "flaky op (script1, w1) = ((script2, w2), r2)" by (metis prod.collapse)
  have "after_attempts (flaky op) (Suc n) (script, w) = (script2, w2)"
    using before last by (simp add: after_attempts_last del: after_attempts.simps)
  with assms(2) n before last have res: "w' = w2" "r = Inr () \<Longrightarrow> r2 = Inr ()"
    by (auto simp: retried_write_def store_write_def attempt_result_def split: sum.splits)
  have "at_most_once w w" by (auto simp: at_most_once_def intro: exI [of _ "w_now w"])
  from flaky_attempt [OF flaky_attempts [OF before this] last] res show ?thesis by auto
qed

end

section \<open>The stores' writes are repeatable\<close>

lemma vs_add_update: "vs_add s ps = dict_update s (map (\<lambda>p. (mp_id p, p)) ps)"
  by (induction s ps rule: vs_add.induct) simp_all

lemma vs_delete_none:
  "(\<And>i p. i \<in> set ids \<Longrightarrow> map_of s i = Some p \<Longrightarrow> \<not> owned_by u p) \<Longrightarrow> vs_delete s ids u = s"
  by (induction ids) (auto split: option.split)

lemma vs_delete_twice: "vs_delete (vs_delete s ids u) ids u = vs_delete s ids u"
  by (rule vs_delete_none) (auto simp: vs_delete_get split: option.splits if_splits)

lemma upsert_twice: "pr_upsert_facts (pr_upsert_facts s u fs t) u fs t' = pr_upsert_facts s u fs t'"
  by (simp add: pr_upsert_facts_def pr_get_def new_profile_def Let_def split: option.split)

lemma save_twice: "ss_save (ss_save s c st t) c st t' = ss_save s c st t'"
  by (simp add: ss_save_def)

lemma mark_twice: "ss_mark_finalized (ss_mark_finalized s c t) c t' = ss_mark_finalized s c t'"
  by (simp add: ss_mark_finalized_def dict_simps split: option.split)

interpretation bg_writes: repeatable_write "written x" "write_op x" for x
proof (unfold_locales, goal_cases)
  case (1 w)
  show ?case by (cases x) (simp_all add: world_ops)
next
  case (2 t' t w)
  show ?case by (cases x) (simp_all add: vs_add_update vs_delete_twice upsert_twice save_twice mark_twice)
next
  case (3 t w n)
  show ?case by (cases x) simp_all
qed

text \<open>An append is not repeatable: one confirmation that is lost, and the turn is in the session twice.\<close>

lemma append_repeated:
  assumes "map_of (sessions (w_sessions w)) c = Some st" and "\<not> is_control_flow e" and "default_retryable e" and "0 < max_retries policy"
  shows "\<exists>w'. retried_write policy rnd name (flaky (session_append c turn)) ([(0, Unconfirmed e)], w) = (([], w'), Inr ())
    \<and> (\<exists>st'. map_of (sessions (w_sessions w')) c = Some st' \<and> working_buffer st' = working_buffer st @ [turn, turn])"
proof -
  have "nat (max_retries policy + 1) = Suc (Suc (nat (max_retries policy - 1)))" using assms(4) by auto
  with assms show ?thesis
    by (simp add: retried_write_def store_write_def retry_async_def retry_loop_step goes_on_def session_append_def
        ss_append_turn_def dict_simps Let_def)
qed

end
