(* ===== verification/Spec2Isabelle.thy ===== *)
theory Spec2Isabelle
  imports Samples Job_Command Overlapping_Turns Connection_Service Clients Write_Faults
begin

text \<open>
  A verification development for harness_kit (\<open>src/src/harness_kit\<close>), a Python harness for multi-user LLM
  agents: a turn loop with streamed events and concurrent tool calls, three memories (working, factual,
  episodic) over pluggable stores, per-user tool permissions, rate limits and approvals, and the transports
  that serve it.

  How the program works. A transport (\<open>serving/app.py\<close>) drives \<open>Agent.run_turn\<close> (\<open>agent/loop.py\<close>). A turn
  builds a context from the user's working buffer, profile, retrieved memories, tools and skills under a token
  budget (\<open>agent/context.py\<close>, \<open>agent/budgeter.py\<close>), asks the model in a bounded loop, runs the tool calls of
  each response concurrently, each perhaps waiting for an approval (\<open>_call_worker\<close>, \<open>_execute_tool_calls\<close>,
  \<open>resolve_approval\<close>), and persists its turns. Background tasks extract facts and roll old turns into a summary
  (\<open>memory/\<close>). A conversation that ends, or that the idle sweep finds due, is written to episodic memory.

  Theories and the sources they model, in the order of their imports.

  \<^item> \<open>Prelude\<close>: Python strings as lists of code points, dictionaries as association lists in insertion order,
    slices, stable sorts, JSON values; the hints the component proofs share.
  \<^item> \<open>Errors\<close> (\<open>errors.py\<close>), \<open>Tokens\<close> (\<open>tokens.py\<close>), \<open>Effects\<close>: exceptions as values, the token estimate (with
    the locale \<open>token_estimator\<close> of what its clients need), sequencing of operations that may raise.
  \<^item> \<open>Bounded_LRU\<close> (\<open>util.py\<close>), \<open>Rate_Limit\<close> (\<open>tools/ratelimit.py\<close>), \<open>Retry\<close> (\<open>retry.py\<close>): the cache with its
    contract \<open>lru_cache\<close>, the token buckets with a potential that bounds what they admit, the retry loop in terms
    of its attempts.
  \<^item> \<open>Store_Types\<close>, \<open>Session_Store\<close>, \<open>Profile_Store\<close>, \<open>Vector_Store\<close>, \<open>Permission_Store\<close>, \<open>Skill_Store\<close>
    (\<open>stores/\<close>): the in-memory and SQLite adapters. The Protocols of \<open>stores/base.py\<close> are locales
    (\<open>session_store_spec\<close>, \<open>profile_store\<close>, \<open>vector_store_spec\<close>, \<open>permission_store\<close>) interpreted on the adapters,
    and the SQLite adapters are related to the in-memory ones by simulations.
  \<^item> \<open>Session_Codec\<close>, \<open>Redis_Session\<close> (\<open>stores/redis_session.py\<close>): a session as JSON, and the session store over
    the commands it sends. The server is a record of commands with their documented laws (\<open>redis_laws\<close>); the store
    is related to the in-memory one (C32). \<open>Qdrant_Store\<close> (\<open>stores/qdrant_vectors.py\<close>) does the same for the
    vector store over the client's calls (\<open>qdrant_laws\<close>, C20). \<open>Samples\<close> and \<open>Sample_Collection\<close> have
    a server each that meets the laws.
  \<^item> \<open>Config\<close> (\<open>config/schema.py\<close>), \<open>LLM_Types\<close>, \<open>World\<close>: the configuration records and checks, the values llm_kit
    exchanges with the code, and the state all services share (stores, limiter, clocks). The record \<open>world\<close> is
    extensible: a deployment's own state is its type variable. \<open>Config_Loader\<close> (\<open>config/loader.py\<close>): from a document
    to a configuration, with the interpolation of variables, the coercion by annotation and the checks;
    \<open>conforms\<close> is what it means for a value to have its annotation's type.
  \<^item> \<open>Working_Memory\<close>, \<open>Factual_Memory\<close>, \<open>Episodic_Memory\<close> (\<open>memory/\<close>), \<open>Budgeter\<close>, \<open>Context\<close> (\<open>agent/\<close>).
  \<^item> \<open>Tool_Registry\<close>, \<open>Native_Tools\<close>, \<open>MCP\<close> (\<open>tools/\<close>), \<open>Skills\<close> (\<open>skills/\<close>), \<open>Events\<close> (\<open>agent/events.py\<close>,
    \<open>serving/wire.py\<close>). \<open>MCP_Lifecycle\<close> follows the contexts a server's connection enters from start to shutdown.
  \<^item> \<open>Write_Faults\<close>: the retried store writes against a backend whose attempts fail with or without having taken
    effect; what such a write must satisfy is the locale \<open>repeatable_write\<close>, interpreted on the stores' writes (C12).
  \<^item> \<open>Tool_Batch\<close>: the concurrent batch of tool calls as a transition system. A step is what a task does between
    two awaits; a label names the task, or stands for what the rest of the process does in between.
    \<open>Tool_Batch_Invariants\<close> has its invariants, the measure its own steps decrease, and what an approval needs.
  \<^item> \<open>Agent_Loop\<close> (\<open>agent/loop.py\<close>), \<open>Turn_Invariants\<close> (paired histories, bounded loops), \<open>Conversation_End\<close>
    (what a turn persists, ends of conversations, the sweep), \<open>Overlapping_Turns\<close> (the appends of two turns that
    persist at the same time on Redis).
  \<^item> \<open>Service\<close> (\<open>service.py\<close>, \<open>stores/factory.py\<close>, the frames and messages of \<open>serving/app.py\<close>), \<open>Websocket\<close>
    (its connection: two tasks, the queue between them and the \<open>gather\<close> around them, as a transition system),
    \<open>Telemetry\<close> (\<open>telemetry.py\<close>, \<open>metrics.py\<close> and the wrappers of \<open>llm.py\<close>: the calls Langfuse and Prometheus get),
    \<open>Application\<close> (the clients, their closing, the routes and the lifespan). \<open>Connection_Service\<close> puts the connection
    and the agent together on one state and relates every run to a sequence of operations (C5). \<open>Clients\<close> has the
    programs of \<open>examples/\<close>, the WebSocket client among them (C14).
  \<^item> \<open>Union_Find\<close>, \<open>Jobs\<close> (\<open>jobs/dedup.py\<close>, \<open>jobs/resummarize.py\<close>, \<open>jobs/_base.py\<close>), \<open>Job_Command\<close>
    (\<open>jobs/__main__.py\<close>): the offline jobs. Union-find is a partial function, shown to return and to give the
    connected components.
  \<^item> \<open>Samples\<close>, \<open>Sample_Collection\<close>: concrete instances for the witnesses.

  Conventions. An asynchronous operation is a function from the world to the world it leaves and a result, the
  exception it raised or a value. Functions that stand for external services (the LLM, the embedder, MCP
  sessions, tool handlers, the file system, YAML, numpy) are parameters that take and return the whole world, so
  what other tasks do while such a call is awaited is part of what it returns. Clock readings are fields of the
  world. Integers are unbounded, as Python's; floats are exact reals, rounding is not modelled.

  Bounds. The only fuel is the schedule of a batch, its list of labels: a schedule that ends too early leaves the
  batch running (\<open>StillRunning\<close>, no result), and \<open>batch_never_stuck\<close> shows that a schedule that finishes it always
  exists. Loops that may not end are partial functions with an option result.

  Not modelled: the package exports and the lazy re-exports of \<open>stores/stubs.py\<close>, which have no behaviour, and the
  Protocols of \<open>stores/base.py\<close>, whose methods have no bodies and whose contracts are the locales above; FastAPI,
  \<open>argparse\<close>, printing and logging; where in a command a connection to Redis, Qdrant or a database fails (\<open>Write_Faults\<close>
  takes a write as a whole); the \<open>ImportError\<close> of an adapter whose optional package is missing; the locks around the
  first use of a store, since initialising twice is what they prevent; the spans and metrics at their call sites,
  which by C33 change nothing else. In \<open>Connection_Service\<close> every frame is sent and the handler is not cancelled;
  \<open>Websocket\<close> has the connections that break, with turns chosen by the environment.

  This theory states the properties, C1 and so on, each over the definitions of the model, with a witness that
  applies it at a concrete input.
\<close>

section \<open>A batch of tool calls\<close>

text \<open>C1: whatever the interleaving of the workers, a batch of tool calls that finished contributes to the
  model's history exactly one result message per call, in the order of the calls, and to the persisted
  turns the call/result pairs in the same order; and it leaves none of its entries in the agent's dictionary
  of pending approvals.\<close>

theorem batch_results_in_order:
  assumes "batch_run env labs (batch_init env w pending) = Some b" and "bt_remaining b = 0"
  shows "(\<exists>reports. batch_messages b = map fst reports \<and> batch_turns b = concat (map snd reports)
      \<and> length reports = length (be_calls env) \<and> (\<forall>i < length (be_calls env). good_report env i (reports ! i)))
    \<and> ((\<forall>k i c. map_of pending k \<noteq> Some (Some i, c)) \<longrightarrow> (\<forall>k i c. map_of (bt_pending b) k \<noteq> Some (Some i, c)))"
proof
  have inv: "batch_inv env b"
    using assms(1) batch_inv_reach by (simp add: batch_reach_iff)
  then have "length (bt_results b) = length (be_calls env)"
    by (simp add: batch_inv_def)
  with batch_complete(2) [OF inv assms(2)] show "\<exists>reports. batch_messages b = map fst reports \<and> batch_turns b = concat (map snd reports)
      \<and> length reports = length (be_calls env) \<and> (\<forall>i < length (be_calls env). good_report env i (reports ! i))"
    by (intro exI [of _ "map the (bt_results b)"]) (force simp: batch_messages_def batch_turns_def comp_def)
  show "(\<forall>k i c. map_of pending k \<noteq> Some (Some i, c)) \<longrightarrow> (\<forall>k i c. map_of (bt_pending b) k \<noteq> Some (Some i, c))"
    using approvals_cleaned_up [OF assms] by blast
qed

theorem batch_results_in_order_witness:
  "\<exists>b reports. batch_run sample_env sample_labels (batch_init sample_env (sample_world 0) []) = Some b
    \<and> batch_messages b = map fst reports \<and> batch_turns b = concat (map snd reports) \<and> length reports = 2"
proof -
  obtain b where b: "batch_run sample_env sample_labels (batch_init sample_env (sample_world 0) []) = Some b" "bt_remaining b = 0"
    using sample_batch_run by blast
  obtain reports where "batch_messages b = map fst reports" "batch_turns b = concat (map snd reports)" "length reports = length (be_calls sample_env)"
    using batch_results_in_order [OF b] by blast
  with b show ?thesis
    by (intro exI [of _ b] exI [of _ reports]) (simp add: sample_env_def)
qed

text \<open>C2: a tool whose policy requires approval runs only after a message approving exactly that call
  arrived on a connection of the same conversation, whatever else happened in between.\<close>

theorem approval_before_execution:
  assumes "batch_run env (before @ Execute i # after) (batch_init env w pending) = Some b"
    and "\<forall>k i c. map_of pending k \<noteq> Some (Some i, c)" and "approval_policy env i \<noteq> None"
  shows "Resolve (tc_id (be_calls env ! i)) True (be_conversation env) \<in> set before"
  using approved_before [OF assms] .

theorem approval_before_execution_witness:
  "Resolve (py ''1'') True (py ''c'') \<in> set (take 9 sample_labels)"
proof -
  have "sample_labels = take 9 sample_labels @ Execute 0 # drop 10 sample_labels"
    by (simp add: sample_labels_def)
  then obtain b where "batch_run sample_env (take 9 sample_labels @ Execute 0 # drop 10 sample_labels) (batch_init sample_env (sample_world 0) []) = Some b"
    using sample_batch_run by metis
  moreover have "approval_policy sample_env 0 \<noteq> None"
    by (simp add: approval_policy_def sample_env_def sample_registry_def reg_init_def reg_get_policy_def sample_call_def default_tool_policy_def)
  ultimately show ?thesis
    using approval_before_execution [of sample_env "take 9 sample_labels" 0 "drop 10 sample_labels" "sample_world 0" "[]"]
    by (simp add: sample_env_def sample_call_def)
qed

text \<open>C3: no interleaving gets stuck. If no handler lets a cancellation escape, then from every state a batch
  can reach (its generator not closed) its own tasks can drive it to the end.\<close>

theorem batch_never_stuck:
  assumes "\<forall>(name, t) \<in> set (rg_tools (be_registry env)). handler_total t"
    and "batch_run env labs (batch_init env w pending) = Some b" and "Close \<notin> set labs"
  shows "\<exists>more b'. list_all own_label more \<and> batch_run env more b = Some b' \<and> bt_remaining b' = 0"
proof -
  have "batch_inv env b" and "no_cancelled b"
    using assms(2) batch_inv_reach no_cancelled_run [OF assms(2,3) no_cancelled_init assms(1)]
    by (simp_all add: batch_reach_iff)
  from batch_can_complete [OF this assms(1)] show ?thesis by blast
qed

theorem batch_never_stuck_witness:
  "\<exists>more b'. list_all own_label more \<and> batch_run sample_env more (batch_init sample_env (sample_world 0) []) = Some b' \<and> bt_remaining b' = 0"
  using batch_never_stuck [of sample_env "[]" "sample_world 0" "[]"] echo_total by (simp add: sample_env_def)







text \<open>C7: a turn that stops normally appends to its session, in this order, the user's message, the
  assistant's answer if there is one and the tool turns; nothing else of the session store changes for
  a reader, the turn ends with \<open>TurnComplete\<close>, and a well-formed buffer stays well formed.\<close>

theorem turn_persisted:
  assumes "ss_ok (w_sessions (ts_world s))" and "ss_live (w_sessions (ts_world s)) (w_now (ts_world s)) c = Some st"
  shows "\<exists>r. turn_end u c msg (s, Stopped reason) = Some r \<and> tr_raised r = None
    \<and> tr_events r = ts_events s @ [TurnComplete (ts_usage s) (int (ts_iterations s)) reason]
    \<and> appended c (persisted_turns msg (ts_texts s) (ts_tool_turns s) (w_now (ts_world s))) st (ts_world s) (tr_world r)
    \<and> (buffer_ok (working_buffer st) \<longrightarrow> buffer_ok (ts_tool_turns s) \<longrightarrow>
        buffer_ok (working_buffer st @ persisted_turns msg (ts_texts s) (ts_tool_turns s) (w_now (ts_world s))))"
proof -
  obtain w' where "persist u c msg (ts_texts s) (ts_tool_turns s) (ts_world s) =
       (w', Inr ((if final_text (ts_texts s) \<noteq> [] then [FactualExtract u msg (final_text (ts_texts s))] else []) @ [WorkingRollover c u]))"
    and "appended c (persisted_turns msg (ts_texts s) (ts_tool_turns s) (w_now (ts_world s))) st (ts_world s) w'"
    using persist_appended [OF assms] by blast
  then show ?thesis
    by (simp add: turn_end_def buffer_ok_append persisted_turns_ok)
qed

theorem turn_persisted_witness:
  "\<exists>r. turn_end (py ''alice'') (py ''c'') (py ''hi'') (turn_start empty_context [] (alice_world 0 0 []), Stopped [])
     = Some r \<and> tr_raised r = None"
  using turn_persisted [of "turn_start empty_context [] (alice_world 0 0 [])"
      "py ''c''" "sample_session 0 []" "py ''alice''" "py ''hi''" "[]"] alice_live [of 0 0 "[]"] alice_ok [of 0 0 "[]"]
  by (auto simp: turn_start_def)



section \<open>Sessions and their ends\<close>





text \<open>C11: the check of the configuration is not enough for that: \<open>WorkingMemoryConfig\<close> accepts an idle time just
  below the TTL with any sweep interval, and a sweep that comes when the session is past its TTL evicts the
  due conversation: nothing is written to episodic memory and its turns are gone.\<close>

theorem sweep_too_late:
  assumes "working_config_post_init cfg = Inr ()" and "ttl_s (w_sessions w) = Some (wc_ttl_s cfg)"
    and "map_of (sessions (w_sessions w)) c = Some st" and "finalized_at st = None" and "ss_ok (w_sessions w)"
    and "of_int (wc_ttl_s cfg) < w_now w - updated_at st"
  shows "(c, st_user_id st) \<in> set (ss_due_for_finalize (w_sessions w) (of_int (wc_idle_finalize_s cfg)) (w_now w))
    \<and> end_conversation ag (st_user_id st) c w =
        (w\<lparr>w_sessions := (w_sessions w)\<lparr>sessions := dict_del c (sessions (w_sessions w))\<rparr>\<rparr>, Inr ())"
proof -
  have e: "ss_expired (w_sessions w) st (w_now w)"
    using assms(2,6) by (simp add: ss_expired_def)
  then have dead: "ss_live (w_sessions w) (w_now w) c = None"
    using assms(3) by (simp add: ss_live_def)
  have "of_int (wc_idle_finalize_s cfg) < (of_int (wc_ttl_s cfg) :: real)"
    using assms(1) by (simp add: working_config_post_init_ok)
  with assms(6) have "of_int (wc_idle_finalize_s cfg) \<le> w_now w - updated_at st" by linarith
  then have "(c, st_user_id st) \<in> set (ss_due_for_finalize (w_sessions w) (of_int (wc_idle_finalize_s cfg)) (w_now w))"
    using assms(3,4) ss_mem [OF assms(5)] by (force simp: ss_due_for_finalize_def)
  with e assms(3) end_conversation_absent [OF dead, of ag] show ?thesis
    by (simp add: ss_load_def)
qed

theorem sweep_too_late_witness:
  "\<exists>cfg :: working_memory_config. wc_sweep_interval_s cfg = 60 \<and> wc_idle_finalize_s cfg = 3590
    \<and> end_conversation sample_agent (py ''alice'') (py ''c'') (alice_world 0 3601 [])
      = ((alice_world 0 3601 [])\<lparr>w_sessions := \<lparr>sessions = [], ttl_s = Some 3600\<rparr>\<rparr>, Inr ())"
  by (rule exI [of _ "(default_working_config [])\<lparr>wc_idle_finalize_s := 3590\<rparr>"])
    (use sweep_too_late [of "(default_working_config [])\<lparr>wc_idle_finalize_s := 3590\<rparr>" "alice_world 0 3601 []" "py ''c''"
       "sample_session 0 []" sample_agent] alice_ok [of 0 3601 "[]"]
     in \<open>simp add: default_working_config_def working_config_post_init_def alice_world_def sample_world_def
       sample_session_def new_session_def\<close>)

text \<open>C12: a retried write takes effect once. Whatever attempts the backend refuses, or applies without
  confirming it, a write of the memories or the jobs that ends well has the effect of one write made at the time
  of its end, and one that fails has the effect of one write or none.\<close>

theorem retried_write_once:
  assumes "0 \<le> max_retries policy" and "retried_write policy rnd operation (flaky (write_op x)) (script, w) = ((script', w'), r)"
  shows "(r = Inr () \<longrightarrow> w' = (written x (w_now w') w)\<lparr>w_now := w_now w'\<rparr>)
    \<and> ((\<exists>n. w' = w\<lparr>w_now := n\<rparr>) \<or> (\<exists>t n. w' = (written x t w)\<lparr>w_now := n\<rparr>))"
  using bg_writes.retried_once [OF assms] by (auto simp: bg_writes.at_most_once_def)

theorem retried_write_once_witness:
  "\<exists>w' :: world. retried_write default_retry_policy (\<lambda>_. 0) [] (flaky (write_op (WriteMark (py ''c''))))
       ([(1, Unconfirmed TimeoutError), (2, Refused TimeoutError), (4, Works)], alice_world 0 0 []) = (([], w'), Inr ())
     \<and> w' = (written (WriteMark (py ''c'')) 7 (alice_world 0 0 []))\<lparr>w_now := 7\<rparr>"
proof -
  obtain w' :: world where w': "retried_write default_retry_policy (\<lambda>_. 0) [] (flaky (write_op (WriteMark (py ''c''))))
       ([(1, Unconfirmed TimeoutError), (2, Refused TimeoutError), (4, Works)], alice_world 0 0 []) = (([], w'), Inr ())" "w_now w' = 7"
    by (simp add: retried_write_def store_write_def retry_async_def retry_loop_step goes_on_def default_retry_policy_def
        default_retryable_def is_control_flow_def is_harness_kit_error_def eval_nat_numeral world_ops alice_world_def sample_world_def Let_def)
  from retried_write_once [OF _ w'(1)] w' show ?thesis by (simp add: default_retry_policy_def)
qed

text \<open>C13: a user sees and changes that user's sessions only. What \<open>load\<close> returns is owned by the caller, a live
  session of somebody else is refused as unauthorized, ending its conversation does nothing and selecting its model is
  refused, both with the world unchanged, and the listing holds exactly the caller's live sessions, newest first.\<close>

theorem sessions_isolated:
  assumes "ss_ok (w_sessions w)"
  shows "(fst (ss_load (w_sessions w) c u (w_now w)) = Inr (Some st) \<longrightarrow> st_user_id st = u)
    \<and> (ss_live (w_sessions w) (w_now w) c = Some st \<longrightarrow> st_user_id st \<noteq> u \<longrightarrow>
        ss_load (w_sessions w) c u (w_now w) = (Inl (unauthorized c u), w_sessions w)
        \<and> end_conversation ag u c w = (w, Inr ())
        \<and> (ag_llm_factory ag \<noteq> None \<longrightarrow> set_conversation_model ag c u model w = (w, Inl (unauthorized c u))))
    \<and> set (ss_list (w_sessions w) u (w_now w))
        = {session_meta c st |c st. ss_live (w_sessions w) (w_now w) c = Some st \<and> st_user_id st = u}
    \<and> sorted_wrt (\<lambda>m n. cm_updated_at n \<le> cm_updated_at m) (ss_list (w_sessions w) u (w_now w))"
proof (intro conjI impI)
  show "fst (ss_load (w_sessions w) c u (w_now w)) = Inr (Some st) \<Longrightarrow> st_user_id st = u"
    by (rule mem_sessions.load_owned [OF assms])
  assume other: "ss_live (w_sessions w) (w_now w) c = Some st" "st_user_id st \<noteq> u"
  show "ss_load (w_sessions w) c u (w_now w) = (Inl (unauthorized c u), w_sessions w)"
    using other by (auto simp: ss_load_def ss_live_def split: option.splits if_splits)
  show "end_conversation ag u c w = (w, Inr ())"
    by (rule end_conversation_other [OF other])
  show "ag_llm_factory ag \<noteq> None \<Longrightarrow> set_conversation_model ag c u model w = (w, Inl (unauthorized c u))"
    using foreign_conversation_untouched [OF other] by blast
qed (rule mem_sessions.lst_set [OF assms], rule ss_list_sorted)

theorem sessions_isolated_witness:
  "ss_load (w_sessions (alice_world 0 10 [])) (py ''c'') (py ''bob'') 10
     = (Inl (unauthorized (py ''c'') (py ''bob'')), w_sessions (alice_world 0 10 []))
   \<and> end_conversation sample_agent (py ''bob'') (py ''c'') (alice_world 0 10 []) = (alice_world 0 10 [], Inr ())"
  using sessions_isolated [OF alice_ok [of 0 10 "[]"], of "py ''c''" "py ''bob''" "sample_session 0 []" sample_agent]
    alice_live [of 0 10 "[]"]
  by (simp add: alice_user alice_world_def sample_world_def)

text \<open>C14: what a failed turn does to a client. As long as the turns complete, \<open>ws_client.py\<close> reads each turn's own
  frames as the answer to its message. A turn that fails midway sends two error frames, its own and the transport's:
  the client reads the second as the answer to its next message, and from then on each answer one message late.\<close>

theorem client_falls_behind:
  assumes "run_turn ag u c m scheds ap w = Some bad" and "tr_raised bad = Some e" and "\<not> is_control_flow e" and "tr_events bad \<noteq> []"
    and "\<forall>r \<in> set (before @ after). tr_raised r = None \<and> (\<exists>ag u c m scheds ap w. run_turn ag u c m scheds ap w = Some r)"
  shows "client_turns [] (map sse_frames before) = Some (map sse_frames before)
    \<and> client_turns [] (map sse_frames before @ sse_frames bad # map sse_frames after)
      = Some (map sse_frames before @ map encode_event (tr_events bad) # butlast ([error_frame e] # map sse_frames after))"
proof -
  have ok: "\<forall>r \<in> set before. ends_properly r \<and> tr_raised r = None" "\<forall>r \<in> set after. ends_properly r \<and> tr_raised r = None"
    using assms(5) run_turn_ends by (auto, blast+)
  from client_out_of_step [OF run_turn_ends [OF assms(1)] assms(2-4) ok(2)] client_turns_append [OF ok(1)] client_in_step [OF ok(1)]
  show ?thesis by simp
qed

theorem client_falls_behind_witness:
  "\<exists>(bad :: unit turn_result) (good :: unit turn_result). tr_raised bad = Some TimeoutError \<and> tr_raised good = None
     \<and> client_turns [] [sse_frames good, sse_frames bad, sse_frames good]
       = Some [sse_frames good, map encode_event (tr_events bad), [error_frame TimeoutError]]"
proof -
  obtain bad good where bad: "run_turn broken_agent (py ''alice'') (py ''c'') (py ''hello'') [] [] (alice_world 0 0 []) = Some bad"
      "tr_raised bad = Some TimeoutError" "tr_events bad \<noteq> []"
    and good: "run_turn sample_agent (py ''alice'') (py ''c'') (py ''hello'') [] [] (alice_world 0 0 []) = Some good" "tr_raised good = None"
    using alice_turn alice_broken_turn by blast
  have "\<forall>r \<in> set ([good] @ [good]). tr_raised r = None \<and> (\<exists>ag u c m scheds ap w. run_turn ag u c m scheds ap w = Some r)"
    by (simp add: good(2), intro exI, rule good(1))
  from client_falls_behind [OF bad(1,2) _ bad(3) this] bad good show ?thesis
    by (intro exI [of _ bad] exI [of _ good]) (simp add: is_control_flow_def del: client_turns.simps)
qed

section \<open>Permissions, profiles, rate limits\<close>

text \<open>C15: on the SQLite permission store, a revoke wins: after it, no sequence of grants, revokes and extensions of
  the default makes the tool callable by that user, unless one of them grants that very tool back to that user.\<close>

theorem revoke_wins_sqlite:
  assumes "sp_ok s" and "u \<noteq> DEFAULT_SENTINEL" and "t \<in> T"
    and "\<forall>x \<in> set ops. op_valid (\<lambda>u. u \<noteq> DEFAULT_SENTINEL) x \<and> \<not> regrants u t x"
  shows "t \<notin> fst (sp_allowed_tools (sp_run (sp_revoke s u T) ops) u)"
  using sql_perms.revoke_wins [OF assms(1,2,4,3)] by (simp add: sp_run_eq)

theorem revoke_wins_sqlite_witness:
  "py ''rm'' \<notin> fst (sp_allowed_tools (sp_run (sp_revoke (sp_init Map.empty []) (py ''bob'') {py ''rm''})
     [Extend {py ''rm''}, Grant (py ''alice'') {py ''rm''}]) (py ''bob''))"
  by (rule revoke_wins_sqlite) (simp_all add: DEFAULT_SENTINEL_def)

text \<open>C16: the SQLite permission store refines the in-memory one: from stores with the same default, any sequence of
  operations on users other than the sentinel of the default row leaves every such user with the same tools.\<close>

theorem permissions_refine:
  assumes "\<forall>x \<in> set ops. op_valid (\<lambda>u. u \<noteq> DEFAULT_SENTINEL) x" and "u \<noteq> DEFAULT_SENTINEL"
  shows "fst (sp_allowed_tools (sp_run (sp_init Map.empty defaults) ops) u) = pm_allowed_tools (pm_run (pm_init defaults) ops) u"
  using sp_refines_allowed [OF sp_refines_run [OF sp_refines_init assms(1)] assms(2)]
  by (simp add: sp_run_eq pm_run_eq)

theorem permissions_refine_witness:
  "fst (sp_allowed_tools (sp_run (sp_init Map.empty [py ''a'']) [Revoke (py ''u'') {py ''a''}, Extend {py ''b''}]) (py ''u''))
     = {py ''b''}"
  by (subst permissions_refine)
    (auto simp: DEFAULT_SENTINEL_def pm_run_def pm_allowed_tools_def pm_extend_default_allowed_def, simp_all add: pm_init_def get_set_def)

text \<open>C18: the SQLite profile store refines the in-memory one, and profiles are isolated: after any sequence of
  reads, upserts and deletions, by any users at any times, a user reads from SQLite exactly the facts, in the same
  order, that the in-memory store would hold had only that user's own operations been made.\<close>

theorem profiles_refine_and_isolate:
  assumes "\<forall>(x, now) \<in> set ops. facts_ok x"
  shows "facts (fst (sq_get (foldl sq_apply Map.empty ops) u now))
    = facts (fst (pr_get (foldl pr_apply Map.empty (filter (\<lambda>(x, _). op_user x = u) ops)) u now'))"
proof -
  have "sq_refines Map.empty Map.empty"
    by (simp add: sq_refines_def sq_view_def pr_view_def)
  from sq_refines_run [OF assms this] pr_run_own [OF assms refl] show ?thesis
    by (simp add: sql_profiles.get_facts mem_profiles.get_facts sq_refines_def)
qed

theorem profiles_refine_and_isolate_witness:
  "facts (fst (sq_get (foldl sq_apply Map.empty [(UpsertFacts (py ''a'') [(py ''k'', JNull)], 0),
      (UpsertFacts (py ''b'') [(py ''j'', JNull)], 1), (ForgetFacts (py ''b'') [py ''j''], 2)]) (py ''a'') 3)) = [(py ''k'', JNull)]"
  by (subst profiles_refine_and_isolate [where now' = 3])
    (simp_all add: pr_upsert_facts_def pr_get_def new_profile_def Let_def)



section \<open>Context and working memory\<close>

text \<open>C21: the budgeter's account is exact. An allocation fails exactly when the parts that are always sent do not
  fit, with the two figures in the error; otherwise \<open>used_tokens\<close> is the estimate of everything it keeps and
  stays within the budget, and if everything fits nothing is dropped.\<close>

theorem budget_respected:
  "(allocate estimate_tokens cfg i = Inl e \<longleftrightarrow>
      budget cfg < tier0 estimate_tokens i \<and> e = ContextOverflowError (tier0 estimate_tokens i) (budget cfg))
    \<and> (allocate estimate_tokens cfg i = Inr r \<longrightarrow>
        used_tokens r = result_cost estimate_tokens i r \<and> used_tokens r \<le> budget cfg)
    \<and> (tier0 estimate_tokens i + estimate_tokens (in_factual_block i) + estimate_tokens (in_summary i)
        + sum_list (map (turn_cost estimate_tokens) (in_buffer i)) + sum_list (map (hit_cost estimate_tokens) (in_episodic i)) \<le> budget cfg
      \<longrightarrow> allocate estimate_tokens cfg i = Inr r \<longrightarrow> out_buffer r = in_buffer i \<and> out_summary r = in_summary i
          \<and> out_factual_block r = in_factual_block i \<and> out_episodic r = sort_desc hit_score (in_episodic i))"
  using allocate_overflow_iff [of estimate_tokens cfg i e] default_estimator.allocate_used [of cfg i r]
    default_estimator.allocate_all_fits [of i cfg]
  by (intro conjI impI; auto)

theorem budget_respected_witness:
  "\<exists>r. allocate estimate_tokens default_context_config \<lparr>in_system_fixed = [], in_current_message = [], in_tool_text = [],
      in_factual_block = [], in_buffer = [new_turn (py ''user'') (py ''hello there'') 0], in_summary = [], in_episodic = []\<rparr> = Inr r
    \<and> used_tokens r \<le> 122880"
proof -
  let ?i = "\<lparr>in_system_fixed = [], in_current_message = [], in_tool_text = [], in_factual_block = [],
      in_buffer = [new_turn (py ''user'') (py ''hello there'') 0], in_summary = [], in_episodic = []\<rparr>"
  obtain r where "allocate estimate_tokens default_context_config ?i = Inr r"
    by (cases "allocate estimate_tokens default_context_config ?i")
      (auto simp: allocate_overflow_iff budget_def default_context_config_def tier0_def)
  with budget_respected [of default_context_config ?i undefined r] show ?thesis
    by (auto simp: budget_def default_context_config_def)
qed

text \<open>C22: what survives is the best that fits. The buffer keeps its longest suffix that fits in the room the older
  tiers left, in order, and the memories kept are the best-scored ones.\<close>

theorem newest_turns_and_best_hits_survive:
  assumes "allocate estimate_tokens cfg i = Inr r"
  shows "\<exists>evicted n. in_buffer i = evicted @ out_buffer r \<and> out_episodic r = take n (sort_desc hit_score (in_episodic i))
    \<and> (evicted \<noteq> [] \<longrightarrow> tier0 estimate_tokens i + estimate_tokens (out_factual_block r) + estimate_tokens (out_summary r)
        + sum_list (map (turn_cost estimate_tokens) (last evicted # out_buffer r)) > budget cfg)"
proof -
  obtain evicted where "in_buffer i = evicted @ out_buffer r"
    and "evicted \<noteq> [] \<longrightarrow> tier0 estimate_tokens i + estimate_tokens (out_factual_block r) + estimate_tokens (out_summary r)
        + sum_list (map (turn_cost estimate_tokens) (out_buffer r)) + turn_cost estimate_tokens (last evicted) > budget cfg"
    using default_estimator.allocate_buffer [OF assms] by blast
  moreover obtain n where "out_episodic r = take n (sort_desc hit_score (in_episodic i))"
    using allocate_episodic_best [OF assms] by blast
  ultimately show ?thesis
    by (intro exI [of _ evicted] exI [of _ n]) (simp add: algebra_simps)
qed

theorem newest_turns_and_best_hits_survive_witness:
  "\<exists>r evicted. allocate estimate_tokens \<lparr>max_input_tokens = 3, output_reserve_tokens = 0, safety_margin = 0\<rparr>
     \<lparr>in_system_fixed = [], in_current_message = [], in_tool_text = [], in_factual_block = [],
      in_buffer = [new_turn (py ''user'') (py ''eightlet'') 0, new_turn (py ''user'') (py ''eightlet'') 1], in_summary = [], in_episodic = []\<rparr> = Inr r
    \<and> evicted @ out_buffer r = [new_turn (py ''user'') (py ''eightlet'') 0, new_turn (py ''user'') (py ''eightlet'') 1]
    \<and> length (out_buffer r) = 1"
proof -
  let ?cfg = "\<lparr>max_input_tokens = 3, output_reserve_tokens = 0, safety_margin = 0\<rparr>"
  let ?i = "\<lparr>in_system_fixed = [], in_current_message = [], in_tool_text = [], in_factual_block = [],
      in_buffer = [new_turn (py ''user'') (py ''eightlet'') 0, new_turn (py ''user'') (py ''eightlet'') 1], in_summary = [], in_episodic = []\<rparr>"
  obtain r where r: "allocate estimate_tokens ?cfg ?i = Inr r" "length (out_buffer r) = 1"
    by (simp add: allocate_def tier0_def budget_def keep_whole_def turn_cost_def new_turn_def estimate_tokens_def sort_desc_def)
  from newest_turns_and_best_hits_survive [OF r(1)] r show ?thesis by fastforce
qed

text \<open>C23: the budgeter's decision about the profile is not followed: even when it dropped the factual block, the
  system message that is sent contains the whole of it, while \<open>used_tokens\<close> does not count it.\<close>

theorem factual_block_always_sent:
  assumes "allocate (cb_estimate b) (cb_context_cfg b) (budget_inputs_of b msg sn p hits tools dyn sk) = Inr bud"
    and "out_factual_block bud = []" and "facts p \<noteq> []"
  shows "\<exists>ctx sys. cb_assemble b msg sn p hits tools dyn sk = Inr ctx \<and> hd (ctx_messages ctx) = MSystem sys
    \<and> sublist (format_factual (cb_float_str b) p (ac_factual_block_header (cb_agent_cfg b))) sys
    \<and> ctx_used_tokens ctx = used_tokens bud"
proof -
  obtain ctx where ctx: "cb_assemble b msg sn p hits tools dyn sk = Inr ctx" "ctx_used_tokens ctx = used_tokens bud"
    using assms(1) by (simp add: cb_assemble_def Let_def)
  with assemble_factual_always [OF ctx(1) assms(3)] show ?thesis by auto
qed

theorem factual_block_always_sent_witness:
  "\<exists>(b :: unit context_builder) ctx sys. max_input_tokens (cb_context_cfg b) = 8 \<and> cb_assemble b [] \<lparr>sn_buffer = [], sn_summary = []\<rparr>
      ((new_profile (py ''u'') 0)\<lparr>facts := [(py ''k'', JStr (py ''v''))]\<rparr>) [] [] [] [] = Inr ctx
    \<and> hd (ctx_messages ctx) = MSystem sys \<and> ctx_used_tokens ctx = 7 \<and> estimate_tokens sys > 8"
proof -
  let ?b = "sample_builder\<lparr>cb_context_cfg := \<lparr>max_input_tokens = 8, output_reserve_tokens = 0, safety_margin = 0\<rparr>\<rparr>"
  let ?p = "(new_profile (py ''u'') 0)\<lparr>facts := [(py ''k'', JStr (py ''v''))]\<rparr>"
  let ?sn = "\<lparr>sn_buffer = [], sn_summary = []\<rparr>"
  obtain bud where bud: "allocate (cb_estimate ?b) (cb_context_cfg ?b) (budget_inputs_of ?b [] ?sn ?p [] [] [] []) = Inr bud"
    "out_factual_block bud = []" "used_tokens bud = 7"
    by (simp add: allocate_def tier0_def budget_def keep_whole_def estimate_tokens_def budget_inputs_of_def
        sample_builder_def default_agent_config_def format_factual_def fact_lines_def new_profile_def sort_desc_def)
  obtain ctx sys where c: "cb_assemble ?b [] ?sn ?p [] [] [] [] = Inr ctx" "hd (ctx_messages ctx) = MSystem sys"
    "sublist (format_factual (cb_float_str ?b) ?p (ac_factual_block_header (cb_agent_cfg ?b))) sys" "ctx_used_tokens ctx = used_tokens bud"
    using factual_block_always_sent [OF bud(1,2)] by auto
  have "sys = compose_system default_agent_config [] [] (format_factual (cb_float_str ?b) ?p (ac_factual_block_header (cb_agent_cfg ?b))) [] []"
    using c(1,2) by (rule_tac cb_assemble_cases [OF c(1)])
      (use bud in \<open>auto simp: sample_builder_def format_episodic_def allocate_def budget_inputs_of_def Let_def split_def sort_desc_def keep_whole_def split: if_splits\<close>)
  then have "estimate_tokens sys > 8"
    by (simp add: compose_system_def default_agent_config_def format_factual_def fact_lines_def new_profile_def sample_builder_def estimate_tokens_def)
  with c bud(3) show ?thesis
    by (intro exI [of _ ?b] exI [of _ ctx] exI [of _ sys]) simp
qed

text \<open>C24: a rollover splits the buffer into a front that is folded into the summary and a non-empty rest that is
  kept. Nothing is folded unless the buffer is over its token budget and has more than one turn; what is kept
  fits the budget, unless it is a single turn, and is as long as possible; and the text handed to the summarizer
  contains the text of every folded turn.\<close>

theorem rollover_split:
  assumes "split_for_rollover estimate_tokens cfg buffer = (kept, evicted)"
  shows "buffer = evicted @ kept \<and> (buffer \<noteq> [] \<longrightarrow> kept \<noteq> [])
    \<and> (evicted \<noteq> [] \<longleftrightarrow> needs_rollover estimate_tokens cfg buffer \<and> 1 < length buffer)
    \<and> (buffer_tokens estimate_tokens kept \<le> wc_buffer_token_budget cfg \<or> length kept \<le> 1)
    \<and> (evicted \<noteq> [] \<longrightarrow> buffer_tokens estimate_tokens (last evicted # kept) > wc_buffer_token_budget cfg)
    \<and> (\<forall>t \<in> set evicted. turn_text t \<noteq> [] \<longrightarrow> sublist (turn_text t) (rollover_transcript evicted))"
  using split_for_rollover_spec [OF assms] default_estimator.evicts_iff [OF assms] evicted_in_transcript by blast

theorem rollover_split_witness:
  "\<exists>kept evicted. split_for_rollover estimate_tokens ((default_working_config [])\<lparr>wc_buffer_token_budget := 1\<rparr>)
      [new_turn (py ''user'') (py ''abcd'') 0, new_turn (py ''user'') (py ''efgh'') 1] = (kept, evicted) \<and> length kept = 1
    \<and> sublist (py ''abcd'') (rollover_transcript evicted)"
proof -
  let ?buffer = "[new_turn (py ''user'') (py ''abcd'') 0, new_turn (py ''user'') (py ''efgh'') 1]"
  let ?cfg = "(default_working_config [])\<lparr>wc_buffer_token_budget := 1\<rparr>"
  have s: "split_for_rollover estimate_tokens ?cfg ?buffer = ([new_turn (py ''user'') (py ''efgh'') 1], [new_turn (py ''user'') (py ''abcd'') 0])"
    by (simp add: split_for_rollover_def new_turn_def estimate_tokens_def)
  from rollover_split [OF this] have "sublist (py ''abcd'') (rollover_transcript [new_turn (py ''user'') (py ''abcd'') 0])"
    by (simp add: new_turn_def)
  with s show ?thesis by auto
qed

text \<open>C25: while nothing else touches the session, a rollover replaces the folded turns by the summarizer's new
  summary, in one write, and keeps the others; with no usable summary it leaves everything as it was.\<close>

theorem rollover_commits_or_keeps:
  assumes "wm_llm m = Some llm" and "0 \<le> max_retries (wm_store_retry m)"
    and "ss_live (w_sessions w) (w_now w) c = Some st" and "st_user_id st = u"
    and "split_for_rollover (wm_estimate m) (wm_cfg m) (working_buffer st) = (kept, evicted)"
    and "rollover_transcript evicted \<noteq> []"
    and "llm (summarize_prompt (wm_cfg m) (rolling_summary st) (rollover_transcript evicted)) w = (w', Inr answer)"
    and "w_sessions w' = w_sessions w"
  shows "wm_maybe_rollover m c u w =
      (if answer = None \<or> answer = Some [] \<or> answer = Some (rolling_summary st) then (w', Inr ())
       else (w'\<lparr>w_sessions := ss_save (w_sessions w) c (st\<lparr>rolling_summary := the answer, working_buffer := kept\<rparr>) (w_now w')\<rparr>, Inr ()))
    \<and> working_buffer st = evicted @ kept"
proof
  have ne: "evicted \<noteq> []"
    using assms(6) by (auto simp: rollover_transcript_def)
  have st: "map_of (sessions (w_sessions w')) c = Some st"
    using assms(3,8) by (auto simp: ss_live_def split: option.splits if_splits)
  define new where "new = (case answer of None \<Rightarrow> rolling_summary st | Some s \<Rightarrow> if s \<noteq> [] then s else rolling_summary st)"
  have sm: "wm_summarize (wm_cfg m) llm (rolling_summary st) evicted w = (w', Inr new)"
    using assms(6,7) by (auto simp: wm_summarize_def Let_def seq_Inr ret_apply new_def split: option.splits)
  show "wm_maybe_rollover m c u w =
      (if answer = None \<or> answer = Some [] \<or> answer = Some (rolling_summary st) then (w', Inr ())
       else (w'\<lparr>w_sessions := ss_save (w_sessions w) c (st\<lparr>rolling_summary := the answer, working_buffer := kept\<rparr>) (w_now w')\<rparr>, Inr ()))"
  proof (cases "new = [] \<or> new = rolling_summary st")
    case True
    have "wm_maybe_rollover m c u w = rollover_commit m c st kept new w'"
      using assms(1,3,4,5) ne sm by (simp add: wm_maybe_rollover_def session_load_own seq_Inr)
    with rollover_unusable [OF st True] True show ?thesis
      by (auto simp: new_def split: option.splits if_splits)
  next
    case False
    with maybe_rollover_effect [OF assms(1-5) ne sm st] show ?thesis
      by (auto simp: new_def assms(8) split: option.splits if_splits)
  qed
  show "working_buffer st = evicted @ kept"
    using split_for_rollover_spec(1) [OF assms(5)] .
qed

theorem rollover_commits_or_keeps_witness:
  "\<exists>w' st'. wm_maybe_rollover (sample_working (\<lambda>ms. ret (Some (py ''s''))) 1) (py ''c'') (py ''alice'')
      (alice_world 0 0 [new_turn (py ''user'') (py ''abcd'') 0, new_turn (py ''user'') (py ''efgh'') 1]) = (w', Inr ())
    \<and> map_of (sessions (w_sessions w')) (py ''c'') = Some st' \<and> rolling_summary st' = py ''s''
    \<and> working_buffer st' = [new_turn (py ''user'') (py ''efgh'') 1]"
proof -
  let ?buffer = "[new_turn (py ''user'') (py ''abcd'') 0, new_turn (py ''user'') (py ''efgh'') 1]"
  let ?m = "sample_working (\<lambda>ms. ret (Some (py ''s''))) 1"
  let ?w = "alice_world 0 0 ?buffer"
  have s: "split_for_rollover (wm_estimate ?m) (wm_cfg ?m) (working_buffer (sample_session 0 ?buffer))
      = ([new_turn (py ''user'') (py ''efgh'') 1], [new_turn (py ''user'') (py ''abcd'') 0])"
    by (simp add: split_for_rollover_def new_turn_def estimate_tokens_def sample_working_def alice_user)
  have "rollover_transcript [new_turn (py ''user'') (py ''abcd'') 0] \<noteq> []"
    by (simp add: rollover_transcript_def transcript_line_def new_turn_def)
  with rollover_commits_or_keeps [where w = ?w and w' = ?w and answer = "Some (py ''s'')" and c = "py ''c''"
      and llm = "\<lambda>ms. ret (Some (py ''s''))", OF _ _ alice_live alice_user(1) s]
  show ?thesis
    by (simp add: sample_working_def default_retry_policy_def ret_apply sample_session_def new_session_def ss_save_def dict_simps)
qed

text \<open>C26: the write at the end of a rollover is not aware of what happened while the summarizer ran. Turns that were
  appended to the session meanwhile are overwritten: they are neither in the buffer afterwards nor in what was
  summarized.\<close>

theorem rollover_race_loses_turns:
  assumes "wm_llm m = Some llm" and "0 \<le> max_retries (wm_store_retry m)"
    and "ss_live (w_sessions w) (w_now w) c = Some st" and "st_user_id st = u"
    and "split_for_rollover (wm_estimate m) (wm_cfg m) (working_buffer st) = (kept, evicted)"
    and "rollover_transcript evicted \<noteq> []"
    and "llm (summarize_prompt (wm_cfg m) (rolling_summary st) (rollover_transcript evicted)) w = (w', Inr (Some s))"
    and "map_of (sessions (w_sessions w')) c = Some st'" and "working_buffer st' = working_buffer st @ fresh"
    and "s \<noteq> []" and "s \<noteq> rolling_summary st'"
  shows "\<exists>w'' st''. wm_maybe_rollover m c u w = (w'', Inr ()) \<and> map_of (sessions (w_sessions w'')) c = Some st''
    \<and> working_buffer st' = evicted @ kept @ fresh \<and> working_buffer st'' = kept"
proof -
  have ne: "evicted \<noteq> []"
    using assms(6) by (auto simp: rollover_transcript_def)
  have "wm_summarize (wm_cfg m) llm (rolling_summary st) evicted w = (w', Inr s)"
    using assms(6,7,10) by (auto simp: wm_summarize_def Let_def seq_Inr ret_apply)
  from maybe_rollover_effect [OF assms(1-5) ne this assms(8,10,11)] assms(9) show ?thesis
    using split_for_rollover_spec(1) [OF assms(5)] by (auto simp: ss_save_def dict_simps)
qed

theorem rollover_race_loses_turns_witness:
  "\<exists>w' st'. wm_maybe_rollover (sample_working (\<lambda>ms. seq (session_append (py ''c'') (new_turn (py ''user'') (py ''new'') 2))
        (\<lambda>_. ret (Some (py ''s'')))) 1) (py ''c'') (py ''alice'')
      (alice_world 0 0 [new_turn (py ''user'') (py ''abcd'') 0, new_turn (py ''user'') (py ''efgh'') 1]) = (w', Inr ())
    \<and> map_of (sessions (w_sessions w')) (py ''c'') = Some st' \<and> working_buffer st' = [new_turn (py ''user'') (py ''efgh'') 1]"
proof -
  let ?new = "new_turn (py ''user'') (py ''new'') 2"
  let ?buffer = "[new_turn (py ''user'') (py ''abcd'') 0, new_turn (py ''user'') (py ''efgh'') 1]"
  let ?llm = "\<lambda>ms. seq (session_append (py ''c'') ?new) (\<lambda>_. ret (Some (py ''s'')))"
  let ?m = "sample_working ?llm 1"
  let ?w = "alice_world 0 0 ?buffer"
  have s: "split_for_rollover (wm_estimate ?m) (wm_cfg ?m) (working_buffer (sample_session 0 ?buffer))
      = ([new_turn (py ''user'') (py ''efgh'') 1], [new_turn (py ''user'') (py ''abcd'') 0])"
    by (simp add: split_for_rollover_def new_turn_def estimate_tokens_def sample_working_def alice_user)
  have t: "rollover_transcript [new_turn (py ''user'') (py ''abcd'') 0] \<noteq> []"
    by (simp add: rollover_transcript_def transcript_line_def new_turn_def)
  let ?st = "(sample_session 0 ?buffer)\<lparr>working_buffer := ?buffer @ [?new]\<rparr>"
  have "?llm ms ?w = (?w\<lparr>w_sessions := \<lparr>sessions = [(py ''c'', ?st)], ttl_s = Some 3600\<rparr>\<rparr>, Inr (Some (py ''s'')))" for ms
    by (simp add: session_append_def ss_append_turn_def seq_def ret_def alice_world_def sample_world_def sample_session_def new_session_def)
  from rollover_race_loses_turns [where st' = ?st and fresh = "[?new]" and w = ?w and llm = ?llm and c = "py ''c''",
      OF _ _ alice_live alice_user(1) s t this]
  show ?thesis
    by (simp add: sample_working_def default_retry_policy_def sample_session_def new_session_def)
qed

section \<open>Tools\<close>

text \<open>C27: whatever happens to a tool call, the model gets an observation: when no handler lets a cancellation escape,
  running a call raises nothing and answers under the call's own id and name, with at most 500 characters (and the
  mark of the cut) for display. A call of a tool that is not permitted or not registered fails and changes nothing.\<close>

theorem tool_failures_are_observations:
  assumes "\<forall>(name, t) \<in> set (rg_tools rg). handler_total t"
  shows "\<exists>w' ex tag. reg_run rg u call w = (w', Inr (ex, tag)) \<and> ex_call_id ex = tc_id call \<and> ex_name ex = tc_name call
    \<and> length (ex_display ex) \<le> 500 + length truncation_mark \<and> (ex_ok ex \<longleftrightarrow> tag = py ''ok'')
    \<and> (tc_name call \<notin> pm_allowed_tools (w_perms w) u \<or> map_of (rg_tools rg) (tc_name call) = None \<longrightarrow> w' = w \<and> \<not> ex_ok ex)"
proof -
  from reg_run_total [OF assms] obtain w' ex tag where r: "reg_run rg u call w = (w', Inr (ex, tag))"
    by (metis prod.collapse)
  moreover have "length (ex_display ex) \<le> 500 + length truncation_mark"
    using reg_run_ids [OF r] length_truncate_text [of "ex_observation ex" DISPLAY_TRUNCATE] by (simp add: DISPLAY_TRUNCATE_def)
  ultimately show ?thesis
    using reg_run_ids [OF r] reg_run_refused [of call w u rg] by fastforce
qed

theorem tool_failures_are_observations_witness:
  "\<exists>ex tag. reg_run sample_registry (py ''bob'') (sample_call ''7'' ''rm'') (sample_world 0) = (sample_world 0, Inr (ex, tag))
    \<and> ex_call_id ex = py ''7'' \<and> \<not> ex_ok ex"
  using tool_failures_are_observations [OF echo_total, of "py ''bob''" "sample_call ''7'' ''rm''" "sample_world 0"]
  by (auto simp: sample_call_def sample_world_def pm_init_def pm_allowed_tools_def get_set_def)

text \<open>C28: the model is offered exactly what it may run. Whatever tools a registry was built with, and whatever was
  registered later, the definitions given for a user are those of the registered tools the user is allowed, each
  name once, and a call of any other name is refused without an effect.\<close>

theorem offered_tools_are_runnable:
  "let rg = foldl reg_register (reg_init ts timeout policies fl) later
   in \<exists>defs. reg_definitions rg u w = (w, Inr defs) \<and> distinct (map td_name defs)
    \<and> set (map td_name defs) = (tool_name ` (set ts \<union> set later)) \<inter> pm_allowed_tools (w_perms w) u
    \<and> (\<forall>call. tc_name call \<in> set (map td_name defs) \<or> (fst (reg_run rg u call w) = w
          \<and> (\<exists>ex tag. snd (reg_run rg u call w) = Inr (ex, tag) \<and> \<not> ex_ok ex)))"
proof -
  let ?rg = "foldl reg_register (reg_init ts timeout policies fl) later"
  have ok: "registry_ok ?rg" and keys: "fst ` set (rg_tools ?rg) = tool_name ` (set ts \<union> set later)"
    using registered_later [OF registry_ok_init, of ts timeout policies fl later] tools_dict_keys [of "[]" ts]
    by (auto simp: reg_init_def)
  from reg_definitions_names [OF ok, of u w] obtain defs where defs: "reg_definitions ?rg u w = (w, Inr defs)" "distinct (map td_name defs)"
    "set (map td_name defs) = fst ` set (rg_tools ?rg) \<inter> pm_allowed_tools (w_perms w) u"
    by (elim exE conjE) (rule that; assumption)
  have "tc_name call \<notin> pm_allowed_tools (w_perms w) u \<or> map_of (rg_tools ?rg) (tc_name call) = None"
    if "tc_name call \<notin> set (map td_name defs)" for call
    using that unfolding defs(3) by (metis IntI dict_mem_iff)
  with defs show ?thesis
    unfolding Let_def keys using reg_run_refused by blast
qed

section \<open>Memory\<close>

text \<open>C29: the in-memory vector search is exact. It returns, best first and at most \<open>k\<close>, points of the user only, with
  their cosine scores and none under the threshold; and a point of the user that qualifies and is not returned has
  \<open>k\<close> returned points that score at least as high.\<close>

theorem vector_search_exact:
  assumes "0 < k" and "np_norm np q \<noteq> 0"
  shows "let r = vs_search np s u q k ms; score = (\<lambda>p :: memory_point. np_dot np q (mp_vector p) / (np_norm np q * np_norm np (mp_vector p)))
    in sorted_wrt (\<lambda>a b. hit_score b \<le> hit_score a) r \<and> int (length r) \<le> k
      \<and> (\<forall>h \<in> set r. owned_by u (hit_point h) \<and> hit_point h \<in> snd ` set s
            \<and> hit_score h = score (hit_point h) \<and> ms \<le> hit_score h)
      \<and> (\<forall>p \<in> snd ` set s. owned_by u p \<and> np_norm np (mp_vector p) \<noteq> 0 \<and> ms \<le> score p \<longrightarrow>
            \<lparr>hit_point = p, hit_score = score p\<rparr> \<in> set r \<or> (int (length r) = k \<and> (\<forall>h \<in> set r. score p \<le> hit_score h)))"
proof -
  define r where "r = vs_search np s u q k ms"
  define score where "score = (\<lambda>p :: memory_point. np_dot np q (mp_vector p) / (np_norm np q * np_norm np (mp_vector p)))"
  let ?hits = "score_hits np q (np_norm np q) ms (filter (owned_by u) (map snd s))"
  have r: "r = take (nat k) (sort_desc hit_score ?hits)"
    using assms by (simp add: r_def vs_search_eq)
  have "set r \<subseteq> set ?hits"
    unfolding r using set_take_subset [of "nat k" "sort_desc hit_score ?hits"] by simp
  then have sound: "owned_by u (hit_point h) \<and> hit_point h \<in> snd ` set s \<and> hit_score h = score (hit_point h) \<and> ms \<le> hit_score h"
    if "h \<in> set r" for h
    using that score_hits_sound [of h np q "np_norm np q" ms] unfolding score_def by fastforce
  have complete: "h \<in> set r \<or> (int (length r) = k \<and> (\<forall>h' \<in> set r. hit_score h \<le> hit_score h'))"
    if "h \<in> set ?hits" for h
    using take_sorted_best [OF sorted_sort_desc, of h hit_score ?hits "nat k"] that assms(1) unfolding r by auto
  have kept: "\<lparr>hit_point = p, hit_score = score p\<rparr> \<in> set r \<or> (int (length r) = k \<and> (\<forall>h \<in> set r. score p \<le> hit_score h))"
    if "p \<in> snd ` set s" "owned_by u p" "np_norm np (mp_vector p) \<noteq> 0" "ms \<le> score p" for p
  proof -
    have "\<lparr>hit_point = p, hit_score = score p\<rparr> \<in> set ?hits"
      using that unfolding score_def by (intro score_hits_complete) auto
    from complete [OF this] show ?thesis by simp
  qed
  have "sorted_wrt (\<lambda>a b. hit_score b \<le> hit_score a) r \<and> int (length r) \<le> k"
    using assms(1) by (simp add: r sorted_wrt_take sorted_sort_desc)
  with sound kept show ?thesis
    unfolding Let_def r_def [symmetric] score_def [symmetric] by blast
qed

theorem vector_search_exact_witness:
  "length (vs_search sample_numpy [(py ''p'', \<lparr>mp_id = py ''p'', mp_vector = [1], mp_payload = [(py ''user_id'', JStr (py ''alice''))]\<rparr>),
      (py ''q'', \<lparr>mp_id = py ''q'', mp_vector = [1], mp_payload = [(py ''user_id'', JStr (py ''bob''))]\<rparr>)] (py ''alice'') [1] 3 0) > 0"
proof -
  let ?p = "\<lparr>mp_id = py ''p'', mp_vector = [1], mp_payload = [(py ''user_id'', JStr (py ''alice''))]\<rparr>"
  let ?s = "[(py ''p'', ?p), (py ''q'', \<lparr>mp_id = py ''q'', mp_vector = [1], mp_payload = [(py ''user_id'', JStr (py ''bob''))]\<rparr>)]"
  have "owned_by (py ''alice'') ?p" by (simp add: owned_by_def)
  with vector_search_exact [of 3 sample_numpy "[1]" ?s "py ''alice''" 0] show ?thesis
    by (auto simp: sample_numpy_def Let_def)
qed



text \<open>C31: forgetting a conversation is exact: the user's points under the ids of that conversation are gone, and every
  other point of the store, those of other conversations and other users among them, is what it was. The count it
  returns is that of the ids tried.\<close>

theorem forget_conversation_exact:
  assumes "0 \<le> max_retries (em_store_retry m)"
  shows "\<exists>vs. em_forget_conversation m u c w = (w\<lparr>w_vectors := vs\<rparr>, Inr (1 + int (nat (ec_max_flagged_moments (em_cfg m)))))
    \<and> (\<forall>pid. map_of vs pid = (case map_of (w_vectors w) pid of None \<Rightarrow> None
         | Some p \<Rightarrow> if owned_by u p \<and> (pid = conv_id c \<or> (\<exists>i < nat (ec_max_flagged_moments (em_cfg m)). pid = moment_id c i))
             then None else Some p))
    \<and> (\<forall>c' i. c' \<noteq> c \<longrightarrow> map_of vs (conv_id c') = map_of (w_vectors w) (conv_id c')
         \<and> map_of vs (moment_id c' i) = map_of (w_vectors w) (moment_id c' i))"
  by (intro exI [of _ "vs_delete (w_vectors w) (forget_ids (em_cfg m) c) u"] conjI)
    (auto simp: em_forget_effect [OF assms] vs_delete_get in_forget_ids split: option.splits)

theorem forget_conversation_exact_witness:
  "\<exists>vs. em_forget_conversation sample_episodic (py ''alice'') (py ''c'')
      ((sample_world 0)\<lparr>w_vectors := [(conv_id (py ''c''), conversation_point (py ''alice'') (py ''c'') [] [] 0),
        (conv_id (py ''d''), conversation_point (py ''alice'') (py ''d'') [] [] 0)]\<rparr>) = ((sample_world 0)\<lparr>w_vectors := vs\<rparr>, Inr 3)
    \<and> map_of vs (conv_id (py ''c'')) = None \<and> map_of vs (conv_id (py ''d'')) \<noteq> None"
proof -
  let ?w = "(sample_world 0)\<lparr>w_vectors := [(conv_id (py ''c''), conversation_point (py ''alice'') (py ''c'') [] [] 0),
        (conv_id (py ''d''), conversation_point (py ''alice'') (py ''d'') [] [] 0)]\<rparr>"
  have "0 \<le> max_retries (em_store_retry sample_episodic)"
    by (simp add: sample_episodic_def default_retry_policy_def)
  from forget_conversation_exact [OF this, of "py ''alice''" "py ''c''" ?w] obtain vs where
    vs: "em_forget_conversation sample_episodic (py ''alice'') (py ''c'') ?w
      = (?w\<lparr>w_vectors := vs\<rparr>, Inr (1 + int (nat (ec_max_flagged_moments (em_cfg sample_episodic)))))"
    "map_of vs (conv_id (py ''c'')) = (case map_of (w_vectors ?w) (conv_id (py ''c'')) of None \<Rightarrow> None
       | Some p \<Rightarrow> if owned_by (py ''alice'') p then None else Some p)"
    "map_of vs (conv_id (py ''d'')) = map_of (w_vectors ?w) (conv_id (py ''d''))"
    by fastforce
  then show ?thesis
    by (intro exI [of _ vs]) (simp add: owned_by_def conversation_point_def sample_episodic_def default_episodic_config_def)
qed

text \<open>C32: with no TTL the Redis session store cannot be told from the in-memory one. Started on a server without
  sessions, every sequence of loads, saves, appends, marks, scans for due conversations and listings, at any times,
  is answered as the in-memory store answers it, errors and the order of listings included.\<close>

theorem redis_refines_memory:
  assumes "redis_laws R" and "\<forall>t c. rd_get R r t (session_key c) = None"
  shows "rs_answers R None r ops = ss_answers (ss_init None) ops"
  using assms by (intro answers_sim rs_sim_empty) simp_all

theorem redis_refines_memory_witness:
  "rs_answers mem_redis None mem_server_init [(OpSave (py ''c'') (sample_session 0 []), 1), (OpLoad (py ''c'') (py ''bob''), 2)]
    = [Done (Inr ()), Loaded (Inl (unauthorized (py ''c'') (py ''bob'')))]"
  by (subst redis_refines_memory [OF mem_redis_laws])
    (simp_all add: mem_redis_empty ss_save_def ss_load_def ss_init_def ss_expired_def sample_session_def new_session_def)

text \<open>C34: a store write makes at most \<open>max_retries + 1\<close> attempts, each but the last after a retryable failure and a
  sleep of at most the configured maximum. It ends with the state of the last attempt, and either with its value,
  or with a cancellation as it is, or with the typed error of the operation.\<close>

theorem store_write_attempts:
  assumes "0 \<le> max_retries policy"
  shows "\<exists>n delays. int n \<le> max_retries policy \<and> length delays = n
    \<and> (\<forall>d \<in> set delays. d \<le> backoff_max_seconds policy)
    \<and> (\<forall>i < n. \<exists>e. attempt_result op i s = Inl e \<and> default_retryable e)
    \<and> store_write policy operation rnd op s = (after_attempts op (Suc n) s,
        (case attempt_result op n s of Inr v \<Rightarrow> Inr v
         | Inl e \<Rightarrow> Inl (if is_control_flow e then e else StoreWriteError operation)), delays)
    \<and> (\<forall>e. attempt_result op n s = Inl e \<longrightarrow> int n = max_retries policy \<or> \<not> default_retryable e)"
proof -
  obtain n where n: "int n \<le> max_retries policy"
    "\<forall>i < n. goes_on policy default_retryable i (attempt_result op i s)"
    "\<not> goes_on policy default_retryable n (attempt_result op n s)"
    "retry_async policy default_retryable rnd op s =
       (after_attempts op (Suc n) s, attempt_result op n s, map (\<lambda>i. backoff_delay (rnd i) i policy) [0 ..< n])"
    by (rule retry_async_attempts [OF assms, where isr = default_retryable and op = op and s = s and rnd = rnd])
      (rule that; assumption)
  have "\<exists>e. attempt_result op i s = Inl e \<and> default_retryable e" if "i < n" for i
    using n(2) that by (cases "attempt_result op i s") (auto simp: goes_on_def)
  moreover have "int n = max_retries policy \<or> \<not> default_retryable e" if "attempt_result op n s = Inl e" for e
    using n(1,3) that by (auto simp: goes_on_def)
  ultimately show ?thesis
    using n(1)
    by (intro exI [of _ n] exI [of _ "map (\<lambda>i. backoff_delay (rnd i) i policy) [0 ..< n]"])
      (auto simp: store_write_def n(4) backoff_delay_le simp del: after_attempts.simps split: sum.splits)
qed

theorem store_write_attempts_witness:
  "\<exists>n. n \<le> 3 \<and> fst (store_write default_retry_policy [] (\<lambda>_. 0) (\<lambda>k :: nat. (Suc k, if k < 2 then Inl TimeoutError else Inr ())) 0)
     = after_attempts (\<lambda>k. (Suc k, if k < 2 then Inl TimeoutError else Inr ())) (Suc n) 0"
proof -
  let ?op = "\<lambda>k :: nat. (Suc k, if k < 2 then Inl TimeoutError else Inr ())"
  have "0 \<le> max_retries default_retry_policy"
    by (simp add: default_retry_policy_def)
  from store_write_attempts [OF this, of ?op 0 "[]" "\<lambda>_. 0"] obtain n delays where
    "int n \<le> max_retries default_retry_policy"
    and "store_write default_retry_policy [] (\<lambda>_. 0) ?op 0 = (after_attempts ?op (Suc n) 0,
        (case attempt_result ?op n 0 of Inr v \<Rightarrow> Inr v | Inl e \<Rightarrow> Inl (if is_control_flow e then e else StoreWriteError [])), delays)"
    by blast
  then show ?thesis
    by (intro exI [of _ n]) (simp add: default_retry_policy_def del: after_attempts.simps)
qed

section \<open>Persistence\<close>



text \<open>C36: what the Redis store writes of a session is what it reads back: encoding any session as JSON and decoding it
  gives that session, whatever its turns, tool calls and optional fields.\<close>

theorem session_json_round_trip: "session_from_dict (session_to_json s) = Inr s"
  by (rule session_round_trip)

section \<open>Background jobs\<close>

text \<open>C37: deduplication merges exactly the connected components. The union-find always returns, and the groups it
  yields, each once, are the components of two points or more of the graph that joins points whose cosine similarity
  reaches the threshold.\<close>

theorem dedup_groups_are_components:
  "merge_groups (length ps) (similar_edges np threshold ps) = Some (dedup_groups np threshold ps)
    \<and> distinct (dedup_groups np threshold ps)
    \<and> (\<forall>g. g \<in> set (dedup_groups np threshold ps) \<longleftrightarrow> 2 \<le> length g \<and>
         (\<exists>i < length ps. g = filter (\<lambda>j. (i, j) \<in> (set (similar_edges np threshold ps) \<union> (set (similar_edges np threshold ps))\<inverse>)\<^sup>*)
            [0 ..< length ps]))
    \<and> (\<forall>i j. (i, j) \<in> set (similar_edges np threshold ps) \<longleftrightarrow>
         i < j \<and> j < length ps \<and> threshold \<le> np_dot np (normed np (ps ! i)) (normed np (ps ! j)))"
  using dedup_groups_spec [of ps np threshold] set_similar_edges [of _ _ np threshold ps] unfolding linked_def by blast

text \<open>C38: a deduplication run is safe. Under every id that is not that of a merged point the store holds what it held,
  unless it held one of this user's own points that is in a group, or a moment of the conversation of such a point;
  those may be gone. Whatever the services answer, nothing of another user is deleted.\<close>

theorem dedup_is_safe:
  assumes "0 \<le> max_retries (dj_store_retry j)" and "faithful_services j"
  shows "\<exists>vs r. dedup_run_for_user j u w = (w\<lparr>w_vectors := vs\<rparr>, Inr r)
    \<and> (\<forall>pid. pid \<notin> range dedup_id \<longrightarrow> map_of vs pid = map_of (w_vectors w) pid
         \<or> (map_of vs pid = None \<and> pid \<in> dedup_scope j u (w_vectors w)
            \<and> (\<exists>p. map_of (w_vectors w) pid = Some p \<and> owned_by u p)))"
  by (rule dedup_run_spec [OF assms])

theorem dedup_is_safe_witness:
  "\<exists>vs r. dedup_run_for_user sample_dedup (py ''alice'')
      ((sample_world 5)\<lparr>w_vectors := [(conv_id (py ''a''), conversation_point (py ''alice'') (py ''a'') (py ''x'') [1] 0),
         (conv_id (py ''b''), conversation_point (py ''bob'') (py ''b'') (py ''x'') [1] 0),
         (conv_id (py ''c''), conversation_point (py ''alice'') (py ''c'') (py ''y'') [1] 1)]\<rparr>) = ((sample_world 5)\<lparr>w_vectors := vs\<rparr>, Inr r)
    \<and> map_of vs (conv_id (py ''b'')) = Some (conversation_point (py ''bob'') (py ''b'') (py ''x'') [1] 0)"
proof -
  let ?w = "(sample_world 5)\<lparr>w_vectors := [(conv_id (py ''a''), conversation_point (py ''alice'') (py ''a'') (py ''x'') [1] 0),
         (conv_id (py ''b''), conversation_point (py ''bob'') (py ''b'') (py ''x'') [1] 0),
         (conv_id (py ''c''), conversation_point (py ''alice'') (py ''c'') (py ''y'') [1] 1)]\<rparr>"
  obtain vs r where run: "dedup_run_for_user sample_dedup (py ''alice'') ?w = (?w\<lparr>w_vectors := vs\<rparr>, Inr r)"
    and others: "\<forall>pid. pid \<notin> range dedup_id \<longrightarrow> map_of vs pid = map_of (w_vectors ?w) pid
         \<or> (map_of vs pid = None \<and> pid \<in> dedup_scope sample_dedup (py ''alice'') (w_vectors ?w)
            \<and> (\<exists>p. map_of (w_vectors ?w) pid = Some p \<and> owned_by (py ''alice'') p))"
    using dedup_is_safe [OF sample_dedup_ok(1,2), of "py ''alice''" ?w] by (elim exE conjE) (rule that; assumption)
  have "conv_id (py ''b'') \<notin> range dedup_id"
    by (auto simp: conv_id_def dedup_id_def py_def)
  with others have "map_of vs (conv_id (py ''b'')) = map_of (w_vectors ?w) (conv_id (py ''b''))
      \<or> (\<exists>p. map_of (w_vectors ?w) (conv_id (py ''b'')) = Some p \<and> owned_by (py ''alice'') p)"
    by blast
  with run show ?thesis
    by (intro exI [of _ vs] exI [of _ r]) (auto simp: owned_by_def conversation_point_def)
qed

text \<open>C39: forgetting a conversation does not reach what deduplication made of it. After a commit that merged its point,
  and whichever conversation the user then forgets, the merged point is still in the store, as the user's, with the
  merged text and the conversation among its sources.\<close>

theorem merged_memory_survives_forgetting:
  assumes "0 \<le> max_retries (dj_store_retry j)" and "0 \<le> max_retries (em_store_retry m)" and "dict_ok texts"
    and "(bid, (body, meta)) \<in> set texts" and "map_of vectors bid = Some vec"
    and "dedup_id bid \<notin> committed_deletions moments vectors texts"
  shows "\<exists>w1 r w2 n p. dedup_commit j u cps moments vectors result texts w = (w1, Inr r)
    \<and> em_forget_conversation m u c w1 = (w2, Inr n)
    \<and> map_of (w_vectors w2) (dedup_id bid) = Some p \<and> owned_by u p
    \<and> map_of (mp_payload p) (py ''text'') = Some (JStr body)
    \<and> map_of (mp_payload p) (py ''source_conversation_ids'') = Some (JList (map JStr (dm_conv_ids meta)))"
proof -
  obtain vs r where run: "dedup_commit j u cps moments vectors result texts w = (w\<lparr>w_vectors := vs\<rparr>, Inr r)"
    using dedup_commit_runs [OF assms(1)] by blast
  have "(bid, (body, meta)) \<in> set (committed vectors texts)"
    using assms(4,5) by (auto simp: committed_def)
  from dedup_commit_merged [OF assms(1,3) this assms(6), of u cps result w]
  obtain now where p: "map_of vs (dedup_id bid) = Some (merged_point u cps bid body meta vec now)"
    by (auto simp: run assms(5))
  let ?w2 = "w\<lparr>w_vectors := vs_delete vs (forget_ids (em_cfg m) c) u\<rparr>"
  have forget: "em_forget_conversation m u c (w\<lparr>w_vectors := vs\<rparr>) = (?w2, Inr (1 + int (nat (ec_max_flagged_moments (em_cfg m)))))"
    by (simp add: em_forget_effect [OF assms(2)])
  have merged: "map_of (w_vectors ?w2) (dedup_id bid) = Some (merged_point u cps bid body meta vec now)"
    by (simp add: vs_delete_get p dedup_id_not_forgotten)
  show ?thesis
    by (intro exI conjI, rule run, rule forget, rule merged) (simp_all add: merged_point_def owned_by_def Let_def)
qed

theorem merged_memory_survives_forgetting_witness:
  "\<exists>w1 r w2 n p. dedup_commit sample_dedup (py ''alice'') [conversation_point (py ''alice'') (py ''a'') (py ''secret'') [1] 0] []
      [(py ''m'', [1])] no_dedup [(py ''m'', (py ''secret'', \<lparr>dm_conv_ids = [py ''a'', py ''c''], dm_source_points = [conv_id (py ''a'')]\<rparr>))]
      (sample_world 5) = (w1, Inr r)
    \<and> em_forget_conversation sample_episodic (py ''alice'') (py ''a'') w1 = (w2, Inr n)
    \<and> map_of (w_vectors w2) (dedup_id (py ''m'')) = Some p \<and> map_of (mp_payload p) (py ''text'') = Some (JStr (py ''secret''))"
proof -
  let ?texts = "[(py ''m'', (py ''secret'', \<lparr>dm_conv_ids = [py ''a'', py ''c''], dm_source_points = [conv_id (py ''a'')]\<rparr>))]"
  have "0 \<le> max_retries (em_store_retry sample_episodic)"
    by (simp add: sample_episodic_def default_retry_policy_def)
  moreover have "dedup_id (py ''m'') \<notin> committed_deletions [] [(py ''m'', [1 :: real])] ?texts"
    by (simp add: committed_deletions_def committed_def dedup_deletions_def moment_siblings_def dedup_id_def conv_id_def)
  ultimately show ?thesis
    using merged_memory_survives_forgetting [OF sample_dedup_ok(1), of sample_episodic ?texts "py ''m''" "py ''secret''"
        "\<lparr>dm_conv_ids = [py ''a'', py ''c''], dm_source_points = [conv_id (py ''a'')]\<rparr>" "[(py ''m'', [1])]" "[1]" "[]"
        "py ''alice''" "[conversation_point (py ''alice'') (py ''a'') (py ''secret'') [1] 0]" no_dedup "sample_world 5" "py ''a''"]
    by simp blast
qed



section \<open>Connections, the vector server and tracing\<close>

text \<open>C17: the life of a WebSocket connection, in every interleaving of its two tasks. The turns are started in the order
  they were received and none is lost: those not started are still queued, and none is once the runner has ended with every
  frame sent. The conversation is ended at most once, when the connection ends, for a user who sent a turn on it.
  And once the client has gone the connection can always be brought to its end, and then the conversation of the user who
  sent the last turn is ended.\<close>

theorem ws_connection_lifecycle:
  assumes "ws_run ls ws_init = Some c"
  shows "map snd (wsc_received c) = wsc_started c @ ws_pending c
    \<and> (wsc_runner c = RunnerDone \<and> \<not> wsc_broken c \<longrightarrow> wsc_started c = map snd (wsc_received c))
    \<and> length (ws_ended c) \<le> 1 \<and> set (ws_ended c) \<subseteq> fst ` set (wsc_received c) \<and> (\<not> wsc_closed c \<longrightarrow> ws_ended c = [])
    \<and> (wsc_receiver c = ReceiverDone \<and> \<not> wsc_closed c \<longrightarrow> (\<exists>ls' c'. ws_run ls' c = Some c' \<and> wsc_closed c'
         \<and> ws_ended c' = (if wsc_received c = [] then [] else [fst (last (wsc_received c))])))"
proof -
  have inv: "ws_inv c" by (rule ws_inv_run [OF ws_inv_init assms])
  then have user: "(case wsc_last_user c of None \<Rightarrow> [] | Some u \<Rightarrow> [u]) = (if wsc_received c = [] then [] else [fst (last (wsc_received c))])"
    by (simp add: ws_inv_def)
  from inv show ?thesis
    using ws_can_close [OF inv] unfolding user by (auto simp: ws_inv_def intro: rev_image_eqI)
qed

theorem ws_connection_lifecycle_witness:
  "\<exists>c. ws_run [WsText (Inr (JObj [(py ''user_id'', JStr (py ''alice'')), (py ''message'', JStr (py ''hi''))])) (Inr ()), WsDisconnect,
      WsTake [TextDelta (py ''hello'')] None, WsSend Sent, WsTurnOver, WsTake [] None, WsClose] ws_init = Some c
    \<and> wsc_started c = map snd (wsc_received c) \<and> ws_ended c = [py ''alice'']"
proof -
  let ?ls = "[WsText (Inr (JObj [(py ''user_id'', JStr (py ''alice'')), (py ''message'', JStr (py ''hi''))])) (Inr ()), WsDisconnect,
      WsTake [TextDelta (py ''hello'')] None, WsSend Sent, WsTurnOver, WsTake [] None, WsClose]"
  obtain c where c: "ws_run ?ls ws_init = Some c" and r: "wsc_runner c = RunnerDone" "\<not> wsc_broken c" "ws_ended c = [py ''alice'']"
    by (simp add: ws_init_def ws_dispatch_def ws_receive_def payload_str_def turn_over_def gather_ended_def ws_ended_def)
  from ws_connection_lifecycle [OF c] r c show ?thesis by blast
qed

text \<open>C20: the Qdrant store refines the in-memory one. Whatever operations a program makes on a new collection, reading all
  pages ends and gives each of the user's points exactly once, up to the server's form of vectors and objects the points
  the in-memory store would list; and a search returns such points only, none under its threshold. Of the server it
  uses the documented laws of its calls, of \<open>uuid5\<close> that it has no collisions.\<close>

theorem qdrant_refines_memory:
  assumes "qdrant_laws R" and "inj uuid5" and "\<not> qd_exists R server" and "list_all (vector_op_valid n) ops" and "0 < limit"
  shows "let s = fold (qs_apply R uuid5 n) ops (qs_init server); m = fold vs_apply ops [] in
    (\<exists>pages. load_pages (\<lambda>cursor. fst (qs_list_points R n s u kind limit cursor)) None [] = Some pages \<and> distinct (map mp_id pages)
      \<and> (\<forall>p' \<in> set pages. \<exists>p \<in> set (list_candidates m u kind). same_point R p' p)
      \<and> (\<forall>p \<in> set (list_candidates m u kind). \<exists>p' \<in> set pages. same_point R p' p))
    \<and> (\<forall>h \<in> set (fst (qs_search R n s u q k ms)). ms \<le> hit_score h
      \<and> (\<exists>p \<in> set (list_candidates m u None). same_point R (hit_point h) p))"
proof -
  let ?s = "fold (qs_apply R uuid5 n) ops (qs_init server)" and ?m = "fold vs_apply ops []"
  have ok: "qs_ok R uuid5 n ?s" and rel: "qs_rel R uuid5 ?s ?m"
    using qs_run_rel [OF qs_init_ok [OF assms(1-3)] assms(4)] by simp_all
  obtain pages where pages: "load_pages (\<lambda>cursor. fst (qs_list_points R n ?s u kind limit cursor)) None [] = Some pages"
      "distinct (map mp_id pages)" "set pages = {p \<in> qs_points R ?s. owned_by u p \<and> of_kind kind p}"
    using qs_pages [OF ok assms(5)] by blast
  have "\<exists>p \<in> set (list_candidates ?m u kind). same_point R p' p" if "p' \<in> set pages" for p'
    by (rule qs_rel_points(1) [OF ok rel]) (use that pages(3) in auto)
  moreover have "\<exists>p' \<in> set pages. same_point R p' p" if "p \<in> set (list_candidates ?m u kind)" for p
    using qs_rel_points(2) [OF ok rel that] pages(3) by blast
  moreover have "ms \<le> hit_score h \<and> (\<exists>p \<in> set (list_candidates ?m u None). same_point R (hit_point h) p)"
    if "h \<in> set (fst (qs_search R n ?s u q k ms))" for h
    using qs_search_hits [OF ok that] qs_rel_points(1) [OF ok rel, of "hit_point h" u None] by (simp add: of_kind_def)
  ultimately show ?thesis
    unfolding Let_def using pages(1,2) by blast
qed

theorem qdrant_refines_memory_witness:
  "\<exists>pages. load_pages (\<lambda>cursor. fst (qs_list_points mem_qdrant 1 (qs_apply mem_qdrant id 1
        (AddPoints [conversation_point (py ''alice'') (py ''c'') [] [1] 0]) (qs_init \<lparr>mq_exists = False, mq_size = 0, mq_points = []\<rparr>))
      (py ''alice'') None 10 cursor)) None [] = Some pages \<and> (\<exists>p \<in> set pages. mp_id p = conv_id (py ''c''))"
proof -
  let ?p = "conversation_point (py ''alice'') (py ''c'') [] [1] 0"
  let ?server = "\<lparr>mq_exists = False, mq_size = 0, mq_points = []\<rparr>"
  have fresh: "\<not> qd_exists mem_qdrant ?server" by (simp add: mem_qdrant_def)
  have valid: "list_all (vector_op_valid 1) [AddPoints [?p]]"
    by (simp add: conversation_point_def scalar_keys_def AK_ID_KEY_def)
  obtain pages where pages: "load_pages (\<lambda>cursor. fst (qs_list_points mem_qdrant 1 (qs_apply mem_qdrant id 1 (AddPoints [?p]) (qs_init ?server))
      (py ''alice'') None 10 cursor)) None [] = Some pages"
    and all: "\<forall>p \<in> set (list_candidates (vs_add [] [?p]) (py ''alice'') None). \<exists>p' \<in> set pages. same_point mem_qdrant p' p"
    using qdrant_refines_memory [OF mem_qdrant_laws inj_on_id fresh valid, of 10 "py ''alice''" None]
    unfolding Let_def fold_simps vs_apply.simps by force
  have "?p \<in> set (list_candidates (vs_add [] [?p]) (py ''alice'') None)"
    by (simp add: list_candidates_def owned_by_def of_kind_def conversation_point_def)
  with all obtain p' where "p' \<in> set pages" "mp_id p' = mp_id ?p"
    unfolding same_point_def by blast
  with pages show ?thesis by (auto simp: conversation_point_def)
qed



end
